theory Spec2Isabelle
  imports Main "HOL-Library.Word" "HOL-Library.Monad_Syntax"
begin

unbundle bit_operations_syntax

section \<open>The CardOS 5 driver (src/libopensc/card-cardos5.c)\<close>

text \<open>
  A shallow embedding of the ARL/FCP codec, the TLV writers, the EC signature
  post-processor and the driver operations of \<^verbatim>\<open>card-cardos5.c\<close>.

  Conventions.
  \<^item> \<^verbatim>\<open>uint8_t\<close> is \<open>8 word\<close>, \<^verbatim>\<open>size_t\<close> is \<open>64 word\<close> (an LP64 host),
    \<^verbatim>\<open>unsigned int\<close> is \<open>32 word\<close>; word arithmetic wraps as in C.
  \<^item> A \<^verbatim>\<open>(pointer, length)\<close> pair that is only read is a byte list.
  \<^item> The status codes \<^verbatim>\<open>SC_ERROR_*\<close> are the datatype \<open>error\<close>; a function
    returning \<^verbatim>\<open>int\<close> returns \<open>error + 'a\<close>.
  \<^item> Macro families that the code only compares for equality (\<^verbatim>\<open>SC_AC_*\<close>,
    \<^verbatim>\<open>SC_AC_OP_*\<close>, \<^verbatim>\<open>SC_FILE_TYPE_*\<close>, ...) are datatypes, with one constructor
    carrying every other value.
\<close>

type_synonym u8 = "8 word"
type_synonym size_t = "64 word"
type_synonym uint = "32 word"

datatype error =
    SC_ERROR_INVALID_ARGUMENTS
  | SC_ERROR_BUFFER_TOO_SMALL
  | SC_ERROR_OUT_OF_MEMORY
  | SC_ERROR_WRONG_LENGTH
  | SC_ERROR_NO_CARD_SUPPORT
  | SC_ERROR_NOT_SUPPORTED
  | SC_ERROR_INCORRECT_PARAMETERS
  | SC_ERROR_UNKNOWN_DATA_RECEIVED
  | SC_ERROR_OTHER int  \<comment> \<open>any other code handed up by the host stack\<close>
  | OUT_OF_BOUNDS  \<comment> \<open>no status code: the C program reads outside an array (undefined)\<close>

subsection \<open>Cursor buffers\<close>

text \<open>
  \<^verbatim>\<open>buf_t\<close> is a cursor into a byte array. The array is kept as the bytes below the
  cursor (\<open>prev\<close>) and the bytes from the cursor on (\<open>ptr\<close>, so that \<^verbatim>\<open>buf->ptr[i]\<close> is
  \<open>ptr buf ! i\<close>). Storing through the cursor appends to \<open>prev\<close> and consumes \<open>ptr\<close>;
  a store past the last byte of the array shows as \<open>prev\<close> growing longer than the
  array was.
\<close>

record buf_t =
  prev :: "u8 list"
  ptr :: "u8 list"
  size_b :: size_t
  bytes_used :: size_t

definition buf_init :: "u8 list \<Rightarrow> size_t \<Rightarrow> buf_t" where
  "buf_init arr sz = \<lparr>prev = [], ptr = arr, size_b = sz, bytes_used = 0\<rparr>"

text \<open>\<^verbatim>\<open>*(buf->ptr)++ = b\<close>\<close>

definition put_byte :: "u8 \<Rightarrow> buf_t \<Rightarrow> buf_t" where
  "put_byte b buf = buf\<lparr>prev := prev buf @ [b], ptr := drop 1 (ptr buf)\<rparr>"

text \<open>\<^verbatim>\<open>memcpy(buf->ptr, data, n); buf->ptr += n\<close>\<close>

definition put_bytes :: "u8 list \<Rightarrow> size_t \<Rightarrow> buf_t \<Rightarrow> buf_t" where
  "put_bytes data n buf =
     buf\<lparr>prev := prev buf @ take (unat n) data, ptr := drop (unat n) (ptr buf)\<rparr>"

definition UINT16_MAX :: size_t where
  "UINT16_MAX = 0xFFFF"

text \<open>
  \<^verbatim>\<open>bertlv_put_tag\<close>, lines 171-208. The result is the returned \<^verbatim>\<open>int\<close> (0 or -1)
  and the buffer as the call leaves it. The last guard is the source's
  \<^verbatim>\<open>buf->bytes_used - buf->size < length\<close>, an unsigned subtraction.
\<close>

definition bertlv_put_tag :: "u8 \<Rightarrow> u8 list \<Rightarrow> size_t \<Rightarrow> buf_t \<Rightarrow> int \<times> buf_t" where
  "bertlv_put_tag t data len buf0 =
     (if len > UINT16_MAX \<or> bytes_used buf0 = size_b buf0 then (- 1, buf0)
      else
        let buf1 = (put_byte t buf0)\<lparr>bytes_used := bytes_used buf0 + 1\<rparr>;
            hdr =
              (if len < 0x80 then
                 (if bytes_used buf1 = size_b buf1 then None
                  else Some ((put_byte (ucast len) buf1)
                               \<lparr>bytes_used := bytes_used buf1 + 1\<rparr>))
               else if len < 0xFF then
                 (if size_b buf1 - bytes_used buf1 < 2 then None
                  else Some ((put_byte (ucast len) (put_byte 0x81 buf1))
                               \<lparr>bytes_used := bytes_used buf1 + 2\<rparr>))
               else
                 (if size_b buf1 - bytes_used buf1 < 3 then None
                  else Some ((put_byte (ucast (len AND 0xFF))
                                (put_byte (ucast (drop_bit 8 len)) (put_byte 0x82 buf1)))
                               \<lparr>bytes_used := bytes_used buf1 + 3\<rparr>)))
        in case hdr of
             None \<Rightarrow> (- 1, buf1)
           | Some buf2 \<Rightarrow>
               if bytes_used buf2 - size_b buf2 < len then (- 1, buf2)
               else (0, (put_bytes data len buf2)\<lparr>bytes_used := bytes_used buf2 + len\<rparr>))"

subsection \<open>Macros of card-cardos5.h\<close>

text \<open>
  Modelled from the spec: the header \<^verbatim>\<open>card-cardos5.h\<close> is not under src/. The ARL
  and CRT tag macros take the values the spec gives in its abstract encoding model
  (AM scope \<open>0x80 0x01\<close>, command scope \<open>0x84 0x04\<close>, Always \<open>0x90 0x00\<close>, Never
  \<open>0x97 0x00\<close>, UserAuth \<open>0xA4 0x06\<close> holding \<open>0x83 0x01 pin_ref\<close> and
  \<open>0x95 0x01 KUQ_USER_AUTH\<close>). The backtrack bit is bit \<open>0x80\<close> of a PIN reference,
  and \<^verbatim>\<open>BACKTRACK_MASK\<close> strips it.
\<close>

definition ARL_ACCESS_MODE_BYTE_TAG :: u8 where "ARL_ACCESS_MODE_BYTE_TAG = 0x80"
definition ARL_ACCESS_MODE_BYTE_LEN :: u8 where "ARL_ACCESS_MODE_BYTE_LEN = 0x01"
definition ARL_COMMAND_TAG :: u8 where "ARL_COMMAND_TAG = 0x84"
definition ARL_ALWAYS_TAG :: u8 where "ARL_ALWAYS_TAG = 0x90"
definition ARL_ALWAYS_LEN :: u8 where "ARL_ALWAYS_LEN = 0x00"
definition ARL_NEVER_TAG :: u8 where "ARL_NEVER_TAG = 0x97"
definition ARL_NEVER_LEN :: u8 where "ARL_NEVER_LEN = 0x00"
definition ARL_USER_AUTH_TAG :: u8 where "ARL_USER_AUTH_TAG = 0xA4"
definition ARL_USER_AUTH_LEN :: u8 where "ARL_USER_AUTH_LEN = 0x06"
definition CRT_TAG_PINREF :: u8 where "CRT_TAG_PINREF = 0x83"
definition CRT_LEN_PINREF :: u8 where "CRT_LEN_PINREF = 0x01"
definition CRT_TAG_KUQ :: u8 where "CRT_TAG_KUQ = 0x95"
definition CRT_LEN_KUQ :: u8 where "CRT_LEN_KUQ = 0x01"
definition BACKTRACK_PIN :: "'a::len word" where "BACKTRACK_PIN = 0x80"
definition BACKTRACK_MASK :: "'a::len word" where "BACKTRACK_MASK = 0x7F"

lemmas arl_macros =
  ARL_ACCESS_MODE_BYTE_TAG_def ARL_ACCESS_MODE_BYTE_LEN_def ARL_COMMAND_TAG_def
  ARL_ALWAYS_TAG_def ARL_ALWAYS_LEN_def ARL_NEVER_TAG_def ARL_NEVER_LEN_def
  ARL_USER_AUTH_TAG_def ARL_USER_AUTH_LEN_def CRT_TAG_PINREF_def CRT_LEN_PINREF_def
  CRT_TAG_KUQ_def CRT_LEN_KUQ_def BACKTRACK_PIN_def BACKTRACK_MASK_def

text \<open>
  The macros whose values neither the source nor the spec fixes are parameters:
  every function that uses one takes the header \<open>h\<close>. A theorem holds for every
  header, under the hypotheses on \<open>h\<close> it states.
\<close>

record am_macros =
  AM_EF_DELETE :: u8
  AM_EF_TERMINATE :: u8
  AM_EF_ACTIVATE :: u8
  AM_EF_DEACTIVATE :: u8
  AM_EF_WRITE :: u8
  AM_EF_UPDATE :: u8
  AM_EF_READ :: u8
  AM_EF_INCREASE :: u8
  AM_EF_DECREASE :: u8
  AM_DF_DELETE_SELF :: u8
  AM_DF_TERMINATE :: u8
  AM_DF_ACTIVATE :: u8
  AM_DF_DEACTIVATE :: u8
  AM_DF_CREATE_DF_FILE :: u8
  AM_DF_CREATE_EF_FILE :: u8
  AM_DF_DELETE_CHILD :: u8
  AM_DF_PUT_DATA_OCI :: u8
  AM_DF_PUT_DATA_OCI_UPDATE :: u8
  AM_DF_LOAD_EXECUTABLE :: u8
  AM_DF_PUT_DATA_FCI :: u8

record tag_macros =
  ARL_DUMMY_TAG :: u8
  ARL_DUMMY_LEN :: u8
  KUQ_USER_AUTH :: u8
  KUQ_DECRYPT :: u8
  CRT_TAG_KEYREF :: u8
  FCP_TAG_START :: u8
  FCP_TAG_DESCRIPTOR :: u8
  FCP_TYPE_DF :: u8
  FCP_TYPE_BINARY_EF :: u8
  FCP_TAG_DF_SIZE :: u8
  FCP_TAG_EF_SIZE :: u8
  FCP_TAG_DF_NAME :: u8
  FCP_TAG_EF_SFID :: u8
  FCP_TAG_ARL :: u8
  FCP_TAG_FILEID :: u8
  ISO7816_TAG_FCI :: u8

record cmd_macros =
  CARDOS5_PUT_DATA_INS :: u8
  CARDOS5_PUT_DATA_ECD_P1 :: u8
  CARDOS5_PUT_DATA_ECD_P2 :: u8
  CARDOS5_PHASE_CONTROL_CLA :: u8
  CARDOS5_PHASE_CONTROL_INS :: u8
  CARDOS5_PHASE_CONTROL_P1_TOGGLE :: u8
  CARDOS5_PHASE_CONTROL_P2_TOGGLE :: u8
  CARDOS5_ACCUMULATE_OBJECT_DATA_CLA :: u8
  CARDOS5_ACCUMULATE_OBJECT_DATA_INS :: u8
  CARDOS5_ACCUMULATE_OBJECT_DATA_P1_NEW :: u8
  CARDOS5_ACCUMULATE_OBJECT_DATA_P1_APPEND :: u8
  CARDOS5_CREATE_FILE_INS :: u8
  CARDOS5_SELECT_INS :: u8
  CARDOS5_SELECT_P1_FILE_ID :: u8
  CARDOS5_SELECT_P1_FULL_PATH :: u8
  CARDOS5_SELECT_P2_FCI :: u8
  CARDOS5_SELECT_P2_NO_RESPONSE :: u8
  CARDOS5_MANAGE_SECURITY_ENVIRONMENT_INS :: u8
  CARDOS5_MANAGE_SECURITY_ENVIRONMENT_P1_SET :: u8
  CARDOS5_MANAGE_SECURITY_ENVIRONMENT_P2_DECIPHER :: u8
  CARDOS5_MANAGE_SECURITY_ENVIRONMENT_P2_SIGN :: u8
  CARDOS5_PERFORM_SECURITY_OPERATION_INS :: u8
  CARDOS5_PERFORM_SECURITY_OPERATION_P1_SIGN :: u8
  CARDOS5_PERFORM_SECURITY_OPERATION_P2_SIGN :: u8

record header =
  am :: am_macros
  tag :: tag_macros
  cmd :: cmd_macros
  SC_AC_KEY_REF_NONE :: uint
  SC_ALGORITHM_RSA :: uint
  SC_ALGORITHM_EC :: uint
  SC_MAX_APDU_BUFFER_SIZE :: nat

subsection \<open>The host's data model\<close>

datatype ac_method =
  SC_AC_NONE | SC_AC_NEVER | SC_AC_CHV | SC_AC_TERM | SC_AC_AUT | SC_AC_other uint

datatype ac_op =
    SC_AC_OP_DELETE | SC_AC_OP_REHABILITATE | SC_AC_OP_INVALIDATE | SC_AC_OP_WRITE
  | SC_AC_OP_UPDATE | SC_AC_OP_READ | SC_AC_OP_CREATE | SC_AC_OP_other uint

record sc_acl_entry =
  "method" :: ac_method
  key_ref :: uint

datatype file_type = SC_FILE_TYPE_DF | SC_FILE_TYPE_WORKING_EF | SC_FILE_TYPE_other int

datatype ef_structure_t = SC_FILE_EF_TRANSPARENT | SC_FILE_EF_other int

text \<open>
  \<^verbatim>\<open>sc_file_t\<close>: the fields the driver reads or writes. The ACL is the sequence of
  entries, each keyed by its operation.
\<close>

record sc_file =
  type_f :: file_type
  ef_structure :: ef_structure_t
  size_f :: size_t
  id_f :: int
  name_f :: "u8 list"
  namelen :: size_t
  acl :: "(ac_op \<times> sc_acl_entry) list"
  sec_attr :: "u8 list"

text \<open>
  Modelled from the spec: \<^verbatim>\<open>sc_file_get_acl_entry\<close> and \<^verbatim>\<open>sc_file_add_acl_entry\<close> are
  in the host library, not under src/. The spec's file descriptor holds "a
  sequence of ACL entries keyed by abstract operation": looking an operation up
  gives its first entry, and adding an entry appends it and succeeds.
\<close>

definition sc_file_get_acl_entry :: "sc_file \<Rightarrow> ac_op \<Rightarrow> sc_acl_entry option" where
  "sc_file_get_acl_entry file operation = map_of (acl file) operation"

definition sc_file_add_acl_entry ::
  "sc_file \<Rightarrow> ac_op \<Rightarrow> ac_method \<Rightarrow> uint \<Rightarrow> error + sc_file" where
  "sc_file_add_acl_entry file operation m ref =
     Inr (file\<lparr>acl := acl file @ [(operation, \<lparr>method = m, key_ref = ref\<rparr>)]\<rparr>)"

subsection \<open>The AM-byte tables\<close>

text \<open>
  \<^verbatim>\<open>ef_acl\<close> and \<^verbatim>\<open>df_acl\<close>, lines 31-55: \<open>(am_byte, op_byte)\<close> pairs, where the
  source's \<^verbatim>\<open>-1U\<close> ("no abstract operation") is \<open>None\<close>.
\<close>

type_synonym sc_cardos5_am_byte = "u8 \<times> ac_op option"

definition ef_acl :: "header \<Rightarrow> sc_cardos5_am_byte list" where
  "ef_acl h =
     [(AM_EF_DELETE (am h), Some SC_AC_OP_DELETE),
      (AM_EF_TERMINATE (am h), None),
      (AM_EF_ACTIVATE (am h), Some SC_AC_OP_REHABILITATE),
      (AM_EF_DEACTIVATE (am h), Some SC_AC_OP_INVALIDATE),
      (AM_EF_WRITE (am h), Some SC_AC_OP_WRITE),
      (AM_EF_UPDATE (am h), Some SC_AC_OP_UPDATE),
      (AM_EF_READ (am h), Some SC_AC_OP_READ),
      (AM_EF_INCREASE (am h), None),
      (AM_EF_DECREASE (am h), None)]"

definition df_acl :: "header \<Rightarrow> sc_cardos5_am_byte list" where
  "df_acl h =
     [(AM_DF_DELETE_SELF (am h), Some SC_AC_OP_DELETE),
      (AM_DF_TERMINATE (am h), None),
      (AM_DF_ACTIVATE (am h), Some SC_AC_OP_REHABILITATE),
      (AM_DF_DEACTIVATE (am h), Some SC_AC_OP_INVALIDATE),
      (AM_DF_CREATE_DF_FILE (am h), Some SC_AC_OP_CREATE),
      (AM_DF_CREATE_EF_FILE (am h), Some SC_AC_OP_CREATE),
      (AM_DF_DELETE_CHILD (am h), None),
      (AM_DF_PUT_DATA_OCI (am h), Some SC_AC_OP_CREATE),
      (AM_DF_PUT_DATA_OCI_UPDATE (am h), Some SC_AC_OP_UPDATE),
      (AM_DF_LOAD_EXECUTABLE (am h), None),
      (AM_DF_PUT_DATA_FCI (am h), Some SC_AC_OP_CREATE)]"

subsection \<open>The compact TLV writer\<close>

text \<open>
  Modelled from the spec: \<^verbatim>\<open>sc_asn1_put_tag\<close> is in the host library, not under src/.
  The spec: it "emits \<open>tag || len || content\<close> using 1-byte length (content length
  < 256)" and "fails if capacity exhausted". The result is the bytes stored at the
  output cursor, \<open>None\<close> on failure; \<open>outlen\<close> is the capacity left.
\<close>

definition sc_asn1_put_tag :: "u8 \<Rightarrow> u8 list \<Rightarrow> size_t \<Rightarrow> size_t \<Rightarrow> u8 list option" where
  "sc_asn1_put_tag t data datalen outlen =
     (if datalen < 256 \<and> unat datalen + 2 \<le> unat outlen
      then Some (t # ucast datalen # take (unat datalen) data)
      else None)"

text \<open>
  \<^verbatim>\<open>asn1_put_tag\<close>, lines 106-120: \<open>None\<close> is the return value -1. On success the
  host writer has moved \<^verbatim>\<open>buf->ptr\<close> past the bytes it stored.
\<close>

definition asn1_put_tag :: "u8 \<Rightarrow> u8 list \<Rightarrow> size_t \<Rightarrow> buf_t \<Rightarrow> buf_t option" where
  "asn1_put_tag t tag_content tag_content_len buf =
     (case sc_asn1_put_tag t tag_content tag_content_len (size_b buf - bytes_used buf) of
        Some bs \<Rightarrow>
          Some (buf\<lparr>prev := prev buf @ bs, ptr := drop (length bs) (ptr buf),
                    bytes_used := bytes_used buf + (tag_content_len + 2)\<rparr>)
      | None \<Rightarrow> None)"

definition asn1_put_tag0 :: "u8 \<Rightarrow> buf_t \<Rightarrow> buf_t option" where
  "asn1_put_tag0 t buf = asn1_put_tag t [] 0 buf"

definition asn1_put_tag1 :: "u8 \<Rightarrow> u8 \<Rightarrow> buf_t \<Rightarrow> buf_t option" where
  "asn1_put_tag1 t tag_value buf = asn1_put_tag t [tag_value] 1 buf"

text \<open>The whole array under a buffer, and a fresh array of \<open>n\<close> bytes.\<close>

definition array :: "buf_t \<Rightarrow> u8 list" where
  "array buf = prev buf @ ptr buf"

definition fresh :: "nat \<Rightarrow> u8 list" where
  "fresh n = replicate n 0"

definition UINT8_MAX :: uint where
  "UINT8_MAX = 0xFF"

text \<open>
  \<^verbatim>\<open>add_acl_tag\<close>, lines 136-169. The three cases \<^verbatim>\<open>SC_AC_CHV\<close>, \<^verbatim>\<open>SC_AC_TERM\<close> and
  \<^verbatim>\<open>SC_AC_AUT\<close> share one body, \<open>user_auth\<close> here.
\<close>

definition add_acl_tag :: "header \<Rightarrow> u8 \<Rightarrow> ac_method \<Rightarrow> uint \<Rightarrow> buf_t \<Rightarrow> buf_t option" where
  "add_acl_tag h am_byte ac keyref buf0 =
     (case (if am_byte \<noteq> 0xff
            then asn1_put_tag1 ARL_ACCESS_MODE_BYTE_TAG am_byte buf0
            else Some buf0) of
        None \<Rightarrow> None
      | Some buf \<Rightarrow>
          let user_auth =
                (if keyref AND BACKTRACK_PIN \<noteq> 0 \<or> keyref > UINT8_MAX then None
                 else
                   case asn1_put_tag1 CRT_TAG_PINREF (ucast keyref) (buf_init (fresh 16) 16) of
                     None \<Rightarrow> None
                   | Some crt1 \<Rightarrow>
                       (case asn1_put_tag1 CRT_TAG_KUQ (KUQ_USER_AUTH (tag h)) crt1 of
                          None \<Rightarrow> None
                        | Some crt \<Rightarrow>
                            asn1_put_tag ARL_USER_AUTH_TAG (array crt) (bytes_used crt) buf))
          in case ac of
               SC_AC_NONE \<Rightarrow> asn1_put_tag0 ARL_ALWAYS_TAG buf
             | SC_AC_NEVER \<Rightarrow> asn1_put_tag0 ARL_NEVER_TAG buf
             | SC_AC_CHV \<Rightarrow> user_auth
             | SC_AC_TERM \<Rightarrow> user_auth
             | SC_AC_AUT \<Rightarrow> user_auth
             | SC_AC_other _ \<Rightarrow> None)"


subsection \<open>The ARL decoder\<close>

text \<open>
  The \<^verbatim>\<open>switch (arl[3])\<close> of the decoders, the same text in \<^verbatim>\<open>parse_df_arl\<close> (lines
  340-373) and \<^verbatim>\<open>parse_ef_arl\<close> (lines 410-443): the method \<^verbatim>\<open>ac\<close>, the key reference
  \<^verbatim>\<open>ref\<close> and the number of bytes by which \<^verbatim>\<open>arl\<close> and \<^verbatim>\<open>len\<close> move.
\<close>

definition parse_predicate :: "header \<Rightarrow> u8 list \<Rightarrow> error + (ac_method \<times> uint \<times> nat)" where
  "parse_predicate h arl =
     (if arl ! 3 = ARL_ALWAYS_TAG then
        (if arl ! 4 \<noteq> ARL_ALWAYS_LEN then Inl SC_ERROR_NO_CARD_SUPPORT
         else Inr (SC_AC_NONE, SC_AC_KEY_REF_NONE h, 5))
      else if arl ! 3 = ARL_NEVER_TAG then
        (if arl ! 4 \<noteq> ARL_NEVER_LEN then Inl SC_ERROR_NO_CARD_SUPPORT
         else Inr (SC_AC_NEVER, SC_AC_KEY_REF_NONE h, 5))
      else if arl ! 3 = ARL_USER_AUTH_TAG then
        (if length arl < 11 then Inl SC_ERROR_WRONG_LENGTH
         else if arl ! 4 \<noteq> ARL_USER_AUTH_LEN \<or> arl ! 5 \<noteq> CRT_TAG_PINREF \<or>
                 arl ! 6 \<noteq> CRT_LEN_PINREF then Inl SC_ERROR_NO_CARD_SUPPORT
         else if arl ! 8 \<noteq> CRT_TAG_KUQ \<or> arl ! 9 \<noteq> CRT_LEN_KUQ \<or>
                 arl ! 10 \<noteq> KUQ_USER_AUTH (tag h) then Inl SC_ERROR_NO_CARD_SUPPORT
         else Inr (SC_AC_CHV, ucast (arl ! 7 AND BACKTRACK_MASK), 11))
      else Inl SC_ERROR_NO_CARD_SUPPORT)"

lemma parse_predicate_consumed:
  "parse_predicate h arl = Inr (ac, ref, n) \<Longrightarrow> n = 5 \<or> n = 11"
  by (auto simp: parse_predicate_def split: if_splits)

text \<open>
  The \<^verbatim>\<open>while (len >= 5)\<close> loop of \<^verbatim>\<open>parse_df_arl\<close> with the checks after it (lines
  311-386). \<open>arl\<close> is the \<^verbatim>\<open>len\<close> bytes at \<^verbatim>\<open>arl\<close>; \<^verbatim>\<open>arl += n; len -= n\<close> drops \<open>n\<close> bytes.
  The table search \<^verbatim>\<open>for (i = 0; ...) if (df_acl[i].am_byte == arl[2]) break\<close> is \<open>find\<close>.
\<close>

function parse_df_loop :: "header \<Rightarrow> sc_file \<Rightarrow> u8 list \<Rightarrow> error + sc_file" where
  "parse_df_loop h file arl =
     (if length arl \<ge> 5 then
        (if arl ! 0 = ARL_COMMAND_TAG then
           (if length arl < 8 then Inl SC_ERROR_WRONG_LENGTH
            else if arl ! 6 = ARL_USER_AUTH_TAG then
              (if length arl < unat (arl ! 7) + 8 then Inl SC_ERROR_WRONG_LENGTH
               else parse_df_loop h file (drop (unat (arl ! 7) + 8) arl))
            else parse_df_loop h file (drop 8 arl))
         else if arl ! 0 \<noteq> ARL_ACCESS_MODE_BYTE_TAG \<or> arl ! 1 \<noteq> ARL_ACCESS_MODE_BYTE_LEN
           then Inl SC_ERROR_NO_CARD_SUPPORT
         else
           (case find (\<lambda>e. fst e = arl ! 2) (df_acl h) of
              None \<Rightarrow> Inl SC_ERROR_NO_CARD_SUPPORT
            | Some e \<Rightarrow>
                (case parse_predicate h arl of
                   Inl r \<Rightarrow> Inl r
                 | Inr (ac, ref, n) \<Rightarrow>
                     (case snd e of
                        None \<Rightarrow> parse_df_loop h file (drop n arl)
                      | Some operation \<Rightarrow>
                          (case sc_file_add_acl_entry file operation ac ref of
                             Inl r \<Rightarrow> Inl r
                           | Inr file' \<Rightarrow> parse_df_loop h file' (drop n arl))))))
      else if length arl \<noteq> 0 then Inl SC_ERROR_WRONG_LENGTH
      else Inr file)"
  by pat_completeness auto
termination
  by (relation "measure (\<lambda>(h, file, arl). length arl)")
     (auto dest: parse_predicate_consumed)

declare parse_df_loop.simps [simp del]

text \<open>The first loop of \<^verbatim>\<open>parse_df_arl\<close> (lines 299-307), over the table.\<close>

fun add_all_none ::
  "header \<Rightarrow> sc_file \<Rightarrow> sc_cardos5_am_byte list \<Rightarrow> error + sc_file" where
  "add_all_none h file [] = Inr file"
| "add_all_none h file (e # es) =
     (case snd e of
        None \<Rightarrow> add_all_none h file es
      | Some operation \<Rightarrow>
          (case sc_file_add_acl_entry file operation SC_AC_NONE (SC_AC_KEY_REF_NONE h) of
             Inl r \<Rightarrow> Inl r
           | Inr file' \<Rightarrow> add_all_none h file' es))"

text \<open>\<^verbatim>\<open>parse_df_arl\<close>, lines 283-387.\<close>

definition parse_df_arl :: "header \<Rightarrow> sc_file \<Rightarrow> u8 list \<Rightarrow> error + sc_file" where
  "parse_df_arl h file arl =
     (if length arl = 9 \<and> arl ! 5 = ARL_DUMMY_TAG (tag h) \<and> arl ! 6 = ARL_DUMMY_LEN (tag h) \<and>
         arl ! 7 = ARL_ALWAYS_TAG \<and> arl ! 8 = ARL_ALWAYS_LEN
      then add_all_none h file (df_acl h)
      else parse_df_loop h file arl)"

text \<open>\<^verbatim>\<open>parse_ef_arl\<close>, lines 389-457.\<close>

function parse_ef_arl :: "header \<Rightarrow> sc_file \<Rightarrow> u8 list \<Rightarrow> error + sc_file" where
  "parse_ef_arl h file arl =
     (if length arl \<ge> 5 then
        (if arl ! 0 \<noteq> ARL_ACCESS_MODE_BYTE_TAG \<or> arl ! 1 \<noteq> ARL_ACCESS_MODE_BYTE_LEN
           then Inl SC_ERROR_NO_CARD_SUPPORT
         else
           (case find (\<lambda>e. fst e = arl ! 2) (ef_acl h) of
              None \<Rightarrow> Inl SC_ERROR_NO_CARD_SUPPORT
            | Some e \<Rightarrow>
                (case parse_predicate h arl of
                   Inl r \<Rightarrow> Inl r
                 | Inr (ac, ref, n) \<Rightarrow>
                     (case snd e of
                        None \<Rightarrow> parse_ef_arl h file (drop n arl)
                      | Some operation \<Rightarrow>
                          (case sc_file_add_acl_entry file operation ac ref of
                             Inl r \<Rightarrow> Inl r
                           | Inr file' \<Rightarrow> parse_ef_arl h file' (drop n arl))))))
      else if length arl \<noteq> 0 then Inl SC_ERROR_WRONG_LENGTH
      else Inr file)"
  by pat_completeness auto
termination
  by (relation "measure (\<lambda>(h, file, arl). length arl)")
     (auto dest: parse_predicate_consumed)

declare parse_ef_arl.simps [simp del]

text \<open>\<^verbatim>\<open>parse_arl\<close>, lines 459-471.\<close>

definition parse_arl :: "header \<Rightarrow> sc_file \<Rightarrow> u8 list \<Rightarrow> error + sc_file" where
  "parse_arl h file arl =
     (case type_f file of
        SC_FILE_TYPE_DF \<Rightarrow> parse_df_arl h file arl
      | SC_FILE_TYPE_WORKING_EF \<Rightarrow> parse_ef_arl h file arl
      | SC_FILE_TYPE_other _ \<Rightarrow> Inl SC_ERROR_INVALID_ARGUMENTS)"


subsection \<open>The FCP builder\<close>

text \<open>
  The "Populate ARL" loop of \<^verbatim>\<open>construct_df_fcp\<close> (lines 636-653), over the table; \<open>None\<close>
  is the failing \<^verbatim>\<open>add_acl_tag\<close>, which the caller turns into BUFFER_TOO_SMALL.
\<close>

fun df_populate_arl ::
  "header \<Rightarrow> sc_file \<Rightarrow> sc_cardos5_am_byte list \<Rightarrow> buf_t \<Rightarrow> buf_t option" where
  "df_populate_arl h df [] arl = Some arl"
| "df_populate_arl h df (a # rest) arl =
     (let e = (case snd a of
                 None \<Rightarrow> None
               | Some operation \<Rightarrow> sc_file_get_acl_entry df operation);
          ac = (case e of None \<Rightarrow> SC_AC_NEVER | Some e' \<Rightarrow> method e');
          keyref = (case e of None \<Rightarrow> - 1 | Some e' \<Rightarrow> key_ref e')
      in case add_acl_tag h (fst a) ac keyref arl of
           None \<Rightarrow> None
         | Some arl' \<Rightarrow> df_populate_arl h df rest arl')"

text \<open>
  The loop of \<^verbatim>\<open>construct_ef_fcp\<close> (lines 729-747); it differs from the DF loop in
  \<^verbatim>\<open>keyref = (uint8_t)e->key_ref\<close>.
\<close>

fun ef_populate_arl ::
  "header \<Rightarrow> sc_file \<Rightarrow> sc_cardos5_am_byte list \<Rightarrow> buf_t \<Rightarrow> buf_t option" where
  "ef_populate_arl h ef [] arl = Some arl"
| "ef_populate_arl h ef (a # rest) arl =
     (let e = (case snd a of
                 None \<Rightarrow> None
               | Some operation \<Rightarrow> sc_file_get_acl_entry ef operation);
          ac = (case e of None \<Rightarrow> SC_AC_NEVER | Some e' \<Rightarrow> method e');
          keyref = (case e of None \<Rightarrow> - 1 | Some e' \<Rightarrow> ucast (ucast (key_ref e') :: u8))
      in case add_acl_tag h (fst a) ac keyref arl of
           None \<Rightarrow> None
         | Some arl' \<Rightarrow> ef_populate_arl h ef rest arl')"

text \<open>
  A command-scoped Always entry: \<^verbatim>\<open>asn1_put_tag(ARL_COMMAND_TAG, cmd, sizeof(cmd), &arl) ||
  asn1_put_tag0(ARL_ALWAYS_TAG, &arl)\<close>, three times in \<^verbatim>\<open>construct_df_fcp\<close>.
\<close>

definition put_command_always :: "u8 list \<Rightarrow> buf_t \<Rightarrow> buf_t option" where
  "put_command_always cmd4 arl =
     (case asn1_put_tag ARL_COMMAND_TAG cmd4 4 arl of
        None \<Rightarrow> None
      | Some arl' \<Rightarrow> asn1_put_tag0 ARL_ALWAYS_TAG arl')"

text \<open>
  The part of \<^verbatim>\<open>construct_df_fcp\<close> that fills the local \<^verbatim>\<open>arl_buf[128]\<close>, lines 621-689,
  as a function of its own: the ARL it returns is what line 691 puts under
  \<^verbatim>\<open>FCP_TAG_ARL\<close>. The bytes of an array not yet written are never read; they are
  zero here.
\<close>

definition construct_df_arl :: "header \<Rightarrow> sc_file \<Rightarrow> error + buf_t" where
  "construct_df_arl h df =
     (case (case sc_file_get_acl_entry df SC_AC_OP_UPDATE of
              None \<Rightarrow> Some (buf_init (fresh 128) 128)
            | Some e \<Rightarrow>
                (case asn1_put_tag ARL_COMMAND_TAG
                        [0x00, CARDOS5_PUT_DATA_INS (cmd h), CARDOS5_PUT_DATA_ECD_P1 (cmd h),
                         CARDOS5_PUT_DATA_ECD_P2 (cmd h)] 4 (buf_init (fresh 128) 128) of
                   None \<Rightarrow> None
                 | Some arl \<Rightarrow> add_acl_tag h 0xff (method e) (key_ref e) arl)) of
        None \<Rightarrow> Inl SC_ERROR_BUFFER_TOO_SMALL
      | Some arl1 \<Rightarrow>
          (case df_populate_arl h df (df_acl h) arl1 of
             None \<Rightarrow> Inl SC_ERROR_BUFFER_TOO_SMALL
           | Some arl2 \<Rightarrow>
               (case put_command_always
                       [CARDOS5_PHASE_CONTROL_CLA (cmd h), CARDOS5_PHASE_CONTROL_INS (cmd h),
                        CARDOS5_PHASE_CONTROL_P1_TOGGLE (cmd h),
                        CARDOS5_PHASE_CONTROL_P2_TOGGLE (cmd h)] arl2 of
                  None \<Rightarrow> Inl SC_ERROR_BUFFER_TOO_SMALL
                | Some arl3 \<Rightarrow>
                    (case put_command_always
                            [CARDOS5_ACCUMULATE_OBJECT_DATA_CLA (cmd h),
                             CARDOS5_ACCUMULATE_OBJECT_DATA_INS (cmd h),
                             CARDOS5_ACCUMULATE_OBJECT_DATA_P1_NEW (cmd h), 0x00] arl3 of
                       None \<Rightarrow> Inl SC_ERROR_BUFFER_TOO_SMALL
                     | Some arl4 \<Rightarrow>
                         (case put_command_always
                                 [CARDOS5_ACCUMULATE_OBJECT_DATA_CLA (cmd h),
                                  CARDOS5_ACCUMULATE_OBJECT_DATA_INS (cmd h),
                                  CARDOS5_ACCUMULATE_OBJECT_DATA_P1_APPEND (cmd h), 0x00] arl4 of
                            None \<Rightarrow> Inl SC_ERROR_BUFFER_TOO_SMALL
                          | Some arl5 \<Rightarrow> Inr arl5)))))"

text \<open>\<^verbatim>\<open>construct_df_fcp\<close>, lines 591-697.\<close>

definition construct_df_fcp :: "header \<Rightarrow> sc_file \<Rightarrow> buf_t \<Rightarrow> error + buf_t" where
  "construct_df_fcp h df fcp0 =
     (if size_f df > UINT16_MAX then Inl SC_ERROR_INVALID_ARGUMENTS
      else
        case (case asn1_put_tag1 (FCP_TAG_DESCRIPTOR (tag h)) (FCP_TYPE_DF (tag h)) fcp0 of
                None \<Rightarrow> None
              | Some fcp \<Rightarrow>
                  asn1_put_tag (FCP_TAG_DF_SIZE (tag h))
                    [ucast (drop_bit 8 (size_f df) AND 0xff), ucast (size_f df AND 0xff)] 2 fcp) of
          None \<Rightarrow> Inl SC_ERROR_BUFFER_TOO_SMALL
        | Some fcp1 \<Rightarrow>
            (case (if namelen df \<noteq> 0
                   then asn1_put_tag (FCP_TAG_DF_NAME (tag h)) (name_f df) (namelen df) fcp1
                   else Some fcp1) of
               None \<Rightarrow> Inl SC_ERROR_BUFFER_TOO_SMALL
             | Some fcp2 \<Rightarrow>
                 (case construct_df_arl h df of
                    Inl r \<Rightarrow> Inl r
                  | Inr arl \<Rightarrow>
                      (case asn1_put_tag (FCP_TAG_ARL (tag h)) (array arl) (bytes_used arl) fcp2 of
                         None \<Rightarrow> Inl SC_ERROR_BUFFER_TOO_SMALL
                       | Some fcp3 \<Rightarrow> Inr fcp3))))"

text \<open>The part of \<^verbatim>\<open>construct_ef_fcp\<close> that fills \<^verbatim>\<open>arl_buf[96]\<close>, lines 727-747.\<close>

definition construct_ef_arl :: "header \<Rightarrow> sc_file \<Rightarrow> error + buf_t" where
  "construct_ef_arl h ef =
     (case ef_populate_arl h ef (ef_acl h) (buf_init (fresh 96) 96) of
        None \<Rightarrow> Inl SC_ERROR_BUFFER_TOO_SMALL
      | Some arl \<Rightarrow> Inr arl)"

text \<open>\<^verbatim>\<open>construct_ef_fcp\<close>, lines 699-755.\<close>

definition construct_ef_fcp :: "header \<Rightarrow> sc_file \<Rightarrow> buf_t \<Rightarrow> error + buf_t" where
  "construct_ef_fcp h ef fcp0 =
     (if ef_structure ef \<noteq> SC_FILE_EF_TRANSPARENT then Inl SC_ERROR_NOT_SUPPORTED
      else if size_f ef > UINT16_MAX then Inl SC_ERROR_INVALID_ARGUMENTS
      else
        case (case asn1_put_tag1 (FCP_TAG_DESCRIPTOR (tag h)) (FCP_TYPE_BINARY_EF (tag h)) fcp0 of
                None \<Rightarrow> None
              | Some fcp \<Rightarrow>
                  (case asn1_put_tag (FCP_TAG_EF_SIZE (tag h))
                          [ucast (drop_bit 8 (size_f ef) AND 0xff), ucast (size_f ef AND 0xff)]
                          2 fcp of
                     None \<Rightarrow> None
                   | Some fcp' \<Rightarrow> asn1_put_tag0 (FCP_TAG_EF_SFID (tag h)) fcp')) of
          None \<Rightarrow> Inl SC_ERROR_BUFFER_TOO_SMALL
        | Some fcp1 \<Rightarrow>
            (case construct_ef_arl h ef of
               Inl r \<Rightarrow> Inl r
             | Inr arl \<Rightarrow>
                 (case asn1_put_tag (FCP_TAG_ARL (tag h)) (array arl) (bytes_used arl) fcp1 of
                    None \<Rightarrow> Inl SC_ERROR_BUFFER_TOO_SMALL
                  | Some fcp2 \<Rightarrow> Inr fcp2)))"

text \<open>\<^verbatim>\<open>construct_fcp\<close>, lines 757-803; \<^verbatim>\<open>file->id\<close> is a C \<^verbatim>\<open>int\<close>.\<close>

definition construct_fcp :: "header \<Rightarrow> sc_file \<Rightarrow> buf_t \<Rightarrow> error + buf_t" where
  "construct_fcp h file buf =
     (case (case type_f file of
              SC_FILE_TYPE_DF \<Rightarrow> construct_df_fcp h file (buf_init (fresh 128) 128)
            | SC_FILE_TYPE_WORKING_EF \<Rightarrow> construct_ef_fcp h file (buf_init (fresh 128) 128)
            | SC_FILE_TYPE_other _ \<Rightarrow> Inl SC_ERROR_NOT_SUPPORTED) of
        Inl r \<Rightarrow> Inl r
      | Inr fcp \<Rightarrow>
          if id_f file < 0 \<or> id_f file > 0xFFFF then Inl SC_ERROR_INVALID_ARGUMENTS
          else
            (case asn1_put_tag (FCP_TAG_FILEID (tag h))
                    [of_int (drop_bit 8 (id_f file) AND 0xff), of_int (id_f file AND 0xff)]
                    2 fcp of
               None \<Rightarrow> Inl SC_ERROR_BUFFER_TOO_SMALL
             | Some fcp' \<Rightarrow>
                 (case asn1_put_tag (FCP_TAG_START (tag h)) (array fcp') (bytes_used fcp') buf of
                    None \<Rightarrow> Inl SC_ERROR_BUFFER_TOO_SMALL
                  | Some buf' \<Rightarrow> Inr buf')))"


subsection \<open>The card, the transport and the host collaborators\<close>

datatype card_type = SC_CARD_TYPE_CARDOS_V5_0 | SC_CARD_TYPE_CARDOS_V5_3 | SC_CARD_TYPE_other int

datatype apdu_case =
    SC_APDU_CASE_NONE | SC_APDU_CASE_1 | SC_APDU_CASE_3_SHORT | SC_APDU_CASE_4_SHORT
  | SC_APDU_CASE_4_EXT

text \<open>
  \<^verbatim>\<open>sc_apdu_t\<close> as the driver fills it before the transport runs: \<open>data\<close> is the
  \<open>datalen\<close> bytes at \<^verbatim>\<open>apdu.data\<close>, \<open>resplen\<close> the room at \<^verbatim>\<open>apdu.resp\<close>. What the
  transport stores on return is an \<open>apdu_reply\<close>: the bytes received (the new
  \<^verbatim>\<open>apdu.resplen\<close> is their number) and the status word.
\<close>

record sc_apdu =
  cse :: apdu_case
  cla :: u8
  ins :: u8
  p1 :: u8
  p2 :: u8
  lc :: size_t
  le :: size_t
  data :: "u8 list"
  datalen :: size_t
  resplen :: size_t

record apdu_reply =
  resp :: "u8 list"
  sw1 :: u8
  sw2 :: u8

text \<open>\<^verbatim>\<open>memset(&apdu, 0, sizeof(apdu))\<close>\<close>

definition apdu_zero :: sc_apdu where
  "apdu_zero = \<lparr>cse = SC_APDU_CASE_NONE, cla = 0, ins = 0, p1 = 0, p2 = 0, lc = 0, le = 0,
                data = [], datalen = 0, resplen = 0\<rparr>"

record cardos5_private_data =
  cse_algorithm :: uint

record sc_pin_cmd_data =
  pin_reference :: "32 word"  \<comment> \<open>the bits of the C \<^verbatim>\<open>int\<close>\<close>

text \<open>
  \<^verbatim>\<open>sc_card_t\<close>: the card type, the driver's private data (\<open>None\<close> is the NULL
  \<^verbatim>\<open>drv_data\<close>), and two logs that make the driver's calls outwards visible: the APDUs
  handed to the transport and the requests handed to the ISO-7816 \<^verbatim>\<open>pin_cmd\<close>.
\<close>

record sc_card =
  type_c :: card_type
  drv_data :: "cardos5_private_data option"
  sent :: "sc_apdu list"
  pin_cmds :: "sc_pin_cmd_data list"

text \<open>
  The collaborators outside the driver, as parameters: the APDU transport (its
  answer may depend on every APDU sent before), the status-word check, the
  allocator (\<open>calloc_ok n\<close>: \<^verbatim>\<open>calloc(1, n)\<close> returns memory), \<^verbatim>\<open>sc_file_new\<close>, the
  ISO-7816 \<^verbatim>\<open>process_fci\<close> and \<^verbatim>\<open>pin_cmd\<close>, and \<^verbatim>\<open>sc_asn1_find_tag\<close>. A status is
  \<open>None\<close> for \<^verbatim>\<open>SC_SUCCESS\<close>.
\<close>

record env =
  transport :: "sc_apdu list \<Rightarrow> sc_apdu \<Rightarrow> error + apdu_reply"
  check_sw :: "u8 \<Rightarrow> u8 \<Rightarrow> error option"
  calloc_ok :: "size_t \<Rightarrow> bool"
  file_new :: "sc_file option"
  iso_process_fci :: "sc_file \<Rightarrow> u8 list \<Rightarrow> error option \<times> sc_file"
  asn1_find_tag :: "u8 list \<Rightarrow> uint \<Rightarrow> u8 list option"
  iso_pin_cmd :: "sc_pin_cmd_data \<Rightarrow> error option"

definition sc_transmit_apdu :: "env \<Rightarrow> sc_card \<Rightarrow> sc_apdu \<Rightarrow> sc_card \<times> (error + apdu_reply)" where
  "sc_transmit_apdu v crd apdu = (crd\<lparr>sent := sent crd @ [apdu]\<rparr>, transport v (sent crd) apdu)"

definition sc_check_sw :: "env \<Rightarrow> apdu_reply \<Rightarrow> error option" where
  "sc_check_sw v reply = check_sw v (sw1 reply) (sw2 reply)"

subsection \<open>SELECT FILE and CREATE FILE\<close>

datatype path_type = SC_PATH_TYPE_PATH | SC_PATH_TYPE_other int

text \<open>\<^verbatim>\<open>sc_path_t\<close>: \<open>value_p\<close> is the \<^verbatim>\<open>path->len\<close> bytes of \<^verbatim>\<open>path->value\<close>.\<close>

record sc_path =
  value_p :: "u8 list"
  type_p :: path_type

text \<open>
  \<^verbatim>\<open>cardos5_process_fci\<close>, lines 473-489. \<^verbatim>\<open>sc_file_set_sec_attr\<close> stores the tag's
  content as the file's security attribute.
\<close>

definition cardos5_process_fci :: "env \<Rightarrow> sc_file \<Rightarrow> u8 list \<Rightarrow> error option \<times> sc_file" where
  "cardos5_process_fci v file buf =
     (case iso_process_fci v file buf of
        (Some r, file') \<Rightarrow> (Some r, file')
      | (None, file') \<Rightarrow>
          (case asn1_find_tag v buf 0xAB of
             None \<Rightarrow> (None, file')
           | Some content \<Rightarrow>
               if content \<noteq> [] then (None, file'\<lparr>sec_attr := content\<rparr>) else (None, file')))"

text \<open>
  \<^verbatim>\<open>cardos5_select_file\<close>, lines 491-589, in three parts. \<open>want_file\<close> is
  \<^verbatim>\<open>file_out != NULL\<close>. The first part is the APDU of lines 507-541.
\<close>

definition select_apdu :: "header \<Rightarrow> sc_path \<Rightarrow> bool \<Rightarrow> sc_apdu" where
  "select_apdu h path want_file =
     (let n = of_nat (length (value_p path)) :: size_t;
          apdu1 = apdu_zero\<lparr>ins := CARDOS5_SELECT_INS (cmd h)\<rparr>;
          apdu2 =
            (if length (value_p path) = 2
             then apdu1\<lparr>p1 := CARDOS5_SELECT_P1_FILE_ID (cmd h), lc := n,
                        data := value_p path, datalen := n\<rparr>
             else apdu1\<lparr>p1 := CARDOS5_SELECT_P1_FULL_PATH (cmd h), lc := n - 2,
                        data := drop 2 (value_p path), datalen := n - 2\<rparr>)
      in
        if want_file
        then apdu2\<lparr>p2 := CARDOS5_SELECT_P2_FCI (cmd h),
                   resplen := of_nat (SC_MAX_APDU_BUFFER_SIZE h), le := 256,
                   cse := SC_APDU_CASE_4_SHORT\<rparr>
        else apdu2\<lparr>p2 := CARDOS5_SELECT_P2_NO_RESPONSE (cmd h),
                   cse := SC_APDU_CASE_3_SHORT\<rparr>)"

text \<open>
  The second part, lines 556-588, reads the FCI once the status word is accepted and
  the caller wants a file. The response array \<^verbatim>\<open>buf\<close> was zeroed before the transport
  filled its first bytes. A declared FCI length that reaches past the array would
  make \<^verbatim>\<open>process_fci\<close> read outside it. The result is the file stored to
  \<^verbatim>\<open>*file_out\<close>.
\<close>

definition select_fci :: "env \<Rightarrow> header \<Rightarrow> apdu_reply \<Rightarrow> error + sc_file" where
  "select_fci v h reply =
     (let rbuf = resp reply @ replicate (SC_MAX_APDU_BUFFER_SIZE h - length (resp reply)) 0
      in
        if length (resp reply) < 2 \<or> rbuf ! 0 \<noteq> ISO7816_TAG_FCI (tag h) \<or>
           (rbuf ! 1 \<noteq> 0x81 \<and> rbuf ! 1 \<noteq> 0x82)
        then Inl SC_ERROR_UNKNOWN_DATA_RECEIVED
        else
          case file_new v of
            None \<Rightarrow> Inl SC_ERROR_OUT_OF_MEMORY
          | Some file0 \<Rightarrow>
              let fci_len = (if rbuf ! 1 = 0x81 then unat (rbuf ! 2)
                             else unat (rbuf ! 2) * 256 + unat (rbuf ! 3));
                  fci_off = (if rbuf ! 1 = 0x81 then 3 else 4 :: nat)
              in
                if length rbuf < fci_off + fci_len then Inl OUT_OF_BOUNDS
                else
                  let file1 = snd (cardos5_process_fci v file0
                                     (take fci_len (drop fci_off rbuf)))
                  in parse_arl h file1 (sec_attr file1))"

text \<open>The whole function: the card as the call leaves it, and the status or the file.\<close>

definition cardos5_select_file ::
  "env \<Rightarrow> header \<Rightarrow> sc_card \<Rightarrow> sc_path \<Rightarrow> bool \<Rightarrow> sc_card \<times> (error + sc_file option)" where
  "cardos5_select_file v h crd path want_file =
     (if type_p path \<noteq> SC_PATH_TYPE_PATH \<or> length (value_p path) < 2 \<or>
         value_p path ! 0 \<noteq> 0x3F \<or> value_p path ! 1 \<noteq> 0x00
      then (crd, Inl SC_ERROR_INVALID_ARGUMENTS)
      else
        case sc_transmit_apdu v crd (select_apdu h path want_file) of
          (crd', Inl r) \<Rightarrow> (crd', Inl r)
        | (crd', Inr reply) \<Rightarrow>
            (case sc_check_sw v reply of
               Some r \<Rightarrow> (crd', Inl r)
             | None \<Rightarrow>
                 if \<not> want_file then (crd', Inr None)
                 else
                   (case select_fci v h reply of
                      Inl r \<Rightarrow> (crd', Inl r)
                    | Inr file \<Rightarrow> (crd', Inr (Some file)))))"

text \<open>\<^verbatim>\<open>cardos5_create_file\<close>, lines 805-838; \<open>bufsize\<close> is \<^verbatim>\<open>SC_MAX_APDU_BUFFER_SIZE\<close>.\<close>

definition cardos5_create_file ::
  "env \<Rightarrow> header \<Rightarrow> sc_card \<Rightarrow> sc_file \<Rightarrow> sc_card \<times> error option" where
  "cardos5_create_file v h crd file =
     (case construct_fcp h file
             (buf_init (fresh (SC_MAX_APDU_BUFFER_SIZE h)) (of_nat (SC_MAX_APDU_BUFFER_SIZE h))) of
        Inl r \<Rightarrow> (crd, Some r)
      | Inr fcp \<Rightarrow>
          (case sc_transmit_apdu v crd
                  (apdu_zero\<lparr>cse := SC_APDU_CASE_3_SHORT, ins := CARDOS5_CREATE_FILE_INS (cmd h),
                             lc := bytes_used fcp, datalen := bytes_used fcp,
                             data := take (unat (bytes_used fcp)) (array fcp)\<rparr>) of
             (crd', Inl r) \<Rightarrow> (crd', Some r)
           | (crd', Inr reply) \<Rightarrow> (crd', sc_check_sw v reply)))"


subsection \<open>The security environment\<close>

datatype sec_operation =
  SC_SEC_OPERATION_DECIPHER | SC_SEC_OPERATION_SIGN | SC_SEC_OPERATION_other int

text \<open>\<^verbatim>\<open>sc_security_env_t\<close>: the fields read; \<open>key_ref_0\<close> is \<^verbatim>\<open>env->key_ref[0]\<close>.\<close>

record sc_security_env =
  operation_e :: sec_operation
  algorithm_e :: uint
  key_ref_0 :: u8

text \<open>
  \<^verbatim>\<open>cardos5_set_security_env\<close>, lines 846-904. \<^verbatim>\<open>-1U\<close> is the word \<open>- 1\<close>. The result is
  the card as the call leaves it and the status.
\<close>

definition cardos5_set_security_env ::
  "env \<Rightarrow> header \<Rightarrow> sc_card \<Rightarrow> sc_security_env \<Rightarrow> int \<Rightarrow> sc_card \<times> error option" where
  "cardos5_set_security_env v h crd senv se_num =
     (case drv_data crd of
        None \<Rightarrow> (crd, Some SC_ERROR_INVALID_ARGUMENTS)
      | Some priv \<Rightarrow>
          let crd1 = crd\<lparr>drv_data := Some (priv\<lparr>cse_algorithm := - 1\<rparr>)\<rparr>;
              apdu1 = apdu_zero\<lparr>cse := SC_APDU_CASE_3_SHORT,
                                ins := CARDOS5_MANAGE_SECURITY_ENVIRONMENT_INS (cmd h),
                                p1 := CARDOS5_MANAGE_SECURITY_ENVIRONMENT_P1_SET (cmd h)\<rparr>
          in
            case (case operation_e senv of
                    SC_SEC_OPERATION_DECIPHER \<Rightarrow>
                      Some (apdu1\<lparr>p2 := CARDOS5_MANAGE_SECURITY_ENVIRONMENT_P2_DECIPHER (cmd h)\<rparr>)
                  | SC_SEC_OPERATION_SIGN \<Rightarrow>
                      Some (apdu1\<lparr>p2 := CARDOS5_MANAGE_SECURITY_ENVIRONMENT_P2_SIGN (cmd h)\<rparr>)
                  | SC_SEC_OPERATION_other _ \<Rightarrow> None) of
              None \<Rightarrow> (crd1, Some SC_ERROR_INVALID_ARGUMENTS)
            | Some apdu2 \<Rightarrow>
                (case (case asn1_put_tag1 (CRT_TAG_KEYREF (tag h)) (key_ref_0 senv)
                              (buf_init (fresh 16) 16) of
                         None \<Rightarrow> None
                       | Some buf \<Rightarrow> asn1_put_tag1 CRT_TAG_KUQ (KUQ_DECRYPT (tag h)) buf) of
                   None \<Rightarrow> (crd1, Some SC_ERROR_BUFFER_TOO_SMALL)
                 | Some buf \<Rightarrow>
                     (case sc_transmit_apdu v crd1
                             (apdu2\<lparr>lc := bytes_used buf, datalen := bytes_used buf,
                                     data := take (unat (bytes_used buf)) (array buf)\<rparr>) of
                        (crd2, Inl r) \<Rightarrow> (crd2, Some r)
                      | (crd2, Inr reply) \<Rightarrow>
                          (case sc_check_sw v reply of
                             Some r \<Rightarrow> (crd2, Some r)
                           | None \<Rightarrow>
                               (crd2\<lparr>drv_data :=
                                        Some (priv\<lparr>cse_algorithm := algorithm_e senv\<rparr>)\<rparr>,
                                None)))))"

subsection \<open>The signature post-processor\<close>

text \<open>\<^verbatim>\<open>coordinate_t\<close>; a NULL \<^verbatim>\<open>encoded_ptr\<close> is the empty array.\<close>

record coordinate_t =
  encoded_ptr :: "u8 list"
  encoded_len :: size_t
  raw_len :: size_t

definition INT8_MAX :: size_t where
  "INT8_MAX = 127"

text \<open>\<^verbatim>\<open>buf->ptr += n; buf->bytes_used += n\<close>\<close>

definition advance :: "size_t \<Rightarrow> buf_t \<Rightarrow> buf_t" where
  "advance n buf =
     buf\<lparr>prev := prev buf @ take (unat n) (ptr buf), ptr := drop (unat n) (ptr buf),
         bytes_used := bytes_used buf + n\<rparr>"

text \<open>
  \<^verbatim>\<open>extract_coordinate\<close>, lines 906-951. The call reads \<^verbatim>\<open>signature->ptr[0]\<close> and copies
  \<^verbatim>\<open>raw_len\<close> bytes from \<^verbatim>\<open>signature->ptr\<close>; where the array has fewer bytes left the
  read is outside it. On an error the callers only free what was allocated, so the
  model returns the coordinate and the buffer on success only.
\<close>

definition extract_coordinate ::
  "env \<Rightarrow> sc_card \<Rightarrow> coordinate_t \<Rightarrow> buf_t \<Rightarrow> error + coordinate_t \<times> buf_t" where
  "extract_coordinate v crd c signature =
     (if size_b signature - bytes_used signature < raw_len c \<or> raw_len c \<ge> INT8_MAX
      then Inl SC_ERROR_BUFFER_TOO_SMALL
      else if ptr signature = [] then Inl OUT_OF_BOUNDS
      else
        case (if ptr signature ! 0 AND 0x80 \<noteq> 0 then
                (if \<not> calloc_ok v (raw_len c + 3) then Inl SC_ERROR_OUT_OF_MEMORY
                 else if length (ptr signature) < unat (raw_len c) then Inl OUT_OF_BOUNDS
                 else Inr (c\<lparr>encoded_len := raw_len c + 3,
                             encoded_ptr := [0x02, ucast (raw_len c) + 1, 0x00] @
                                            take (unat (raw_len c)) (ptr signature)\<rparr>))
              else
                (if \<not> calloc_ok v (raw_len c + 2) then Inl SC_ERROR_OUT_OF_MEMORY
                 else if length (ptr signature) < unat (raw_len c) then Inl OUT_OF_BOUNDS
                 else Inr (c\<lparr>encoded_len := raw_len c + 2,
                             encoded_ptr := [0x02, ucast (raw_len c)] @
                                            take (unat (raw_len c)) (ptr signature)\<rparr>))) of
          Inl r \<Rightarrow> Inl r
        | Inr c' \<Rightarrow>
            let signature1 = advance (raw_len c) signature in
              if type_c crd = SC_CARD_TYPE_CARDOS_V5_0 then
                (if size_b signature1 - bytes_used signature1 < 2
                 then Inl SC_ERROR_BUFFER_TOO_SMALL
                 else Inr (c', advance 2 signature1))
              else Inr (c', signature1))"

text \<open>
  \<^verbatim>\<open>get_point\<close>, lines 953-978: the status (\<open>None\<close> is \<^verbatim>\<open>SC_SUCCESS\<close>) and the output
  buffer as the call leaves it.
\<close>

definition get_point ::
  "env \<Rightarrow> coordinate_t \<Rightarrow> coordinate_t \<Rightarrow> buf_t \<Rightarrow> error option \<times> buf_t" where
  "get_point v X Y encoded_sig =
     (let point_len = encoded_len X + encoded_len Y in
        if point_len < encoded_len X \<or> point_len > UINT16_MAX
        then (Some SC_ERROR_INVALID_ARGUMENTS, encoded_sig)
        else if \<not> calloc_ok v point_len then (Some SC_ERROR_OUT_OF_MEMORY, encoded_sig)
        else
          case bertlv_put_tag 0x30
                 (take (unat (encoded_len X)) (encoded_ptr X) @
                  take (unat (encoded_len Y)) (encoded_ptr Y))
                 point_len encoded_sig of
            (r, encoded_sig') \<Rightarrow>
              if r \<noteq> 0 then (Some SC_ERROR_BUFFER_TOO_SMALL, encoded_sig')
              else (None, encoded_sig'))"

text \<open>A \<^verbatim>\<open>size_t\<close> cast to \<^verbatim>\<open>int\<close>.\<close>

definition int_of_size :: "size_t \<Rightarrow> int" where
  "int_of_size n = sint (ucast n :: 32 word)"

text \<open>
  \<^verbatim>\<open>encode_ec_sig\<close>, lines 980-1043. \<open>sig\<close> is the caller's array of \<open>sigbufsiz\<close> bytes;
  the result is the returned \<^verbatim>\<open>int\<close> (an error, or the byte count) and the array as
  the call leaves it.
\<close>

definition encode_ec_sig ::
  "env \<Rightarrow> sc_card \<Rightarrow> u8 list \<Rightarrow> size_t \<Rightarrow> size_t \<Rightarrow> (error + int) \<times> u8 list" where
  "encode_ec_sig v crd sig siglen sigbufsiz =
     (if siglen < 4 \<or> siglen > sigbufsiz \<or> siglen mod 2 \<noteq> 0
      then (Inl SC_ERROR_INVALID_ARGUMENTS, sig)
      else
        case (if type_c crd = SC_CARD_TYPE_CARDOS_V5_0 then Some ((siglen - 4) div 2)
              else if type_c crd = SC_CARD_TYPE_CARDOS_V5_3 then Some (siglen div 2)
              else None) of
          None \<Rightarrow> (Inl SC_ERROR_INVALID_ARGUMENTS, sig)
        | Some coordinate_raw_len \<Rightarrow>
            if \<not> calloc_ok v siglen then (Inl SC_ERROR_OUT_OF_MEMORY, sig)
            else
              let raw_sig = buf_init (take (unat siglen) sig) siglen;
                  zeroed = replicate (unat sigbufsiz) 0;
                  X = \<lparr>encoded_ptr = [], encoded_len = 0, raw_len = coordinate_raw_len\<rparr>;
                  Y = \<lparr>encoded_ptr = [], encoded_len = 0, raw_len = coordinate_raw_len\<rparr>
              in
                case extract_coordinate v crd X raw_sig of
                  Inl r \<Rightarrow> (Inl r, zeroed)
                | Inr (X', raw_sig1) \<Rightarrow>
                    (case extract_coordinate v crd Y raw_sig1 of
                       Inl r \<Rightarrow> (Inl r, zeroed)
                     | Inr (Y', raw_sig2) \<Rightarrow>
                         (case get_point v X' Y' (buf_init zeroed sigbufsiz) of
                            (Some r, encoded_sig) \<Rightarrow> (Inl r, array encoded_sig)
                          | (None, encoded_sig) \<Rightarrow>
                              (Inr (int_of_size (bytes_used encoded_sig)),
                               array encoded_sig))))"

definition INT_MAX :: size_t where
  "INT_MAX = 0x7FFFFFFF"

text \<open>
  \<^verbatim>\<open>cardos5_compute_signature\<close>, lines 1045-1099. \<open>out\<close> is the caller's array of
  \<open>outlen\<close> bytes, into which the transport stores the bytes it receives. The result
  is the card, the returned \<^verbatim>\<open>int\<close> and the array.
\<close>

definition cardos5_compute_signature ::
  "env \<Rightarrow> header \<Rightarrow> sc_card \<Rightarrow> u8 list \<Rightarrow> size_t \<Rightarrow> u8 list \<Rightarrow> size_t \<Rightarrow>
     sc_card \<times> (error + int) \<times> u8 list" where
  "cardos5_compute_signature v h crd dat dlen out outlen =
     (case drv_data crd of
        None \<Rightarrow> (crd, Inl SC_ERROR_INVALID_ARGUMENTS, out)
      | Some priv \<Rightarrow>
          if cse_algorithm priv = - 1 then (crd, Inl SC_ERROR_INVALID_ARGUMENTS, out)
          else if outlen < dlen then (crd, Inl SC_ERROR_BUFFER_TOO_SMALL, out)
          else
            case sc_transmit_apdu v crd
                   (apdu_zero\<lparr>cse := SC_APDU_CASE_4_EXT,
                              ins := CARDOS5_PERFORM_SECURITY_OPERATION_INS (cmd h),
                              p1 := CARDOS5_PERFORM_SECURITY_OPERATION_P1_SIGN (cmd h),
                              p2 := CARDOS5_PERFORM_SECURITY_OPERATION_P2_SIGN (cmd h),
                              data := take (unat dlen) dat, datalen := dlen, lc := dlen,
                              resplen := outlen, le := outlen\<rparr>) of
              (crd', Inl r) \<Rightarrow> (crd', Inl r, out)
            | (crd', Inr reply) \<Rightarrow>
                let out' = resp reply @ drop (length (resp reply)) out;
                    n = of_nat (length (resp reply)) :: size_t
                in
                  case sc_check_sw v reply of
                    Some r \<Rightarrow> (crd', Inl r, out')
                  | None \<Rightarrow>
                      if n > INT_MAX then (crd', Inl SC_ERROR_WRONG_LENGTH, out')
                      else if cse_algorithm priv = SC_ALGORITHM_RSA h
                      then (crd', Inr (int_of_size n), out')
                      else if cse_algorithm priv = SC_ALGORITHM_EC h
                      then (case encode_ec_sig v crd' out' n outlen of
                              (r, out'') \<Rightarrow> (crd', r, out''))
                      else (crd', Inl SC_ERROR_INVALID_ARGUMENTS, out'))"

subsection \<open>PIN commands\<close>

text \<open>
  \<^verbatim>\<open>cardos5_pin_cmd\<close>, lines 1298-1309: the card, the status, and \<^verbatim>\<open>*data\<close> as the call
  leaves it.
\<close>

definition cardos5_pin_cmd ::
  "env \<Rightarrow> sc_card \<Rightarrow> sc_pin_cmd_data \<Rightarrow> sc_card \<times> error option \<times> sc_pin_cmd_data" where
  "cardos5_pin_cmd v crd dat =
     (if pin_reference dat AND BACKTRACK_PIN \<noteq> 0
      then (crd, Some SC_ERROR_INCORRECT_PARAMETERS, dat)
      else
        let dat' = dat\<lparr>pin_reference := pin_reference dat OR BACKTRACK_PIN\<rparr>
        in (crd\<lparr>pin_cmds := pin_cmds crd @ [dat']\<rparr>, iso_pin_cmd v dat', dat'))"


subsection \<open>Sequences of driver calls\<close>

text \<open>
  The operations the driver installs in \<^verbatim>\<open>sc_get_cardos5_driver\<close> (lines 1318-1347) and
  that this theory models, as calls on one card handle; \<open>dispatch\<close> makes one call and
  keeps the status it returns, \<open>run\<close> makes the calls of a list in order.
\<close>

datatype call =
    Set_security_env sc_security_env int
  | Compute_signature "u8 list" size_t "u8 list" size_t
  | Select_file sc_path bool
  | Create_file sc_file
  | Pin_cmd sc_pin_cmd_data

fun dispatch :: "env \<Rightarrow> header \<Rightarrow> sc_card \<Rightarrow> call \<Rightarrow> sc_card \<times> error option" where
  "dispatch v h crd (Set_security_env senv se_num) = cardos5_set_security_env v h crd senv se_num"
| "dispatch v h crd (Compute_signature dat dlen out outlen) =
     (case cardos5_compute_signature v h crd dat dlen out outlen of
        (crd', Inl r, out') \<Rightarrow> (crd', Some r)
      | (crd', Inr n, out') \<Rightarrow> (crd', None))"
| "dispatch v h crd (Select_file path want_file) =
     (case cardos5_select_file v h crd path want_file of
        (crd', Inl r) \<Rightarrow> (crd', Some r)
      | (crd', Inr f) \<Rightarrow> (crd', None))"
| "dispatch v h crd (Create_file f) = cardos5_create_file v h crd f"
| "dispatch v h crd (Pin_cmd dat) =
     (case cardos5_pin_cmd v crd dat of (crd', st, dat') \<Rightarrow> (crd', st))"

fun run :: "env \<Rightarrow> header \<Rightarrow> sc_card \<Rightarrow> call list \<Rightarrow> (call \<times> error option) list" where
  "run v h crd [] = []"
| "run v h crd (c # cs) =
     (case dispatch v h crd c of (crd', st) \<Rightarrow> (c, st) # run v h crd' cs)"

text \<open>A \<^verbatim>\<open>set_security_env\<close> call that returned \<^verbatim>\<open>SC_SUCCESS\<close>.\<close>

fun set_succeeds :: "call \<times> error option \<Rightarrow> bool" where
  "set_succeeds (Set_security_env senv se_num, None) = True"
| "set_succeeds _ = False"

text \<open>If the call is a \<^verbatim>\<open>compute_signature\<close>, it returned INVALID_ARGUMENTS.\<close>

fun sign_refused :: "call \<times> error option \<Rightarrow> bool" where
  "sign_refused (Compute_signature dat dlen out outlen, st) =
     (st = Some SC_ERROR_INVALID_ARGUMENTS)"
| "sign_refused _ = True"

text \<open>No algorithm is stored: there is no private data, or its slot holds \<^verbatim>\<open>-1U\<close>.\<close>

definition unset :: "sc_card \<Rightarrow> bool" where
  "unset crd = (case drv_data crd of None \<Rightarrow> True | Some priv \<Rightarrow> cse_algorithm priv = - 1)"

text \<open>
  The APDU \<^verbatim>\<open>cardos5_set_security_env\<close> builds (lines 863-890): MANAGE SECURITY
  ENVIRONMENT, SET, with P2 by the operation and the two CRTs as data. \<open>set_slot\<close>
  stores an algorithm in the private data, where there is any; \<open>transmitted\<close> is the
  card after one APDU went to the transport.
\<close>

definition mse_apdu :: "header \<Rightarrow> sc_security_env \<Rightarrow> sc_apdu" where
  "mse_apdu h senv =
     apdu_zero\<lparr>cse := SC_APDU_CASE_3_SHORT,
               ins := CARDOS5_MANAGE_SECURITY_ENVIRONMENT_INS (cmd h),
               p1 := CARDOS5_MANAGE_SECURITY_ENVIRONMENT_P1_SET (cmd h),
               p2 := (if operation_e senv = SC_SEC_OPERATION_DECIPHER
                      then CARDOS5_MANAGE_SECURITY_ENVIRONMENT_P2_DECIPHER (cmd h)
                      else CARDOS5_MANAGE_SECURITY_ENVIRONMENT_P2_SIGN (cmd h)),
               lc := 6, datalen := 6,
               data := [CRT_TAG_KEYREF (tag h), 0x01, key_ref_0 senv,
                        CRT_TAG_KUQ, 0x01, KUQ_DECRYPT (tag h)]\<rparr>"

definition set_slot :: "uint \<Rightarrow> sc_card \<Rightarrow> sc_card" where
  "set_slot a crd = crd\<lparr>drv_data := map_option (\<lambda>priv. priv\<lparr>cse_algorithm := a\<rparr>) (drv_data crd)\<rparr>"

definition transmitted :: "sc_apdu \<Rightarrow> sc_card \<Rightarrow> sc_card" where
  "transmitted apdu crd = crd\<lparr>sent := sent crd @ [apdu]\<rparr>"

text \<open>
  What the decoder may store for the payload \<open>arl\<close>: an entry of method CHV whose key
  reference is a byte of the payload with the backtrack bit stripped, or an entry
  of another method with no key reference.
\<close>

definition stored_ok :: "header \<Rightarrow> u8 list \<Rightarrow> ac_op \<times> sc_acl_entry \<Rightarrow> bool" where
  "stored_ok h arl e =
     (if method (snd e) = SC_AC_CHV
      then (\<exists>p \<in> set arl. key_ref (snd e) = ucast (p AND BACKTRACK_MASK)) \<and>
           key_ref (snd e) AND BACKTRACK_PIN = 0
      else key_ref (snd e) = SC_AC_KEY_REF_NONE h)"

subsection \<open>The access rule list as a byte string\<close>

text \<open>
  A cursor buffer is consistent when \<^verbatim>\<open>bytes_used\<close> counts the bytes behind the cursor and
  these fit the capacity; \<open>append_bytes\<close> is a successful write of \<open>bs\<close> at the cursor.
\<close>

definition buf_ok :: "buf_t \<Rightarrow> bool" where
  "buf_ok buf = (bytes_used buf = of_nat (length (prev buf)) \<and> length (prev buf) \<le> unat (size_b buf))"

definition append_bytes :: "u8 list \<Rightarrow> buf_t \<Rightarrow> buf_t" where
  "append_bytes bs buf =
     buf\<lparr>prev := prev buf @ bs, ptr := drop (length bs) (ptr buf),
         bytes_used := bytes_used buf + of_nat (length bs)\<rparr>"

text \<open>
  What one call of \<^verbatim>\<open>add_acl_tag\<close> (lines 136-169) emits: the access-mode scope, omitted
  for the AM byte \<^verbatim>\<open>0xff\<close>, then the predicate of the access condition. An entry is
  \<open>encodable\<close> when \<^verbatim>\<open>add_acl_tag\<close> accepts it (lines 150-153 and the \<^verbatim>\<open>default\<close> branch).
\<close>

definition scope_bytes :: "u8 \<Rightarrow> u8 list" where
  "scope_bytes am_byte =
     (if am_byte \<noteq> 0xff then [ARL_ACCESS_MODE_BYTE_TAG, 0x01, am_byte] else [])"

definition predicate_bytes :: "header \<Rightarrow> ac_method \<Rightarrow> uint \<Rightarrow> u8 list" where
  "predicate_bytes h ac keyref =
     (case ac of
        SC_AC_NONE \<Rightarrow> [ARL_ALWAYS_TAG, 0x00]
      | SC_AC_NEVER \<Rightarrow> [ARL_NEVER_TAG, 0x00]
      | _ \<Rightarrow> [ARL_USER_AUTH_TAG, 0x06, CRT_TAG_PINREF, 0x01, ucast keyref,
              CRT_TAG_KUQ, 0x01, KUQ_USER_AUTH (tag h)])"

definition encodable :: "ac_method \<Rightarrow> uint \<Rightarrow> bool" where
  "encodable ac keyref =
     (case ac of
        SC_AC_NONE \<Rightarrow> True
      | SC_AC_NEVER \<Rightarrow> True
      | SC_AC_other _ \<Rightarrow> False
      | _ \<Rightarrow> keyref AND BACKTRACK_PIN = 0 \<and> keyref \<le> UINT8_MAX)"

text \<open>
  What \<^verbatim>\<open>parse_df_arl\<close> and \<^verbatim>\<open>parse_ef_arl\<close> store for the predicate of an access
  condition: the method, and the PIN reference without the backtrack bit.
\<close>

definition decode :: "header \<Rightarrow> ac_method \<Rightarrow> uint \<Rightarrow> sc_acl_entry" where
  "decode h ac keyref =
     (if ac = SC_AC_NONE then \<lparr>method = SC_AC_NONE, key_ref = SC_AC_KEY_REF_NONE h\<rparr>
      else if ac = SC_AC_NEVER then \<lparr>method = SC_AC_NEVER, key_ref = SC_AC_KEY_REF_NONE h\<rparr>
      else \<lparr>method = SC_AC_CHV, key_ref = ucast ((ucast keyref :: u8) AND BACKTRACK_MASK)\<rparr>)"

text \<open>
  The entry that \<^verbatim>\<open>df_populate_arl\<close> and \<^verbatim>\<open>ef_populate_arl\<close> look up for a row of the
  AM-byte table, the method and key reference they pass on (Never when the row has no
  operation or the file no entry for it), and the bytes of all rows of a table.
\<close>

definition host_entry :: "sc_file \<Rightarrow> sc_cardos5_am_byte \<Rightarrow> sc_acl_entry option" where
  "host_entry f a =
     (case snd a of None \<Rightarrow> None | Some operation \<Rightarrow> sc_file_get_acl_entry f operation)"

definition entry_method :: "sc_acl_entry option \<Rightarrow> ac_method" where
  "entry_method e = (case e of None \<Rightarrow> SC_AC_NEVER | Some e' \<Rightarrow> method e')"

definition entry_keyref :: "sc_acl_entry option \<Rightarrow> uint" where
  "entry_keyref e = (case e of None \<Rightarrow> - 1 | Some e' \<Rightarrow> key_ref e')"

definition am_part :: "header \<Rightarrow> sc_file \<Rightarrow> sc_cardos5_am_byte list \<Rightarrow> u8 list" where
  "am_part h f tbl =
     concat (map (\<lambda>a. scope_bytes (fst a) @
                        predicate_bytes h (entry_method (host_entry f a))
                          (entry_keyref (host_entry f a))) tbl)"

text \<open>The methods \<^verbatim>\<open>add_acl_tag\<close> has a branch for, and the entries a parse of \<open>am_part\<close> adds.\<close>

definition legal_method :: "ac_method \<Rightarrow> bool" where
  "legal_method ac = (case ac of SC_AC_other x \<Rightarrow> False | _ \<Rightarrow> True)"

definition decoded_part ::
  "header \<Rightarrow> sc_file \<Rightarrow> sc_cardos5_am_byte list \<Rightarrow> (ac_op \<times> sc_acl_entry) list" where
  "decoded_part h f tbl =
     concat (map (\<lambda>a. case snd a of
                         None \<Rightarrow> []
                       | Some operation \<Rightarrow>
                           [(operation, decode h (entry_method (host_entry f a))
                                          (entry_keyref (host_entry f a)))]) tbl)"

text \<open>
  The bytes \<^verbatim>\<open>(arl_buf, arl.bytes_used)\<close> that \<^verbatim>\<open>construct_df_fcp\<close> and \<^verbatim>\<open>construct_ef_fcp\<close>
  hand to \<^verbatim>\<open>asn1_put_tag(FCP_TAG_ARL, ...)\<close>; the optional PUT DATA command entry at the
  head of a DF's list (lines 625-640) and the command entries at its end (lines 655-689).
\<close>

definition arl_bytes :: "buf_t \<Rightarrow> u8 list" where
  "arl_bytes arl = take (unat (bytes_used arl)) (array arl)"

definition df_pre :: "header \<Rightarrow> sc_file \<Rightarrow> u8 list" where
  "df_pre h df =
     (case sc_file_get_acl_entry df SC_AC_OP_UPDATE of
        None \<Rightarrow> []
      | Some e \<Rightarrow>
          [ARL_COMMAND_TAG, 0x04, 0x00, CARDOS5_PUT_DATA_INS (cmd h),
           CARDOS5_PUT_DATA_ECD_P1 (cmd h), CARDOS5_PUT_DATA_ECD_P2 (cmd h)] @
          predicate_bytes h (method e) (key_ref e))"

definition df_post :: "header \<Rightarrow> u8 list" where
  "df_post h =
     [ARL_COMMAND_TAG, 0x04, CARDOS5_PHASE_CONTROL_CLA (cmd h), CARDOS5_PHASE_CONTROL_INS (cmd h),
      CARDOS5_PHASE_CONTROL_P1_TOGGLE (cmd h), CARDOS5_PHASE_CONTROL_P2_TOGGLE (cmd h),
      ARL_ALWAYS_TAG, 0x00] @
     [ARL_COMMAND_TAG, 0x04, CARDOS5_ACCUMULATE_OBJECT_DATA_CLA (cmd h),
      CARDOS5_ACCUMULATE_OBJECT_DATA_INS (cmd h), CARDOS5_ACCUMULATE_OBJECT_DATA_P1_NEW (cmd h),
      0x00, ARL_ALWAYS_TAG, 0x00] @
     [ARL_COMMAND_TAG, 0x04, CARDOS5_ACCUMULATE_OBJECT_DATA_CLA (cmd h),
      CARDOS5_ACCUMULATE_OBJECT_DATA_INS (cmd h), CARDOS5_ACCUMULATE_OBJECT_DATA_P1_APPEND (cmd h),
      0x00, ARL_ALWAYS_TAG, 0x00]"

text \<open>
  The AM-byte table and the access rule list that \<^verbatim>\<open>construct_fcp\<close> uses for a file, by
  its type.
\<close>

definition am_table :: "header \<Rightarrow> sc_file \<Rightarrow> sc_cardos5_am_byte list" where
  "am_table h f = (case type_f f of SC_FILE_TYPE_DF \<Rightarrow> df_acl h | _ \<Rightarrow> ef_acl h)"

definition fcp_arl :: "header \<Rightarrow> sc_file \<Rightarrow> error + buf_t" where
  "fcp_arl h f =
     (case type_f f of
        SC_FILE_TYPE_DF \<Rightarrow> construct_df_arl h f
      | SC_FILE_TYPE_WORKING_EF \<Rightarrow> construct_ef_arl h f
      | SC_FILE_TYPE_other _ \<Rightarrow> Inl SC_ERROR_NOT_SUPPORTED)"

text \<open>
  The entry expected back for an operation after encoding and decoding: None and Never
  keep their method and carry \<^verbatim>\<open>SC_AC_KEY_REF_NONE\<close>; every other encodable method comes
  back as CHV with the low seven bits of the key reference; an operation without an entry
  comes back as Never. One entry per row of the table that has an operation, in table
  order.
\<close>

definition round_trip_entry :: "header \<Rightarrow> sc_acl_entry option \<Rightarrow> sc_acl_entry" where
  "round_trip_entry h e =
     (case e of
        None \<Rightarrow> \<lparr>method = SC_AC_NEVER, key_ref = SC_AC_KEY_REF_NONE h\<rparr>
      | Some e' \<Rightarrow>
          (case method e' of
             SC_AC_NONE \<Rightarrow> \<lparr>method = SC_AC_NONE, key_ref = SC_AC_KEY_REF_NONE h\<rparr>
           | SC_AC_NEVER \<Rightarrow> \<lparr>method = SC_AC_NEVER, key_ref = SC_AC_KEY_REF_NONE h\<rparr>
           | _ \<Rightarrow> \<lparr>method = SC_AC_CHV,
                    key_ref = ucast ((ucast (key_ref e') :: u8) AND BACKTRACK_MASK)\<rparr>))"

definition round_trip_acl ::
  "header \<Rightarrow> sc_file \<Rightarrow> sc_cardos5_am_byte list \<Rightarrow> (ac_op \<times> sc_acl_entry) list" where
  "round_trip_acl h f tbl =
     concat (map (\<lambda>a. case snd a of
                         None \<Rightarrow> []
                       | Some operation \<Rightarrow>
                           [(operation, round_trip_entry h (sc_file_get_acl_entry f operation))])
                 tbl)"


subsection \<open>The signature as a byte string\<close>

text \<open>
  The length octets \<^verbatim>\<open>bertlv_put_tag\<close> writes (lines 180-198): one octet below 0x80,
  \<^verbatim>\<open>0x81 ll\<close> below 0xFF, \<^verbatim>\<open>0x82 hh ll\<close> from there on. \<open>SSIZE_MAX\<close> bounds the size
  of any array.
\<close>

definition ber_length :: "size_t \<Rightarrow> u8 list" where
  "ber_length len =
     (if len < 0x80 then [ucast len]
      else if len < 0xFF then [0x81, ucast len]
      else [0x82, ucast (drop_bit 8 len), ucast (len AND 0xFF)])"

definition SSIZE_MAX :: size_t where
  "SSIZE_MAX = 0x7FFFFFFFFFFFFFFF"

text \<open>
  A cursor over a whole array: consistent, and \<^verbatim>\<open>size\<close> is the length of the array.
  \<open>skip k\<close> moves the cursor \<open>k\<close> bytes on, as \<^verbatim>\<open>extract_coordinate\<close> does past a
  coordinate and past its trailer.
\<close>

definition raw_ok :: "buf_t \<Rightarrow> bool" where
  "raw_ok s = (buf_ok s \<and> length (prev s) + length (ptr s) = unat (size_b s))"

definition skip :: "nat \<Rightarrow> buf_t \<Rightarrow> buf_t" where
  "skip k s = s\<lparr>prev := prev s @ take k (ptr s), ptr := drop k (ptr s),
                bytes_used := bytes_used s + of_nat k\<rparr>"

text \<open>
  The padding \<^verbatim>\<open>extract_coordinate\<close> chooses from the byte at the cursor (line 913), and
  the INTEGER it then builds for the \<open>n\<close> bytes at the cursor.
\<close>

definition sign_pad :: "u8 list \<Rightarrow> u8 list" where
  "sign_pad bs = (if hd bs AND 0x80 \<noteq> 0 then [0x00] else [])"

definition der_integer :: "nat \<Rightarrow> u8 list \<Rightarrow> u8 list" where
  "der_integer n bs = [0x02, of_nat (length (sign_pad bs) + n)] @ sign_pad bs @ take n bs"

text \<open>
  The trailer after each coordinate (lines 940-945), and the SEQUENCE \<^verbatim>\<open>encode_ec_sig\<close>
  builds from the raw bytes \<open>bs\<close> with coordinates of \<open>n\<close> bytes.
\<close>

definition trailer_len :: "card_type \<Rightarrow> nat" where
  "trailer_len t = (if t = SC_CARD_TYPE_CARDOS_V5_0 then 2 else 0)"

definition ec_der :: "card_type \<Rightarrow> nat \<Rightarrow> u8 list \<Rightarrow> u8 list" where
  "ec_der t n bs =
     0x30 #
     ber_length (of_nat (length (der_integer n bs)) +
                 of_nat (length (der_integer n (drop (n + trailer_len t) bs)))) @
     der_integer n bs @ der_integer n (drop (n + trailer_len t) bs)"

text \<open>
  An ASN.1 INTEGER with contents \<open>pad @ C\<close>, and a SEQUENCE around \<open>body\<close> with the length
  octets of \<^verbatim>\<open>bertlv_put_tag\<close>.
\<close>

definition integer_tlv :: "u8 list \<Rightarrow> u8 list \<Rightarrow> u8 list" where
  "integer_tlv pad C = [0x02, of_nat (length pad + length C)] @ pad @ C"

definition sequence_tlv :: "u8 list \<Rightarrow> u8 list" where
  "sequence_tlv body = 0x30 # ber_length (of_nat (length body)) @ body"


subsection \<open>Concrete inputs\<close>

text \<open>
  A header and collaborators to evaluate the model on. The header takes ISO 7816-4's
  values where it has them and distinct bytes elsewhere; the example transport
  answers every APDU with an empty response and the status word \<open>90 00\<close>.
\<close>

definition example_header :: header where
  "example_header =
     \<lparr>am = \<lparr>AM_EF_DELETE = 0x40, AM_EF_TERMINATE = 0x20, AM_EF_ACTIVATE = 0x10,
            AM_EF_DEACTIVATE = 0x08, AM_EF_WRITE = 0x04, AM_EF_UPDATE = 0x02,
            AM_EF_READ = 0x01, AM_EF_INCREASE = 0x32, AM_EF_DECREASE = 0x30,
            AM_DF_DELETE_SELF = 0x40, AM_DF_TERMINATE = 0x20, AM_DF_ACTIVATE = 0x10,
            AM_DF_DEACTIVATE = 0x08, AM_DF_CREATE_DF_FILE = 0x04,
            AM_DF_CREATE_EF_FILE = 0x02, AM_DF_DELETE_CHILD = 0x01,
            AM_DF_PUT_DATA_OCI = 0x81, AM_DF_PUT_DATA_OCI_UPDATE = 0x82,
            AM_DF_LOAD_EXECUTABLE = 0x84, AM_DF_PUT_DATA_FCI = 0x88\<rparr>,
      tag = \<lparr>ARL_DUMMY_TAG = 0x81, ARL_DUMMY_LEN = 0x00, KUQ_USER_AUTH = 0x08,
             KUQ_DECRYPT = 0x40, CRT_TAG_KEYREF = 0x84, FCP_TAG_START = 0x62,
             FCP_TAG_DESCRIPTOR = 0x82, FCP_TYPE_DF = 0x38, FCP_TYPE_BINARY_EF = 0x01,
             FCP_TAG_DF_SIZE = 0x81, FCP_TAG_EF_SIZE = 0x81, FCP_TAG_DF_NAME = 0x84,
             FCP_TAG_EF_SFID = 0x88, FCP_TAG_ARL = 0xAB, FCP_TAG_FILEID = 0x83,
             ISO7816_TAG_FCI = 0x6F\<rparr>,
      cmd = \<lparr>CARDOS5_PUT_DATA_INS = 0xDA, CARDOS5_PUT_DATA_ECD_P1 = 0x01,
             CARDOS5_PUT_DATA_ECD_P2 = 0x6E, CARDOS5_PHASE_CONTROL_CLA = 0x80,
             CARDOS5_PHASE_CONTROL_INS = 0x10, CARDOS5_PHASE_CONTROL_P1_TOGGLE = 0x00,
             CARDOS5_PHASE_CONTROL_P2_TOGGLE = 0x00,
             CARDOS5_ACCUMULATE_OBJECT_DATA_CLA = 0x80,
             CARDOS5_ACCUMULATE_OBJECT_DATA_INS = 0xE6,
             CARDOS5_ACCUMULATE_OBJECT_DATA_P1_NEW = 0x01,
             CARDOS5_ACCUMULATE_OBJECT_DATA_P1_APPEND = 0x00,
             CARDOS5_CREATE_FILE_INS = 0xE0, CARDOS5_SELECT_INS = 0xA4,
             CARDOS5_SELECT_P1_FILE_ID = 0x00, CARDOS5_SELECT_P1_FULL_PATH = 0x08,
             CARDOS5_SELECT_P2_FCI = 0x00, CARDOS5_SELECT_P2_NO_RESPONSE = 0x0C,
             CARDOS5_MANAGE_SECURITY_ENVIRONMENT_INS = 0x22,
             CARDOS5_MANAGE_SECURITY_ENVIRONMENT_P1_SET = 0x41,
             CARDOS5_MANAGE_SECURITY_ENVIRONMENT_P2_DECIPHER = 0xB8,
             CARDOS5_MANAGE_SECURITY_ENVIRONMENT_P2_SIGN = 0xB6,
             CARDOS5_PERFORM_SECURITY_OPERATION_INS = 0x2A,
             CARDOS5_PERFORM_SECURITY_OPERATION_P1_SIGN = 0x9E,
             CARDOS5_PERFORM_SECURITY_OPERATION_P2_SIGN = 0x9A\<rparr>,
      SC_AC_KEY_REF_NONE = 0xFFFFFFFF, SC_ALGORITHM_RSA = 0, SC_ALGORITHM_EC = 2,
      SC_MAX_APDU_BUFFER_SIZE = 261\<rparr>"

definition example_file :: sc_file where
  "example_file =
     \<lparr>type_f = SC_FILE_TYPE_WORKING_EF, ef_structure = SC_FILE_EF_TRANSPARENT, size_f = 256,
      id_f = 0x5031, name_f = [], namelen = 0, acl = [], sec_attr = []\<rparr>"

definition example_env :: env where
  "example_env =
     \<lparr>transport = (\<lambda>hist apdu. Inr \<lparr>resp = [], sw1 = 0x90, sw2 = 0x00\<rparr>),
      check_sw = (\<lambda>a b. if a = 0x90 \<and> b = 0x00 then None else Some (SC_ERROR_OTHER (- 1200))),
      calloc_ok = (\<lambda>n. True),
      file_new = Some (example_file\<lparr>type_f := SC_FILE_TYPE_other 0\<rparr>),
      iso_process_fci = (\<lambda>f buf. (None, f)),
      asn1_find_tag = (\<lambda>buf t. None),
      iso_pin_cmd = (\<lambda>dat. None)\<rparr>"

definition example_card :: sc_card where
  "example_card =
     \<lparr>type_c = SC_CARD_TYPE_CARDOS_V5_3, drv_data = Some \<lparr>cse_algorithm = 0\<rparr>,
      sent = [], pin_cmds = []\<rparr>"

text \<open>
  A transport that fails on the first APDU of a session and answers 90 00 afterwards, a
  card that answers 6A 88 to everything, and the APDU that sets the environment for
  signing with key 1.
\<close>

definition flaky_env :: env where
  "flaky_env =
     example_env\<lparr>transport :=
       (\<lambda>hist apdu. if hist = [] then Inl (SC_ERROR_OTHER (- 1100))
                     else Inr \<lparr>resp = [], sw1 = 0x90, sw2 = 0x00\<rparr>)\<rparr>"

definition refusing_env :: env where
  "refusing_env =
     example_env\<lparr>transport := (\<lambda>hist apdu. Inr \<lparr>resp = [], sw1 = 0x6A, sw2 = 0x88\<rparr>)\<rparr>"

definition example_mse :: sc_apdu where
  "example_mse =
     \<lparr>cse = SC_APDU_CASE_3_SHORT, cla = 0, ins = 0x22, p1 = 0x41, p2 = 0xB6, lc = 6, le = 0,
      data = [0x84, 0x01, 0x01, 0x95, 0x01, 0x40], datalen = 6, resplen = 0\<rparr>"

text \<open>A DF whose creation needs PIN 1, and an EF readable after terminal authentication.\<close>

definition example_df :: sc_file where
  "example_df =
     \<lparr>type_f = SC_FILE_TYPE_DF, ef_structure = SC_FILE_EF_TRANSPARENT, size_f = 0,
      id_f = 0x5015, name_f = [], namelen = 0,
      acl = [(SC_AC_OP_CREATE, \<lparr>method = SC_AC_CHV, key_ref = 0x01\<rparr>)], sec_attr = []\<rparr>"

definition term_file :: sc_file where
  "term_file = example_file\<lparr>acl := [(SC_AC_OP_READ, \<lparr>method = SC_AC_TERM, key_ref = 0x01\<rparr>)]\<rparr>"


section \<open>Properties\<close>

subsection \<open>The BER-TLV writer\<close>

text \<open>
  C2. The claim: \<^verbatim>\<open>bertlv_put_tag\<close> fails, writing nothing past the capacity, whenever
  the tag, the length octets or the payload would exceed the remaining capacity
  \<^verbatim>\<open>size - bytes_used\<close>. The code does not: on an empty four-byte buffer and a ten-byte
  payload the two header bytes fit, the guard computes \<open>2 - 4\<close> on unsigned words,
  which is far above ten, and the call returns 0 after storing twelve bytes through
  the cursor of the four-byte array.
\<close>

theorem bertlv_put_tag_overflows:
  "bertlv_put_tag 0x30 [1, 2, 3, 4, 5, 6, 7, 8, 9, 10] 10 (buf_init [0, 0, 0, 0] 4) =
     (0, \<lparr>prev = [0x30, 0x0A, 1, 2, 3, 4, 5, 6, 7, 8, 9, 10], ptr = [],
          size_b = 4, bytes_used = 12\<rparr>)"
  by (simp add: bertlv_put_tag_def buf_init_def put_byte_def put_bytes_def UINT16_MAX_def)

subsection \<open>PIN references\<close>

lemma mask_strips_bit: "(ucast ((x::8 word) AND mask k) :: 32 word) AND 2 ^ k = 0"
  by (rule bit_eqI) (auto simp: bit_simps)

lemma backtrack_stripped: "(ucast ((x::u8) AND BACKTRACK_MASK) :: uint) AND BACKTRACK_PIN = 0"
  using mask_strips_bit [of x 7]
  by (simp add: mask_eq_exp_minus_1 BACKTRACK_MASK_def BACKTRACK_PIN_def)

lemma parse_predicate_ref:
  "parse_predicate h arl = Inr (ac, ref, n) \<Longrightarrow> 5 \<le> length arl \<Longrightarrow>
     stored_ok h arl (operation, \<lparr>method = ac, key_ref = ref\<rparr>)"
  by (auto simp: parse_predicate_def stored_ok_def backtrack_stripped split: if_splits)

lemma stored_ok_drop: "stored_ok h (drop n arl) e \<Longrightarrow> stored_ok h arl e"
  by (auto simp: stored_ok_def dest: in_set_dropD split: if_splits)

lemma stored_ok_drop_all:
  "list_all (stored_ok h (drop n arl)) es \<Longrightarrow> list_all (stored_ok h arl) es"
  by (induction es) (auto intro: stored_ok_drop)

lemma add_acl:
  "sc_file_add_acl_entry f operation m r = Inr f' \<Longrightarrow>
     acl f' = acl f @ [(operation, \<lparr>method = m, key_ref = r\<rparr>)]"
  by (auto simp: sc_file_add_acl_entry_def)

lemma parse_df_loop_acl:
  "parse_df_loop h file arl = Inr file' \<Longrightarrow>
     \<exists>added. acl file' = acl file @ added \<and> list_all (stored_ok h arl) added"
proof (induction "length arl" arbitrary: "file" arl rule: less_induct)
  case less
  have IH: "\<And>n g. parse_df_loop h g (drop n arl) = Inr file' \<Longrightarrow> 0 < n \<Longrightarrow> 0 < length arl \<Longrightarrow>
     \<exists>added. acl file' = acl g @ added \<and> list_all (stored_ok h arl) added"
    using less.hyps stored_ok_drop_all
    by (metis diff_less length_drop length_greater_0_conv)
  show ?case
    using less.prems
    apply (simp only: parse_df_loop.simps [of h "file" arl])
    apply (simp split: if_splits option.splits sum.splits prod.splits)
       apply (drule IH; force)
      apply (drule IH; force)
     apply (drule IH; force dest: parse_predicate_consumed)
    apply (frule parse_predicate_ref, simp)
    apply (frule parse_predicate_consumed)
    apply (drule add_acl)
    apply (drule IH)
      apply force
     apply force
    apply auto
    done
qed

lemma parse_ef_arl_acl:
  "parse_ef_arl h file arl = Inr file' \<Longrightarrow>
     \<exists>added. acl file' = acl file @ added \<and> list_all (stored_ok h arl) added"
proof (induction "length arl" arbitrary: "file" arl rule: less_induct)
  case less
  have IH: "\<And>n g. parse_ef_arl h g (drop n arl) = Inr file' \<Longrightarrow> 0 < n \<Longrightarrow> 0 < length arl \<Longrightarrow>
     \<exists>added. acl file' = acl g @ added \<and> list_all (stored_ok h arl) added"
    using less.hyps stored_ok_drop_all
    by (metis diff_less length_drop length_greater_0_conv)
  show ?case
    using less.prems
    apply (simp only: parse_ef_arl.simps [of h "file" arl])
    apply (simp split: if_splits option.splits sum.splits prod.splits)
     apply (drule IH; force dest: parse_predicate_consumed)
    apply (frule parse_predicate_ref, simp)
    apply (frule parse_predicate_consumed)
    apply (drule add_acl)
    apply (drule IH)
      apply force
     apply force
    apply auto
    done
qed

lemma add_all_none_acl:
  "add_all_none h file tbl = Inr file' \<Longrightarrow>
     \<exists>added. acl file' = acl file @ added \<and> list_all (stored_ok h arl) added"
proof (induction tbl arbitrary: "file")
  case Nil
  then show ?case by simp
next
  case (Cons e es)
  show ?case
  proof (cases "snd e")
    case None
    with Cons show ?thesis by simp
  next
    case (Some operation)
    with Cons.prems obtain g where
      g: "sc_file_add_acl_entry file operation SC_AC_NONE (SC_AC_KEY_REF_NONE h) = Inr g"
      and r: "add_all_none h g es = Inr file'"
      by (auto split: sum.splits)
    from Cons.IH [OF r] obtain added where
      "acl file' = acl g @ added" "list_all (stored_ok h arl) added" by blast
    moreover have "stored_ok h arl
        (operation, \<lparr>method = SC_AC_NONE, key_ref = SC_AC_KEY_REF_NONE h\<rparr>)"
      by (simp add: stored_ok_def)
    ultimately show ?thesis
      using add_acl [OF g] by auto
  qed
qed

lemma parse_arl_acl:
  "parse_arl h file arl = Inr file' \<Longrightarrow>
     \<exists>added. acl file' = acl file @ added \<and> list_all (stored_ok h arl) added"
  by (auto simp: parse_arl_def parse_df_arl_def
      split: file_type.splits if_splits
      dest: parse_df_loop_acl parse_ef_arl_acl add_all_none_acl)

text \<open>
  C6. \<^verbatim>\<open>pin_cmd\<close> refuses a PIN reference that has the backtrack bit \<open>0x80\<close> set, with
  INCORRECT_PARAMETERS, and hands nothing to the ISO-7816 \<^verbatim>\<open>pin_cmd\<close> (the card and the
  request are as they were). Otherwise the one request it hands over carries the
  caller's reference with the backtrack bit set, and the status is the ISO-7816
  one. Every entry the ARL decoder adds to a file either has method CHV and the
  key reference \<^verbatim>\<open>pin_ref & BACKTRACK_MASK\<close> for a byte \<^verbatim>\<open>pin_ref\<close> of the payload, with
  the backtrack bit clear, or has another method and no key reference.
\<close>

theorem pin_reference_backtrack:
  "(pin_reference dat AND BACKTRACK_PIN \<noteq> 0 \<longrightarrow>
      cardos5_pin_cmd v crd dat = (crd, Some SC_ERROR_INCORRECT_PARAMETERS, dat)) \<and>
   (pin_reference dat AND BACKTRACK_PIN = 0 \<longrightarrow>
      (\<exists>dat'. cardos5_pin_cmd v crd dat =
                (crd\<lparr>pin_cmds := pin_cmds crd @ [dat']\<rparr>, iso_pin_cmd v dat', dat') \<and>
              pin_reference dat' = pin_reference dat OR BACKTRACK_PIN \<and>
              pin_reference dat' AND BACKTRACK_PIN = BACKTRACK_PIN)) \<and>
   (parse_arl h file arl = Inr file' \<longrightarrow>
      (\<exists>added. acl file' = acl file @ added \<and> list_all (stored_ok h arl) added))"
  by (auto simp: cardos5_pin_cmd_def Let_def BACKTRACK_PIN_def word_ao_absorbs
      dest: parse_arl_acl)

theorem pin_reference_backtrack_witness:
  "cardos5_pin_cmd example_env example_card \<lparr>pin_reference = 0x81\<rparr> =
     (example_card, Some SC_ERROR_INCORRECT_PARAMETERS, \<lparr>pin_reference = 0x81\<rparr>) \<and>
   cardos5_pin_cmd example_env example_card \<lparr>pin_reference = 0x01\<rparr> =
     (example_card\<lparr>pin_cmds := [\<lparr>pin_reference = 0x81\<rparr>]\<rparr>, None, \<lparr>pin_reference = 0x81\<rparr>) \<and>
   parse_arl example_header example_file
       [0x80, 0x01, 0x01, 0xA4, 0x06, 0x83, 0x01, 0x85, 0x95, 0x01, 0x08] =
     Inr (example_file\<lparr>acl := [(SC_AC_OP_READ, \<lparr>method = SC_AC_CHV, key_ref = 0x05\<rparr>)]\<rparr>) \<and>
   list_all (stored_ok example_header
       [0x80, 0x01, 0x01, 0xA4, 0x06, 0x83, 0x01, 0x85, 0x95, 0x01, 0x08])
     [(SC_AC_OP_READ, \<lparr>method = SC_AC_CHV, key_ref = 0x05\<rparr>)]"
proof -
  let ?arl = "[0x80, 0x01, 0x01, 0xA4, 0x06, 0x83, 0x01, 0x85, 0x95, 0x01, 0x08] :: u8 list"
  have p: "parse_arl example_header example_file ?arl =
     Inr (example_file\<lparr>acl := [(SC_AC_OP_READ, \<lparr>method = SC_AC_CHV, key_ref = 0x05\<rparr>)]\<rparr>)"
    by (simp add: parse_arl_def example_file_def parse_ef_arl.simps parse_predicate_def
        ef_acl_def example_header_def arl_macros sc_file_add_acl_entry_def)
  have a: "pin_reference \<lparr>pin_reference = 0x81\<rparr> AND (BACKTRACK_PIN :: 32 word) \<noteq> 0"
    by (simp add: BACKTRACK_PIN_def)
  have b: "pin_reference \<lparr>pin_reference = 0x01\<rparr> AND (BACKTRACK_PIN :: 32 word) = 0"
    by (simp add: BACKTRACK_PIN_def)
  from pin_reference_backtrack [of "\<lparr>pin_reference = 0x81\<rparr>" example_env example_card
      example_header example_file ?arl
      "example_file\<lparr>acl := [(SC_AC_OP_READ, \<lparr>method = SC_AC_CHV, key_ref = 0x05\<rparr>)]\<rparr>"]
    pin_reference_backtrack [of "\<lparr>pin_reference = 0x01\<rparr>" example_env example_card
      example_header example_file ?arl
      "example_file\<lparr>acl := [(SC_AC_OP_READ, \<lparr>method = SC_AC_CHV, key_ref = 0x05\<rparr>)]\<rparr>"]
    a b p
  show ?thesis
    by (simp add: example_file_def example_env_def example_card_def BACKTRACK_PIN_def
        BACKTRACK_MASK_def cardos5_pin_cmd_def Let_def stored_ok_def)
qed


subsection \<open>SELECT FILE\<close>

text \<open>
  C7. \<^verbatim>\<open>select_file\<close> rejects every path that is not of type PATH with at least two
  bytes, the first two being \<open>3F 00\<close>, with INVALID_ARGUMENTS and sends nothing. For
  an accepted path it sends one SELECT APDU: for length 2 with P1 = FILE_ID and
  data \<open>3F 00\<close>, for a longer path with P1 = FULL_PATH and the path without its first
  two bytes; P2 asks for the FCI (case 4 short, Le = 256) when the caller wants a
  file and for no response (case 3 short) when not.
\<close>

theorem select_file_apdu:
  "(\<not> (type_p path = SC_PATH_TYPE_PATH \<and> 2 \<le> length (value_p path) \<and>
        value_p path ! 0 = 0x3F \<and> value_p path ! 1 = 0x00) \<longrightarrow>
      cardos5_select_file v h crd path want_file = (crd, Inl SC_ERROR_INVALID_ARGUMENTS)) \<and>
   (type_p path = SC_PATH_TYPE_PATH \<and> 2 \<le> length (value_p path) \<and>
    value_p path ! 0 = 0x3F \<and> value_p path ! 1 = 0x00 \<longrightarrow>
      (\<exists>apdu. sent (fst (cardos5_select_file v h crd path want_file)) = sent crd @ [apdu] \<and>
         ins apdu = CARDOS5_SELECT_INS (cmd h) \<and>
         (length (value_p path) = 2 \<longrightarrow>
            p1 apdu = CARDOS5_SELECT_P1_FILE_ID (cmd h) \<and> data apdu = [0x3F, 0x00] \<and>
            datalen apdu = 2 \<and> lc apdu = 2) \<and>
         (length (value_p path) > 2 \<longrightarrow>
            p1 apdu = CARDOS5_SELECT_P1_FULL_PATH (cmd h) \<and> data apdu = drop 2 (value_p path) \<and>
            datalen apdu = of_nat (length (value_p path)) - 2 \<and> lc apdu = datalen apdu) \<and>
         (want_file \<longrightarrow> p2 apdu = CARDOS5_SELECT_P2_FCI (cmd h) \<and>
            cse apdu = SC_APDU_CASE_4_SHORT \<and> le apdu = 256) \<and>
         (\<not> want_file \<longrightarrow> p2 apdu = CARDOS5_SELECT_P2_NO_RESPONSE (cmd h) \<and>
            cse apdu = SC_APDU_CASE_3_SHORT)))"
proof (intro conjI impI)
  assume "\<not> (type_p path = SC_PATH_TYPE_PATH \<and> 2 \<le> length (value_p path) \<and>
        value_p path ! 0 = 0x3F \<and> value_p path ! 1 = 0x00)"
  then show "cardos5_select_file v h crd path want_file = (crd, Inl SC_ERROR_INVALID_ARGUMENTS)"
    by (auto simp: cardos5_select_file_def)
next
  assume ok: "type_p path = SC_PATH_TYPE_PATH \<and> 2 \<le> length (value_p path) \<and>
    value_p path ! 0 = 0x3F \<and> value_p path ! 1 = 0x00"
  let ?a = "select_apdu h path want_file"
  have s: "sent (fst (cardos5_select_file v h crd path want_file)) = sent crd @ [?a]"
    using ok by (simp add: cardos5_select_file_def sc_transmit_apdu_def
        split: option.splits sum.splits prod.splits)
  have two: "value_p path = [0x3F, 0x00]" if "length (value_p path) = 2"
  proof -
    from that obtain a b where ab: "value_p path = [a, b]"
      by (cases "value_p path"; cases "tl (value_p path)") auto
    with ok show ?thesis by simp
  qed
  show "\<exists>apdu. sent (fst (cardos5_select_file v h crd path want_file)) = sent crd @ [apdu] \<and>
         ins apdu = CARDOS5_SELECT_INS (cmd h) \<and>
         (length (value_p path) = 2 \<longrightarrow>
            p1 apdu = CARDOS5_SELECT_P1_FILE_ID (cmd h) \<and> data apdu = [0x3F, 0x00] \<and>
            datalen apdu = 2 \<and> lc apdu = 2) \<and>
         (length (value_p path) > 2 \<longrightarrow>
            p1 apdu = CARDOS5_SELECT_P1_FULL_PATH (cmd h) \<and> data apdu = drop 2 (value_p path) \<and>
            datalen apdu = of_nat (length (value_p path)) - 2 \<and> lc apdu = datalen apdu) \<and>
         (want_file \<longrightarrow> p2 apdu = CARDOS5_SELECT_P2_FCI (cmd h) \<and>
            cse apdu = SC_APDU_CASE_4_SHORT \<and> le apdu = 256) \<and>
         (\<not> want_file \<longrightarrow> p2 apdu = CARDOS5_SELECT_P2_NO_RESPONSE (cmd h) \<and>
            cse apdu = SC_APDU_CASE_3_SHORT)"
    by (rule exI [of _ ?a]) (use s two in \<open>simp add: select_apdu_def Let_def apdu_zero_def\<close>)
qed


theorem select_file_apdu_witness:
  "cardos5_select_file example_env example_header example_card
       \<lparr>value_p = [0x50, 0x15], type_p = SC_PATH_TYPE_PATH\<rparr> True =
     (example_card, Inl SC_ERROR_INVALID_ARGUMENTS) \<and>
   map (\<lambda>a. (ins a, p1 a, p2 a, data a, cse a))
     (sent (fst (cardos5_select_file example_env example_header example_card
        \<lparr>value_p = [0x3F, 0x00], type_p = SC_PATH_TYPE_PATH\<rparr> True))) =
     [(0xA4, 0x00, 0x00, [0x3F, 0x00], SC_APDU_CASE_4_SHORT)] \<and>
   map (\<lambda>a. (ins a, p1 a, p2 a, data a, cse a))
     (sent (fst (cardos5_select_file example_env example_header example_card
        \<lparr>value_p = [0x3F, 0x00, 0x50, 0x15], type_p = SC_PATH_TYPE_PATH\<rparr> False))) =
     [(0xA4, 0x08, 0x0C, [0x50, 0x15], SC_APDU_CASE_3_SHORT)]"
  using
    select_file_apdu [of "\<lparr>value_p = [0x50, 0x15], type_p = SC_PATH_TYPE_PATH\<rparr>"
      example_env example_header example_card True]
    select_file_apdu [of "\<lparr>value_p = [0x3F, 0x00], type_p = SC_PATH_TYPE_PATH\<rparr>"
      example_env example_header example_card True]
    select_file_apdu [of "\<lparr>value_p = [0x3F, 0x00, 0x50, 0x15], type_p = SC_PATH_TYPE_PATH\<rparr>"
      example_env example_header example_card False]
  by (auto simp: example_header_def example_card_def)

subsection \<open>The security environment and signatures\<close>

lemma set_security_env_fails_unset:
  "cardos5_set_security_env v h crd senv n = (crd', Some r) \<Longrightarrow> unset crd'"
  by (auto simp: cardos5_set_security_env_def unset_def sc_transmit_apdu_def Let_def
      split: option.splits sec_operation.splits sum.splits prod.splits if_splits)

lemma set_security_env_fails_slot:
  "cardos5_set_security_env v h crd senv n = (crd', Some r) \<Longrightarrow>
     drv_data crd' = map_option (\<lambda>priv. priv\<lparr>cse_algorithm := - 1\<rparr>) (drv_data crd)"
  by (auto simp: cardos5_set_security_env_def unset_def sc_transmit_apdu_def Let_def
      split: option.splits sec_operation.splits sum.splits prod.splits if_splits)

lemma set_security_env_succeeds_slot:
  "cardos5_set_security_env v h crd senv n = (crd', None) \<Longrightarrow>
     drv_data crd' = map_option (\<lambda>priv. priv\<lparr>cse_algorithm := algorithm_e senv\<rparr>) (drv_data crd) \<and>
     drv_data crd \<noteq> None"
  by (auto simp: cardos5_set_security_env_def unset_def sc_transmit_apdu_def Let_def
      split: option.splits sec_operation.splits sum.splits prod.splits if_splits)

lemma compute_signature_unset:
  "unset crd \<Longrightarrow>
     cardos5_compute_signature v h crd dat dlen out outlen = (crd, Inl SC_ERROR_INVALID_ARGUMENTS, out)"
  by (auto simp: cardos5_compute_signature_def unset_def split: option.splits)

lemma select_file_drv_data:
  "drv_data (fst (cardos5_select_file v h crd path want_file)) = drv_data crd"
  by (simp add: cardos5_select_file_def sc_transmit_apdu_def
      split: option.splits sum.splits prod.splits)

lemma create_file_drv_data:
  "drv_data (fst (cardos5_create_file v h crd f)) = drv_data crd"
  by (simp add: cardos5_create_file_def sc_transmit_apdu_def
      split: option.splits sum.splits prod.splits)

lemma pin_cmd_drv_data:
  "drv_data (fst (cardos5_pin_cmd v crd dat)) = drv_data crd"
  by (auto simp: cardos5_pin_cmd_def Let_def)

lemma dispatch_unset:
  assumes u: "unset crd" and d: "dispatch v h crd c = (crd', st)"
    and ns: "\<not> set_succeeds (c, st)"
  shows "unset crd' \<and> sign_refused (c, st)"
proof (cases c)
  case (Set_security_env senv k)
  with d ns show ?thesis
    by (cases st) (auto dest: set_security_env_fails_unset)
next
  case (Compute_signature dat dlen out outlen)
  with u d show ?thesis
    by (auto simp: compute_signature_unset)
next
  case (Select_file path w)
  from d Select_file have "crd' = fst (cardos5_select_file v h crd path w)"
    by (auto split: prod.splits sum.splits)
  with u Select_file show ?thesis
    by (simp add: unset_def select_file_drv_data)
next
  case (Create_file f)
  from d Create_file have "crd' = fst (cardos5_create_file v h crd f)"
    by auto
  with u Create_file show ?thesis
    by (simp add: unset_def create_file_drv_data)
next
  case (Pin_cmd dat)
  from d Pin_cmd have "crd' = fst (cardos5_pin_cmd v crd dat)"
    by (auto split: prod.splits)
  with u Pin_cmd show ?thesis
    by (simp add: unset_def pin_cmd_drv_data)
qed

lemma run_unset:
  "unset crd \<Longrightarrow>
     list_all sign_refused (takeWhile (\<lambda>x. \<not> set_succeeds x) (run v h crd cs))"
proof (induction cs arbitrary: crd)
  case Nil
  then show ?case by simp
next
  case (Cons c cs)
  obtain crd' st where d: "dispatch v h crd c = (crd', st)"
    by (cases "dispatch v h crd c")
  show ?case
  proof (cases "set_succeeds (c, st)")
    case True
    with d show ?thesis by simp
  next
    case False
    with Cons.prems d have "unset crd' \<and> sign_refused (c, st)"
      by (rule dispatch_unset)
    with False d Cons.IH [of crd'] show ?thesis by simp
  qed
qed

lemma mse_data:
  "(case asn1_put_tag1 (CRT_TAG_KEYREF (tag h)) k (buf_init (fresh 16) 16) of
      None \<Rightarrow> None
    | Some buf \<Rightarrow> asn1_put_tag1 CRT_TAG_KUQ (KUQ_DECRYPT (tag h)) buf) =
   Some \<lparr>prev = [CRT_TAG_KEYREF (tag h), 0x01, k, CRT_TAG_KUQ, 0x01, KUQ_DECRYPT (tag h)],
         ptr = replicate 10 0, size_b = 16, bytes_used = 6\<rparr>"
  by (simp add: asn1_put_tag1_def asn1_put_tag_def sc_asn1_put_tag_def buf_init_def fresh_def)

lemma set_security_env_result:
  assumes "drv_data crd = Some priv"
  shows "cardos5_set_security_env v h crd senv se_num =
     (if operation_e senv \<noteq> SC_SEC_OPERATION_DECIPHER \<and> operation_e senv \<noteq> SC_SEC_OPERATION_SIGN
      then (set_slot (- 1) crd, Some SC_ERROR_INVALID_ARGUMENTS)
      else
        case transport v (sent crd) (mse_apdu h senv) of
          Inl r \<Rightarrow> (set_slot (- 1) (transmitted (mse_apdu h senv) crd), Some r)
        | Inr reply \<Rightarrow>
            (case check_sw v (sw1 reply) (sw2 reply) of
               Some r \<Rightarrow> (set_slot (- 1) (transmitted (mse_apdu h senv) crd), Some r)
             | None \<Rightarrow>
                 (set_slot (algorithm_e senv) (transmitted (mse_apdu h senv) crd), None)))"
  using assms
  by (cases "operation_e senv")
     (simp_all add: cardos5_set_security_env_def Let_def mse_data sc_transmit_apdu_def
        sc_check_sw_def mse_apdu_def set_slot_def transmitted_def array_def
        split: sum.splits option.splits)

lemmas eval_env =
  example_card_def example_env_def example_header_def flaky_env_def refusing_env_def
  example_mse_def mse_apdu_def set_slot_def transmitted_def apdu_zero_def

text \<open>
  C9. \<^verbatim>\<open>set_security_env\<close> is not atomic on error. With private data present, a call
  for an unsupported operation fails with INVALID_ARGUMENTS, sends nothing and leaves the
  Unset sentinel in the algorithm slot; a call for Decipher or Sign sends exactly one
  APDU, and when the transport returns an error, or the status word is refused, the call
  fails with that error and leaves the Unset sentinel in the slot, whatever it held
  before; the new algorithm is in the slot only when the transport and the status check
  both succeeded, and then the call succeeds. After any failing call, in every sequence of
  driver calls that follows, each \<^verbatim>\<open>compute_signature\<close> made before a
  \<^verbatim>\<open>set_security_env\<close> succeeds returns INVALID_ARGUMENTS. Without private data the call
  fails with INVALID_ARGUMENTS and changes nothing.
\<close>

theorem set_security_env_not_atomic:
  "(drv_data crd = None \<longrightarrow>
      cardos5_set_security_env v h crd senv se_num = (crd, Some SC_ERROR_INVALID_ARGUMENTS)) \<and>
   (drv_data crd \<noteq> None \<longrightarrow>
      (operation_e senv \<noteq> SC_SEC_OPERATION_DECIPHER \<and> operation_e senv \<noteq> SC_SEC_OPERATION_SIGN \<longrightarrow>
         cardos5_set_security_env v h crd senv se_num =
           (set_slot (- 1) crd, Some SC_ERROR_INVALID_ARGUMENTS)) \<and>
      (operation_e senv = SC_SEC_OPERATION_DECIPHER \<or> operation_e senv = SC_SEC_OPERATION_SIGN \<longrightarrow>
         (\<forall>r. transport v (sent crd) (mse_apdu h senv) = Inl r \<longrightarrow>
            cardos5_set_security_env v h crd senv se_num =
              (set_slot (- 1) (transmitted (mse_apdu h senv) crd), Some r)) \<and>
         (\<forall>reply r. transport v (sent crd) (mse_apdu h senv) = Inr reply \<longrightarrow>
            check_sw v (sw1 reply) (sw2 reply) = Some r \<longrightarrow>
            cardos5_set_security_env v h crd senv se_num =
              (set_slot (- 1) (transmitted (mse_apdu h senv) crd), Some r)) \<and>
         (\<forall>reply. transport v (sent crd) (mse_apdu h senv) = Inr reply \<longrightarrow>
            check_sw v (sw1 reply) (sw2 reply) = None \<longrightarrow>
            cardos5_set_security_env v h crd senv se_num =
              (set_slot (algorithm_e senv) (transmitted (mse_apdu h senv) crd), None)))) \<and>
   (cardos5_set_security_env v h crd senv se_num = (crd1, Some e) \<longrightarrow>
      drv_data crd1 = map_option (\<lambda>priv. priv\<lparr>cse_algorithm := - 1\<rparr>) (drv_data crd) \<and>
      list_all sign_refused (takeWhile (\<lambda>x. \<not> set_succeeds x) (run v h crd1 cs))) \<and>
   (cardos5_set_security_env v h crd senv se_num = (crd1, None) \<longrightarrow>
      drv_data crd \<noteq> None \<and>
      drv_data crd1 = map_option (\<lambda>priv. priv\<lparr>cse_algorithm := algorithm_e senv\<rparr>) (drv_data crd))"
proof (intro conjI impI allI)
  assume "drv_data crd = None"
  then show "cardos5_set_security_env v h crd senv se_num = (crd, Some SC_ERROR_INVALID_ARGUMENTS)"
    by (simp add: cardos5_set_security_env_def)
next
  assume "drv_data crd \<noteq> None"
    and "operation_e senv \<noteq> SC_SEC_OPERATION_DECIPHER \<and> operation_e senv \<noteq> SC_SEC_OPERATION_SIGN"
  then show "cardos5_set_security_env v h crd senv se_num =
           (set_slot (- 1) crd, Some SC_ERROR_INVALID_ARGUMENTS)"
    by (auto simp: set_security_env_result)
next
  fix r
  assume "drv_data crd \<noteq> None"
    and "operation_e senv = SC_SEC_OPERATION_DECIPHER \<or> operation_e senv = SC_SEC_OPERATION_SIGN"
    and "transport v (sent crd) (mse_apdu h senv) = Inl r"
  then show "cardos5_set_security_env v h crd senv se_num =
              (set_slot (- 1) (transmitted (mse_apdu h senv) crd), Some r)"
    by (auto simp: set_security_env_result)
next
  fix reply r
  assume "drv_data crd \<noteq> None"
    and "operation_e senv = SC_SEC_OPERATION_DECIPHER \<or> operation_e senv = SC_SEC_OPERATION_SIGN"
    and "transport v (sent crd) (mse_apdu h senv) = Inr reply"
    and "check_sw v (sw1 reply) (sw2 reply) = Some r"
  then show "cardos5_set_security_env v h crd senv se_num =
              (set_slot (- 1) (transmitted (mse_apdu h senv) crd), Some r)"
    by (auto simp: set_security_env_result)
next
  fix reply
  assume "drv_data crd \<noteq> None"
    and "operation_e senv = SC_SEC_OPERATION_DECIPHER \<or> operation_e senv = SC_SEC_OPERATION_SIGN"
    and "transport v (sent crd) (mse_apdu h senv) = Inr reply"
    and "check_sw v (sw1 reply) (sw2 reply) = None"
  then show "cardos5_set_security_env v h crd senv se_num =
              (set_slot (algorithm_e senv) (transmitted (mse_apdu h senv) crd), None)"
    by (auto simp: set_security_env_result)
next
  assume f: "cardos5_set_security_env v h crd senv se_num = (crd1, Some e)"
  then show "drv_data crd1 = map_option (\<lambda>priv. priv\<lparr>cse_algorithm := - 1\<rparr>) (drv_data crd)"
    by (rule set_security_env_fails_slot)
  from f have "unset crd1"
    by (rule set_security_env_fails_unset)
  then show "list_all sign_refused (takeWhile (\<lambda>x. \<not> set_succeeds x) (run v h crd1 cs))"
    by (rule run_unset)
next
  assume s: "cardos5_set_security_env v h crd senv se_num = (crd1, None)"
  then show "drv_data crd \<noteq> None"
    by (simp add: set_security_env_succeeds_slot)
  from s show "drv_data crd1 =
      map_option (\<lambda>priv. priv\<lparr>cse_algorithm := algorithm_e senv\<rparr>) (drv_data crd)"
    by (simp add: set_security_env_succeeds_slot)
qed

theorem set_security_env_not_atomic_witness:
  "cardos5_set_security_env example_env example_header example_card
       \<lparr>operation_e = SC_SEC_OPERATION_other 0, algorithm_e = 2, key_ref_0 = 1\<rparr> 0 =
     (example_card\<lparr>drv_data := Some \<lparr>cse_algorithm = - 1\<rparr>\<rparr>, Some SC_ERROR_INVALID_ARGUMENTS) \<and>
   cardos5_set_security_env flaky_env example_header example_card
       \<lparr>operation_e = SC_SEC_OPERATION_SIGN, algorithm_e = 2, key_ref_0 = 1\<rparr> 0 =
     (example_card\<lparr>drv_data := Some \<lparr>cse_algorithm = - 1\<rparr>, sent := [example_mse]\<rparr>,
      Some (SC_ERROR_OTHER (- 1100))) \<and>
   cardos5_set_security_env refusing_env example_header example_card
       \<lparr>operation_e = SC_SEC_OPERATION_SIGN, algorithm_e = 2, key_ref_0 = 1\<rparr> 0 =
     (example_card\<lparr>drv_data := Some \<lparr>cse_algorithm = - 1\<rparr>, sent := [example_mse]\<rparr>,
      Some (SC_ERROR_OTHER (- 1200))) \<and>
   cardos5_set_security_env example_env example_header example_card
       \<lparr>operation_e = SC_SEC_OPERATION_SIGN, algorithm_e = 2, key_ref_0 = 1\<rparr> 0 =
     (example_card\<lparr>drv_data := Some \<lparr>cse_algorithm = 2\<rparr>, sent := [example_mse]\<rparr>, None) \<and>
   map snd (run flaky_env example_header
              (example_card\<lparr>drv_data := Some \<lparr>cse_algorithm = - 1\<rparr>, sent := [example_mse]\<rparr>)
              [Compute_signature [1] 1 [0] 1,
               Set_security_env
                 \<lparr>operation_e = SC_SEC_OPERATION_SIGN, algorithm_e = 0, key_ref_0 = 1\<rparr> 0,
               Compute_signature [1] 1 [0] 1]) =
     [Some SC_ERROR_INVALID_ARGUMENTS, None, None] \<and>
   list_all sign_refused
     (takeWhile (\<lambda>x. \<not> set_succeeds x)
        (run flaky_env example_header
           (example_card\<lparr>drv_data := Some \<lparr>cse_algorithm = - 1\<rparr>, sent := [example_mse]\<rparr>)
           [Compute_signature [1] 1 [0] 1,
            Set_security_env
              \<lparr>operation_e = SC_SEC_OPERATION_SIGN, algorithm_e = 0, key_ref_0 = 1\<rparr> 0,
            Compute_signature [1] 1 [0] 1]))"
proof -
  let ?other = "\<lparr>operation_e = SC_SEC_OPERATION_other 0, algorithm_e = 2, key_ref_0 = 1\<rparr>"
  let ?sign = "\<lparr>operation_e = SC_SEC_OPERATION_SIGN, algorithm_e = 2, key_ref_0 = 1\<rparr>"
  let ?lost = "example_card\<lparr>drv_data := Some \<lparr>cse_algorithm = - 1\<rparr>, sent := [example_mse]\<rparr>"
  let ?cs = "[Compute_signature [1] 1 [0] 1,
              Set_security_env
                \<lparr>operation_e = SC_SEC_OPERATION_SIGN, algorithm_e = 0, key_ref_0 = 1\<rparr> 0,
              Compute_signature [1] 1 [0] 1]"
  note t = set_security_env_not_atomic [where h = example_header and crd = example_card
      and se_num = 0]
  have p: "drv_data example_card \<noteq> None" by (simp add: example_card_def)
  have o: "operation_e ?other \<noteq> SC_SEC_OPERATION_DECIPHER \<and>
           operation_e ?other \<noteq> SC_SEC_OPERATION_SIGN"
    "operation_e ?sign = SC_SEC_OPERATION_DECIPHER \<or> operation_e ?sign = SC_SEC_OPERATION_SIGN"
    by simp_all
  have m: "mse_apdu example_header ?sign = example_mse"
    by (simp add: eval_env arl_macros)
  have a: "set_slot (- 1) example_card = example_card\<lparr>drv_data := Some \<lparr>cse_algorithm = - 1\<rparr>\<rparr>"
    "set_slot (- 1) (transmitted example_mse example_card) = ?lost"
    "set_slot 2 (transmitted example_mse example_card) =
       example_card\<lparr>drv_data := Some \<lparr>cse_algorithm = 2\<rparr>, sent := [example_mse]\<rparr>"
    by (simp_all add: set_slot_def transmitted_def example_card_def)
  have x: "transport flaky_env (sent example_card) (mse_apdu example_header ?sign) =
             Inl (SC_ERROR_OTHER (- 1100))"
    "transport refusing_env (sent example_card) (mse_apdu example_header ?sign) =
             Inr \<lparr>resp = [], sw1 = 0x6A, sw2 = 0x88\<rparr>"
    "check_sw refusing_env (sw1 \<lparr>resp = [], sw1 = 0x6A, sw2 = 0x88\<rparr>)
       (sw2 \<lparr>resp = [], sw1 = 0x6A, sw2 = 0x88\<rparr>) = Some (SC_ERROR_OTHER (- 1200))"
    "transport example_env (sent example_card) (mse_apdu example_header ?sign) =
             Inr \<lparr>resp = [], sw1 = 0x90, sw2 = 0x00\<rparr>"
    "check_sw example_env (sw1 \<lparr>resp = [], sw1 = 0x90, sw2 = 0x00\<rparr>)
       (sw2 \<lparr>resp = [], sw1 = 0x90, sw2 = 0x00\<rparr>) = None"
    by (simp_all add: flaky_env_def refusing_env_def example_env_def example_card_def)
  note c2 = t [THEN conjunct2, THEN conjunct1, rule_format, OF p]
  have 1: "cardos5_set_security_env example_env example_header example_card ?other 0 =
     (example_card\<lparr>drv_data := Some \<lparr>cse_algorithm = - 1\<rparr>\<rparr>, Some SC_ERROR_INVALID_ARGUMENTS)"
    using c2 [where v = example_env and senv = ?other, THEN conjunct1, rule_format, OF o(1)]
    unfolding a .
  have 2: "cardos5_set_security_env flaky_env example_header example_card ?sign 0 =
     (?lost, Some (SC_ERROR_OTHER (- 1100)))"
    using c2 [where v = flaky_env and senv = ?sign, THEN conjunct2, rule_format, OF o(2),
        THEN conjunct1, rule_format, OF x(1)]
    unfolding m a .
  have 3: "cardos5_set_security_env refusing_env example_header example_card ?sign 0 =
     (?lost, Some (SC_ERROR_OTHER (- 1200)))"
    using c2 [where v = refusing_env and senv = ?sign, THEN conjunct2, rule_format, OF o(2),
        THEN conjunct2, THEN conjunct1, rule_format, OF x(2,3)]
    unfolding m a .
  have 4: "cardos5_set_security_env example_env example_header example_card ?sign 0 =
     (example_card\<lparr>drv_data := Some \<lparr>cse_algorithm = 2\<rparr>, sent := [example_mse]\<rparr>, None)"
    using c2 [where v = example_env and senv = ?sign, THEN conjunct2, rule_format, OF o(2),
        THEN conjunct2, THEN conjunct2, rule_format, OF x(4,5)]
    by (simp add: m a)
  have 5: "list_all sign_refused
     (takeWhile (\<lambda>x. \<not> set_succeeds x) (run flaky_env example_header ?lost ?cs))"
    using t [where v = flaky_env and senv = ?sign and ?crd1.0 = ?lost
        and e = "SC_ERROR_OTHER (- 1100)" and cs = ?cs,
        THEN conjunct2, THEN conjunct2, THEN conjunct1, rule_format, OF 2]
    by blast
  have 6: "map snd (run flaky_env example_header ?lost ?cs) =
     [Some SC_ERROR_INVALID_ARGUMENTS, None, None]"
    by (simp add: cardos5_set_security_env_def cardos5_compute_signature_def eval_env
        arl_macros Let_def sc_transmit_apdu_def sc_check_sw_def
        asn1_put_tag1_def asn1_put_tag_def sc_asn1_put_tag_def buf_init_def fresh_def
        INT_MAX_def)
  from 1 2 3 4 6 5 show ?thesis by (intro conjI)
qed

text \<open>
  C10. As the claim states it, \<^verbatim>\<open>compute_signature\<close> would return BUFFER_TOO_SMALL
  whenever \<open>outlen < datalen\<close>. It checks the security environment first: on a card
  with no algorithm set, one byte of data and an empty output buffer give
  INVALID_ARGUMENTS.
\<close>

theorem compute_signature_outlen_counterexample:
  "(0 :: size_t) < 1 \<and>
   cardos5_compute_signature example_env example_header
       (example_card\<lparr>drv_data := Some \<lparr>cse_algorithm = - 1\<rparr>\<rparr>) [0x2A] 1 [] 0 =
     (example_card\<lparr>drv_data := Some \<lparr>cse_algorithm = - 1\<rparr>\<rparr>,
      Inl SC_ERROR_INVALID_ARGUMENTS, [])"
  by (simp add: cardos5_compute_signature_def example_card_def)

text \<open>
  C10, amended. On a card whose security environment is set (private data present,
  algorithm slot not Unset), \<^verbatim>\<open>compute_signature\<close> returns BUFFER_TOO_SMALL whenever
  \<open>outlen < datalen\<close>, whatever the algorithm (RSA, EC or any other value), with the
  card as it was, hence no APDU transmitted, and the output buffer untouched.
\<close>

theorem compute_signature_outlen:
  "drv_data crd = Some priv \<Longrightarrow> cse_algorithm priv \<noteq> - 1 \<Longrightarrow> outlen < dlen \<Longrightarrow>
     cardos5_compute_signature v h crd dat dlen out outlen =
       (crd, Inl SC_ERROR_BUFFER_TOO_SMALL, out)"
  by (simp add: cardos5_compute_signature_def)

theorem compute_signature_outlen_witness:
  "cse_algorithm \<lparr>cse_algorithm = SC_ALGORITHM_EC example_header\<rparr> \<noteq> - 1 \<and> (80 :: size_t) < 100 \<and>
   cardos5_compute_signature example_env example_header
       (example_card\<lparr>drv_data := Some \<lparr>cse_algorithm = SC_ALGORITHM_EC example_header\<rparr>\<rparr>)
       (replicate 100 0x2A) 100 (replicate 80 0) 80 =
     (example_card\<lparr>drv_data := Some \<lparr>cse_algorithm = SC_ALGORITHM_EC example_header\<rparr>\<rparr>,
      Inl SC_ERROR_BUFFER_TOO_SMALL, replicate 80 0)"
proof -
  have a: "cse_algorithm \<lparr>cse_algorithm = SC_ALGORITHM_EC example_header\<rparr> \<noteq> - 1"
    by (simp add: example_header_def)
  have b: "(80 :: size_t) < 100" by simp
  from compute_signature_outlen [OF _ a b,
      of "example_card\<lparr>drv_data := Some \<lparr>cse_algorithm = SC_ALGORITHM_EC example_header\<rparr>\<rparr>"
         example_env example_header "replicate 100 0x2A" "replicate 80 0"] a b
  show ?thesis by simp
qed


subsection \<open>Round trip of the access rule list\<close>

lemma buf_ok_unat:
  "buf_ok buf \<Longrightarrow> unat (bytes_used buf) = length (prev buf)"
  unfolding buf_ok_def by (metis le_unat_uoi)

lemma buf_ok_room:
  assumes "buf_ok buf"
  shows "unat (size_b buf - bytes_used buf) = unat (size_b buf) - length (prev buf)"
proof -
  have u: "unat (bytes_used buf) = length (prev buf)"
    using assms by (rule buf_ok_unat)
  have "bytes_used buf \<le> size_b buf"
    using assms u by (simp add: word_le_nat_alt buf_ok_def)
  then show ?thesis
    using u by (simp add: unat_sub)
qed

lemma buf_ok_append:
  assumes "buf_ok buf" "length (prev buf) + length bs \<le> unat (size_b buf)"
  shows "buf_ok (append_bytes bs buf)"
  using assms by (simp add: buf_ok_def append_bytes_def)

lemma asn1_put_tag_wf:
  assumes "buf_ok buf" "unat len \<le> length c"
  shows "asn1_put_tag t c len buf =
     (if len < 256 \<and> length (prev buf) + (unat len + 2) \<le> unat (size_b buf)
      then Some (append_bytes (t # ucast len # take (unat len) c) buf) else None)"
proof -
  have "(of_nat (Suc (Suc (unat len))) :: size_t) = len + 2"
    by simp
  then show ?thesis
    using assms buf_ok_room [OF assms(1)]
    by (auto simp: asn1_put_tag_def sc_asn1_put_tag_def append_bytes_def min_def)
qed

lemma append_bytes_append:
  "append_bytes b2 (append_bytes b1 buf) = append_bytes (b1 @ b2) buf"
  by (simp add: append_bytes_def add.commute)

lemma buf_ok_init: "n < 2 ^ 64 \<Longrightarrow> buf_ok (buf_init (fresh n) (of_nat n))"
  by (simp add: buf_ok_def buf_init_def)

lemma crt_bytes:
  "(case asn1_put_tag1 CRT_TAG_PINREF x (buf_init (fresh 16) 16) of
      None \<Rightarrow> None
    | Some crt1 \<Rightarrow>
        (case asn1_put_tag1 CRT_TAG_KUQ k crt1 of
           None \<Rightarrow> None
         | Some crt \<Rightarrow> asn1_put_tag ARL_USER_AUTH_TAG (array crt) (bytes_used crt) buf)) =
   asn1_put_tag ARL_USER_AUTH_TAG [CRT_TAG_PINREF, 0x01, x, CRT_TAG_KUQ, 0x01, k] 6 buf"
  by (simp add: asn1_put_tag1_def asn1_put_tag_def sc_asn1_put_tag_def buf_init_def fresh_def
      array_def)

lemma add_acl_tag_cases:
  "add_acl_tag h am_byte ac keyref buf0 =
     (case (if am_byte \<noteq> 0xff
            then asn1_put_tag1 ARL_ACCESS_MODE_BYTE_TAG am_byte buf0
            else Some buf0) of
        None \<Rightarrow> None
      | Some buf \<Rightarrow>
          if ac = SC_AC_NONE then asn1_put_tag0 ARL_ALWAYS_TAG buf
          else if ac = SC_AC_NEVER then asn1_put_tag0 ARL_NEVER_TAG buf
          else if ac = SC_AC_CHV \<or> ac = SC_AC_TERM \<or> ac = SC_AC_AUT then
            (if keyref AND BACKTRACK_PIN \<noteq> 0 \<or> keyref > UINT8_MAX then None
             else asn1_put_tag ARL_USER_AUTH_TAG
                    [CRT_TAG_PINREF, 0x01, ucast keyref, CRT_TAG_KUQ, 0x01,
                     KUQ_USER_AUTH (tag h)] 6 buf)
          else None)"
  by (cases ac) (simp_all add: add_acl_tag_def Let_def crt_bytes split: option.splits)

lemma add_acl_tag_ok:
  assumes "buf_ok buf"
  shows "add_acl_tag h am_byte ac keyref buf =
     (if encodable ac keyref \<and>
         length (prev buf) + length (scope_bytes am_byte @ predicate_bytes h ac keyref)
           \<le> unat (size_b buf)
      then Some (append_bytes (scope_bytes am_byte @ predicate_bytes h ac keyref) buf)
      else None)"
proof (cases "am_byte = 0xff")
  case True
  with assms show ?thesis
    by (cases ac)
      (auto simp: add_acl_tag_cases asn1_put_tag0_def asn1_put_tag_wf scope_bytes_def
        predicate_bytes_def encodable_def not_le)
next
  case False
  let ?b = "append_bytes [ARL_ACCESS_MODE_BYTE_TAG, 0x01, am_byte] buf"
  have s: "asn1_put_tag1 ARL_ACCESS_MODE_BYTE_TAG am_byte buf =
      (if length (prev buf) + 3 \<le> unat (size_b buf) then Some ?b else None)"
    using assms by (simp add: asn1_put_tag1_def asn1_put_tag_wf)
  show ?thesis
  proof (cases "length (prev buf) + 3 \<le> unat (size_b buf)")
    case fits: True
    then have ok: "buf_ok ?b"
      using assms by (simp add: buf_ok_append)
    have p: "prev ?b = prev buf @ [ARL_ACCESS_MODE_BYTE_TAG, 0x01, am_byte]"
      "size_b ?b = size_b buf"
      by (simp_all add: append_bytes_def)
    from False fits ok show ?thesis
      by (cases ac)
        (auto simp: add_acl_tag_cases s asn1_put_tag0_def asn1_put_tag_wf scope_bytes_def
          predicate_bytes_def encodable_def not_le p append_bytes_append)
  next
    case False
    with \<open>am_byte \<noteq> 0xff\<close> show ?thesis
      by (auto simp: add_acl_tag_cases s scope_bytes_def)
  qed
qed

lemma keyref_byte:
  fixes kr :: uint
  assumes "kr \<le> 0xFF" "kr AND 0x80 = 0"
  shows "ucast ((ucast kr :: u8) AND 0x7F) = kr"
proof -
  have m: "(0x7F::u8) = mask 7" by (simp add: mask_eq_exp_minus_1)
  have b7: "\<not> bit kr 7"
  proof
    assume "bit kr 7"
    then have "bit (kr AND 2 ^ 7) 7" by (simp add: bit_simps)
    with assms(2) show False by simp
  qed
  have "kr < 2 ^ 8" using assms(1) by (simp add: word_less_nat_alt word_le_nat_alt)
  then have hi: "\<not> bit kr n" if "8 \<le> n" for n
    using that by (metis bit_take_bit_iff less_mask_eq not_le take_bit_eq_mask)
  show ?thesis
    unfolding m
  proof (rule bit_eqI)
    fix n
    show "bit (ucast (ucast kr AND mask 7 :: u8) :: uint) n = bit kr n"
      using b7 hi [of n]
      by (cases "n < 7"; cases "n = 7") (auto simp: bit_simps)
  qed
qed

lemma keyref_byte_trunc:
  fixes kr :: uint
  assumes "kr \<le> 0xFF"
  shows "ucast (ucast kr :: u8) = kr"
proof -
  have "kr < 2 ^ 8" using assms(1) by (simp add: word_less_nat_alt word_le_nat_alt)
  then have hi: "\<not> bit kr n" if "8 \<le> n" for n
    using that by (metis bit_take_bit_iff less_mask_eq not_le take_bit_eq_mask)
  show ?thesis
  proof (rule bit_eqI)
    fix n
    show "bit (ucast (ucast kr :: u8) :: uint) n = bit kr n"
      using hi [of n] by (cases "n < 8") (auto simp: bit_simps)
  qed
qed

lemma predicate_bytes_trunc:
  "predicate_bytes h ac (ucast (ucast keyref :: u8)) = predicate_bytes h ac keyref"
proof -
  have "(ucast (ucast (ucast keyref :: u8) :: uint) :: u8) = ucast keyref"
    by (rule bit_eqI) (auto simp: bit_simps)
  then show ?thesis by (cases ac) (simp_all add: predicate_bytes_def)
qed

lemma put_step:
  assumes "buf_ok b"
    "(if C \<and> length (prev b) + length bs \<le> unat (size_b b)
      then Some (append_bytes bs b) else None) = Some b'"
  shows "b' = append_bytes bs b \<and> buf_ok b' \<and> C \<and> size_b b' = size_b b"
proof -
  from assms(2) have c: "C" and f: "length (prev b) + length bs \<le> unat (size_b b)"
    and b: "b' = append_bytes bs b"
    by (auto split: if_splits)
  from assms(1) f have "buf_ok (append_bytes bs b)" by (rule buf_ok_append)
  with b c show ?thesis by (simp add: append_bytes_def)
qed

lemma df_populate_arl_bytes:
  assumes "buf_ok buf" "df_populate_arl h df tbl buf = Some buf'"
  shows "buf' = append_bytes (am_part h df tbl) buf \<and> buf_ok buf' \<and>
     list_all (\<lambda>a. encodable (entry_method (host_entry df a)) (entry_keyref (host_entry df a))) tbl"
  using assms
proof (induction tbl arbitrary: buf)
  case Nil
  then show ?case by (simp add: am_part_def append_bytes_def)
next
  case (Cons a rest)
  let ?e = "host_entry df a"
  from Cons.prems(2) obtain b1 where
    1: "add_acl_tag h (fst a) (entry_method ?e) (entry_keyref ?e) buf = Some b1"
    and 2: "df_populate_arl h df rest b1 = Some buf'"
    by (auto simp: host_entry_def entry_method_def entry_keyref_def Let_def
        split: option.splits)
  from put_step [OF Cons.prems(1) 1 [unfolded add_acl_tag_ok [OF Cons.prems(1)]]]
  have b1: "b1 = append_bytes (scope_bytes (fst a) @
        predicate_bytes h (entry_method ?e) (entry_keyref ?e)) buf"
    and ok1: "buf_ok b1" and enc: "encodable (entry_method ?e) (entry_keyref ?e)"
    by blast+
  from Cons.IH [OF ok1 2] have r: "buf' = append_bytes (am_part h df rest) b1" "buf_ok buf'"
    "list_all (\<lambda>a. encodable (entry_method (host_entry df a))
                      (entry_keyref (host_entry df a))) rest"
    by blast+
  have "buf' = append_bytes (am_part h df (a # rest)) buf"
    unfolding r(1) b1 by (simp add: am_part_def append_bytes_append)
  with r(2,3) enc show ?case by simp
qed

lemma ef_populate_arl_bytes:
  assumes "buf_ok buf" "ef_populate_arl h ef tbl buf = Some buf'"
  shows "buf' = append_bytes (am_part h ef tbl) buf \<and> buf_ok buf' \<and>
     list_all (\<lambda>a. encodable (entry_method (host_entry ef a))
                      (ucast (ucast (entry_keyref (host_entry ef a)) :: u8))) tbl"
  using assms
proof (induction tbl arbitrary: buf)
  case Nil
  then show ?case by (simp add: am_part_def append_bytes_def)
next
  case (Cons a rest)
  let ?e = "host_entry ef a"
  let ?k = "(case ?e of None \<Rightarrow> - 1 | Some e' \<Rightarrow> (ucast (ucast (key_ref e') :: u8))) :: uint"
  from Cons.prems(2) obtain b1 where
    1: "add_acl_tag h (fst a) (entry_method ?e) ?k buf = Some b1"
    and 2: "ef_populate_arl h ef rest b1 = Some buf'"
    by (auto simp: host_entry_def entry_method_def entry_keyref_def Let_def
        split: option.splits)
  have k: "predicate_bytes h (entry_method ?e) ?k =
      predicate_bytes h (entry_method ?e) (entry_keyref ?e)"
    by (cases ?e) (simp_all add: entry_keyref_def predicate_bytes_trunc)
  have k2: "encodable (entry_method ?e) ?k =
      encodable (entry_method ?e) (ucast (ucast (entry_keyref ?e) :: u8))"
    by (cases ?e) (simp_all add: entry_keyref_def entry_method_def encodable_def)
  from put_step [OF Cons.prems(1) 1 [unfolded add_acl_tag_ok [OF Cons.prems(1)] k k2]]
  have b1: "b1 = append_bytes (scope_bytes (fst a) @
        predicate_bytes h (entry_method ?e) (entry_keyref ?e)) buf"
    and ok1: "buf_ok b1"
    and enc: "encodable (entry_method ?e) (ucast (ucast (entry_keyref ?e) :: u8))"
    by blast+
  from Cons.IH [OF ok1 2] have r: "buf' = append_bytes (am_part h ef rest) b1" "buf_ok buf'"
    "list_all (\<lambda>a. encodable (entry_method (host_entry ef a))
                      (ucast (ucast (entry_keyref (host_entry ef a)) :: u8))) rest"
    by blast+
  have "buf' = append_bytes (am_part h ef (a # rest)) buf"
    unfolding r(1) b1 by (simp add: am_part_def append_bytes_append)
  with r(2,3) enc show ?case by simp
qed

lemma encodable_legal: "encodable ac keyref \<Longrightarrow> legal_method ac"
  by (cases ac) (simp_all add: encodable_def legal_method_def)

lemma parse_predicate_bytes:
  assumes "legal_method ac"
  shows "parse_predicate h (a0 # a1 # a2 # predicate_bytes h ac keyref @ rest) =
     Inr (method (decode h ac keyref), key_ref (decode h ac keyref),
          length (a0 # a1 # a2 # predicate_bytes h ac keyref))"
  using assms
  by (cases ac) (simp_all add: parse_predicate_def predicate_bytes_def legal_method_def decode_def
      arl_macros)

lemma find_distinct:
  "distinct (map fst T) \<Longrightarrow> (a, ob) \<in> set T \<Longrightarrow> find (\<lambda>e. fst e = a) T = Some (a, ob)"
  by (induction T) force+

lemma acl_update_append:
  "(g\<lparr>acl := acl g @ xs\<rparr>)\<lparr>acl := acl (g\<lparr>acl := acl g @ xs\<rparr>) @ ys\<rparr> = g\<lparr>acl := acl g @ xs @ ys\<rparr>"
  by simp

lemma parse_ef_arl_step:
  assumes "am_byte \<noteq> 0xff" "find (\<lambda>e. fst e = am_byte) (ef_acl h) = Some (am_byte, ob)"
    "legal_method ac"
  shows "parse_ef_arl h g ((scope_bytes am_byte @ predicate_bytes h ac keyref) @ rest) =
     parse_ef_arl h
       (g\<lparr>acl := acl g @ (case ob of None \<Rightarrow> [] | Some operation \<Rightarrow> [(operation, decode h ac keyref)])\<rparr>)
       rest"
proof -
  let ?arl = "(scope_bytes am_byte @ predicate_bytes h ac keyref) @ rest"
  have a: "?arl = ARL_ACCESS_MODE_BYTE_TAG # 0x01 # am_byte # predicate_bytes h ac keyref @ rest"
    using assms(1) by (simp add: scope_bytes_def)
  have l: "5 \<le> length ?arl"
    unfolding a by (cases ac) (simp_all add: predicate_bytes_def)
  show ?thesis
    apply (subst parse_ef_arl.simps)
    using l assms(2)
    apply (simp only: a parse_predicate_bytes [OF assms(3)])
    apply (simp add: arl_macros sc_file_add_acl_entry_def split: option.splits)
    apply (cases "decode h ac keyref")
    apply simp
    done
qed

lemma parse_df_loop_step:
  assumes "am_byte \<noteq> 0xff" "find (\<lambda>e. fst e = am_byte) (df_acl h) = Some (am_byte, ob)"
    "legal_method ac"
  shows "parse_df_loop h g ((scope_bytes am_byte @ predicate_bytes h ac keyref) @ rest) =
     parse_df_loop h
       (g\<lparr>acl := acl g @ (case ob of None \<Rightarrow> [] | Some operation \<Rightarrow> [(operation, decode h ac keyref)])\<rparr>)
       rest"
proof -
  let ?arl = "(scope_bytes am_byte @ predicate_bytes h ac keyref) @ rest"
  have a: "?arl = ARL_ACCESS_MODE_BYTE_TAG # 0x01 # am_byte # predicate_bytes h ac keyref @ rest"
    using assms(1) by (simp add: scope_bytes_def)
  have l: "5 \<le> length ?arl"
    unfolding a by (cases ac) (simp_all add: predicate_bytes_def)
  show ?thesis
    apply (subst parse_df_loop.simps)
    using l assms(2)
    apply (simp only: a parse_predicate_bytes [OF assms(3)])
    apply (simp add: arl_macros sc_file_add_acl_entry_def split: option.splits)
    apply (cases "decode h ac keyref")
    apply simp
    done
qed

lemma parse_df_loop_command:
  "parse_df_loop h g (ARL_COMMAND_TAG # 0x04 # c0 # c1 # c2 # c3 # predicate_bytes h ac keyref @ rest) =
     parse_df_loop h g rest"
  apply (subst parse_df_loop.simps)
  apply (cases ac)
       apply (simp_all add: predicate_bytes_def arl_macros)
  done

lemma parse_ef_am_part:
  assumes "distinct (map fst (ef_acl h))" "0xff \<notin> fst ` set (ef_acl h)"
    "set tbl \<subseteq> set (ef_acl h)"
    "list_all (\<lambda>a. legal_method (entry_method (host_entry f a))) tbl"
  shows "parse_ef_arl h g (am_part h f tbl @ rest) =
     parse_ef_arl h (g\<lparr>acl := acl g @ decoded_part h f tbl\<rparr>) rest"
  using assms(3,4)
proof (induction tbl arbitrary: g)
  case Nil
  then show ?case by (simp add: am_part_def decoded_part_def)
next
  case (Cons a tbl)
  obtain am_byte ob where a: "a = (am_byte, ob)" by (cases a)
  with Cons.prems(1) have m: "(am_byte, ob) \<in> set (ef_acl h)" by simp
  with assms(2) have n: "am_byte \<noteq> 0xff" by force
  from assms(1) m have f: "find (\<lambda>e. fst e = am_byte) (ef_acl h) = Some (am_byte, ob)"
    by (rule find_distinct)
  from Cons.prems(2) have l: "legal_method (entry_method (host_entry f (am_byte, ob)))"
    by (simp add: a)
  have "parse_ef_arl h g (am_part h f (a # tbl) @ rest) =
      parse_ef_arl h g ((scope_bytes am_byte @
          predicate_bytes h (entry_method (host_entry f (am_byte, ob)))
            (entry_keyref (host_entry f (am_byte, ob)))) @
        (am_part h f tbl @ rest))"
    by (simp add: am_part_def a)
  also have "\<dots> = parse_ef_arl h
       (g\<lparr>acl := acl g @ (case ob of None \<Rightarrow> []
          | Some operation \<Rightarrow> [(operation, decode h (entry_method (host_entry f (am_byte, ob)))
                                   (entry_keyref (host_entry f (am_byte, ob))))])\<rparr>)
       (am_part h f tbl @ rest)"
    by (rule parse_ef_arl_step [OF n f l])
  also have "\<dots> = parse_ef_arl h (g\<lparr>acl := acl g @ decoded_part h f (a # tbl)\<rparr>) rest"
    using Cons.prems by (subst Cons.IH) (simp_all add: decoded_part_def a)
  finally show ?case .
qed

lemma parse_df_am_part:
  assumes "distinct (map fst (df_acl h))" "0xff \<notin> fst ` set (df_acl h)"
    "set tbl \<subseteq> set (df_acl h)"
    "list_all (\<lambda>a. legal_method (entry_method (host_entry f a))) tbl"
  shows "parse_df_loop h g (am_part h f tbl @ rest) =
     parse_df_loop h (g\<lparr>acl := acl g @ decoded_part h f tbl\<rparr>) rest"
  using assms(3,4)
proof (induction tbl arbitrary: g)
  case Nil
  then show ?case by (simp add: am_part_def decoded_part_def)
next
  case (Cons a tbl)
  obtain am_byte ob where a: "a = (am_byte, ob)" by (cases a)
  with Cons.prems(1) have m: "(am_byte, ob) \<in> set (df_acl h)" by simp
  with assms(2) have n: "am_byte \<noteq> 0xff" by force
  from assms(1) m have f: "find (\<lambda>e. fst e = am_byte) (df_acl h) = Some (am_byte, ob)"
    by (rule find_distinct)
  from Cons.prems(2) have l: "legal_method (entry_method (host_entry f (am_byte, ob)))"
    by (simp add: a)
  have "parse_df_loop h g (am_part h f (a # tbl) @ rest) =
      parse_df_loop h g ((scope_bytes am_byte @
          predicate_bytes h (entry_method (host_entry f (am_byte, ob)))
            (entry_keyref (host_entry f (am_byte, ob)))) @
        (am_part h f tbl @ rest))"
    by (simp add: am_part_def a)
  also have "\<dots> = parse_df_loop h
       (g\<lparr>acl := acl g @ (case ob of None \<Rightarrow> []
          | Some operation \<Rightarrow> [(operation, decode h (entry_method (host_entry f (am_byte, ob)))
                                   (entry_keyref (host_entry f (am_byte, ob))))])\<rparr>)
       (am_part h f tbl @ rest)"
    by (rule parse_df_loop_step [OF n f l])
  also have "\<dots> = parse_df_loop h (g\<lparr>acl := acl g @ decoded_part h f (a # tbl)\<rparr>) rest"
    using Cons.prems by (subst Cons.IH) (simp_all add: decoded_part_def a)
  finally show ?case .
qed

lemma arl_bytes_ok: "buf_ok arl \<Longrightarrow> arl_bytes arl = prev arl"
  by (simp add: arl_bytes_def array_def buf_ok_unat)

lemma put_command_always_ok:
  assumes "buf_ok buf" "length c = 4"
  shows "put_command_always c buf =
     (if True \<and> length (prev buf) + length (ARL_COMMAND_TAG # 0x04 # c @ [ARL_ALWAYS_TAG, 0x00])
          \<le> unat (size_b buf)
      then Some (append_bytes (ARL_COMMAND_TAG # 0x04 # c @ [ARL_ALWAYS_TAG, 0x00]) buf)
      else None)"
proof -
  let ?b = "append_bytes (ARL_COMMAND_TAG # 0x04 # c) buf"
  have 1: "asn1_put_tag ARL_COMMAND_TAG c 4 buf =
      (if length (prev buf) + 6 \<le> unat (size_b buf) then Some ?b else None)"
    using assms by (simp add: asn1_put_tag_wf)
  show ?thesis
  proof (cases "length (prev buf) + 6 \<le> unat (size_b buf)")
    case True
    then have "buf_ok ?b" using assms by (simp add: buf_ok_append)
    moreover have "prev ?b = prev buf @ ARL_COMMAND_TAG # 0x04 # c" "size_b ?b = size_b buf"
      by (simp_all add: append_bytes_def)
    ultimately show ?thesis
      using True assms
      by (simp add: put_command_always_def 1 asn1_put_tag0_def asn1_put_tag_wf
          append_bytes_append)
  next
    case False
    then show ?thesis
      using assms by (simp add: put_command_always_def 1)
  qed
qed

lemma put_command_step:
  assumes "buf_ok buf" "put_command_always [c0, c1, c2, c3] buf = Some b'"
  shows "prev b' = prev buf @ [ARL_COMMAND_TAG, 0x04, c0, c1, c2, c3, ARL_ALWAYS_TAG, 0x00]"
    and "buf_ok b'"
proof -
  let ?c = "[c0, c1, c2, c3]"
  have l: "length ?c = 4" by simp
  from assms(2) have "(if True \<and> length (prev buf) +
        length (ARL_COMMAND_TAG # 0x04 # ?c @ [ARL_ALWAYS_TAG, 0x00]) \<le> unat (size_b buf)
      then Some (append_bytes (ARL_COMMAND_TAG # 0x04 # ?c @ [ARL_ALWAYS_TAG, 0x00]) buf)
      else None) = Some b'"
    unfolding put_command_always_ok [OF assms(1) l] .
  from put_step [OF assms(1) this] have
    r: "b' = append_bytes (ARL_COMMAND_TAG # 0x04 # ?c @ [ARL_ALWAYS_TAG, 0x00]) buf" "buf_ok b'"
    by blast+
  show "buf_ok b'" by (rule r(2))
  show "prev b' = prev buf @ [ARL_COMMAND_TAG, 0x04, c0, c1, c2, c3, ARL_ALWAYS_TAG, 0x00]"
    unfolding r(1) by (simp add: append_bytes_def)
qed

lemma df_pre_ok:
  assumes "(case sc_file_get_acl_entry df SC_AC_OP_UPDATE of
              None \<Rightarrow> Some (buf_init (fresh 128) 128)
            | Some e \<Rightarrow>
                (case asn1_put_tag ARL_COMMAND_TAG
                        [0x00, CARDOS5_PUT_DATA_INS (cmd h), CARDOS5_PUT_DATA_ECD_P1 (cmd h),
                         CARDOS5_PUT_DATA_ECD_P2 (cmd h)] 4 (buf_init (fresh 128) 128) of
                   None \<Rightarrow> None
                 | Some arl \<Rightarrow> add_acl_tag h 0xff (method e) (key_ref e) arl)) = Some arl1"
  shows "arl1 = append_bytes (df_pre h df) (buf_init (fresh 128) 128) \<and> buf_ok arl1"
proof -
  let ?b0 = "buf_init (fresh 128) 128"
  have b0: "buf_ok ?b0" using buf_ok_init [of 128] by simp
  show ?thesis
  proof (cases "sc_file_get_acl_entry df SC_AC_OP_UPDATE")
    case None
    with assms b0 show ?thesis
      by (auto simp: df_pre_def append_bytes_def buf_init_def)
  next
    case (Some e)
    let ?c = "[ARL_COMMAND_TAG, 0x04, 0x00, CARDOS5_PUT_DATA_INS (cmd h),
           CARDOS5_PUT_DATA_ECD_P1 (cmd h), CARDOS5_PUT_DATA_ECD_P2 (cmd h)]"
    have 1: "asn1_put_tag ARL_COMMAND_TAG
                        [0x00, CARDOS5_PUT_DATA_INS (cmd h), CARDOS5_PUT_DATA_ECD_P1 (cmd h),
                         CARDOS5_PUT_DATA_ECD_P2 (cmd h)] 4 ?b0 = Some (append_bytes ?c ?b0)"
      using b0 by (simp add: asn1_put_tag_wf) (simp add: buf_init_def)
    have ok1: "buf_ok (append_bytes ?c ?b0)"
      using b0 by (rule buf_ok_append) (simp add: buf_init_def)
    from assms Some have
      "add_acl_tag h 0xff (method e) (key_ref e) (append_bytes ?c ?b0) = Some arl1"
      by (simp add: 1)
    from put_step [OF ok1 this [unfolded add_acl_tag_ok [OF ok1]]] have
      r: "arl1 = append_bytes (scope_bytes 0xff @ predicate_bytes h (method e) (key_ref e))
             (append_bytes ?c ?b0)" "buf_ok arl1"
      by blast+
    have "df_pre h df = ?c @ predicate_bytes h (method e) (key_ref e)"
      using Some by (simp add: df_pre_def)
    with r show ?thesis
      by (simp add: scope_bytes_def append_bytes_append)
  qed
qed

lemma construct_df_arl_bytes:
  assumes "construct_df_arl h df = Inr arl"
  shows "buf_ok arl \<and> prev arl = df_pre h df @ am_part h df (df_acl h) @ df_post h \<and>
     list_all (\<lambda>a. encodable (entry_method (host_entry df a)) (entry_keyref (host_entry df a)))
       (df_acl h)"
proof -
  from assms obtain arl1 arl2 arl3 arl4 where
    1: "(case sc_file_get_acl_entry df SC_AC_OP_UPDATE of
              None \<Rightarrow> Some (buf_init (fresh 128) 128)
            | Some e \<Rightarrow>
                (case asn1_put_tag ARL_COMMAND_TAG
                        [0x00, CARDOS5_PUT_DATA_INS (cmd h), CARDOS5_PUT_DATA_ECD_P1 (cmd h),
                         CARDOS5_PUT_DATA_ECD_P2 (cmd h)] 4 (buf_init (fresh 128) 128) of
                   None \<Rightarrow> None
                 | Some arl \<Rightarrow> add_acl_tag h 0xff (method e) (key_ref e) arl)) = Some arl1"
    and 2: "df_populate_arl h df (df_acl h) arl1 = Some arl2"
    and 3: "put_command_always
               [CARDOS5_PHASE_CONTROL_CLA (cmd h), CARDOS5_PHASE_CONTROL_INS (cmd h),
                CARDOS5_PHASE_CONTROL_P1_TOGGLE (cmd h),
                CARDOS5_PHASE_CONTROL_P2_TOGGLE (cmd h)] arl2 = Some arl3"
    and 4: "put_command_always
               [CARDOS5_ACCUMULATE_OBJECT_DATA_CLA (cmd h),
                CARDOS5_ACCUMULATE_OBJECT_DATA_INS (cmd h),
                CARDOS5_ACCUMULATE_OBJECT_DATA_P1_NEW (cmd h), 0x00] arl3 = Some arl4"
    and 5: "put_command_always
               [CARDOS5_ACCUMULATE_OBJECT_DATA_CLA (cmd h),
                CARDOS5_ACCUMULATE_OBJECT_DATA_INS (cmd h),
                CARDOS5_ACCUMULATE_OBJECT_DATA_P1_APPEND (cmd h), 0x00] arl4 = Some arl"
    unfolding construct_df_arl_def by (simp split: option.splits)
  let ?b0 = "buf_init (fresh 128) 128"
  from df_pre_ok [OF 1] have a1: "arl1 = append_bytes (df_pre h df) ?b0" and ok1: "buf_ok arl1"
    by blast+
  from df_populate_arl_bytes [OF ok1 2] have
    a2: "arl2 = append_bytes (am_part h df (df_acl h)) arl1" and ok2: "buf_ok arl2"
    and enc: "list_all (\<lambda>a. encodable (entry_method (host_entry df a))
                (entry_keyref (host_entry df a))) (df_acl h)"
    by blast+
  note a3 = put_command_step(1) [OF ok2 3] and ok3 = put_command_step(2) [OF ok2 3]
  note a4 = put_command_step(1) [OF ok3 4] and ok4 = put_command_step(2) [OF ok3 4]
  note a5 = put_command_step(1) [OF ok4 5] and ok5 = put_command_step(2) [OF ok4 5]
  have "prev arl = df_pre h df @ am_part h df (df_acl h) @ df_post h"
    unfolding a5 a4 a3 a2 a1
    by (simp add: append_bytes_def buf_init_def df_post_def)
  with ok5 enc show ?thesis by simp
qed

lemma construct_ef_arl_bytes:
  assumes "construct_ef_arl h ef = Inr arl"
  shows "buf_ok arl \<and> prev arl = am_part h ef (ef_acl h) \<and>
     list_all (\<lambda>a. encodable (entry_method (host_entry ef a))
                      (ucast (ucast (entry_keyref (host_entry ef a)) :: u8))) (ef_acl h)"
proof -
  let ?b0 = "buf_init (fresh 96) 96"
  have b0: "buf_ok ?b0" using buf_ok_init [of 96] by simp
  from assms have "ef_populate_arl h ef (ef_acl h) ?b0 = Some arl"
    by (simp add: construct_ef_arl_def split: option.splits)
  from ef_populate_arl_bytes [OF b0 this] have
    r: "arl = append_bytes (am_part h ef (ef_acl h)) ?b0" "buf_ok arl"
      "list_all (\<lambda>a. encodable (entry_method (host_entry ef a))
                      (ucast (ucast (entry_keyref (host_entry ef a)) :: u8))) (ef_acl h)"
    by blast+
  from r(1) have "prev arl = am_part h ef (ef_acl h)"
    by (simp add: append_bytes_def buf_init_def)
  with r(2,3) show ?thesis by simp
qed

lemma decode_round_trip:
  "legal_method (entry_method e) \<Longrightarrow>
   decode h (entry_method e) (entry_keyref e) = round_trip_entry h e"
  by (cases e; cases "method (the e)")
     (simp_all add: decode_def round_trip_entry_def entry_method_def entry_keyref_def
        legal_method_def)

lemma decoded_part_round_trip:
  "list_all (\<lambda>a. legal_method (entry_method (host_entry f a))) tbl \<Longrightarrow>
   decoded_part h f tbl = round_trip_acl h f tbl"
proof (induction tbl)
  case Nil
  show ?case by (simp add: decoded_part_def round_trip_acl_def)
next
  case (Cons a tbl)
  then have l: "legal_method (entry_method (host_entry f a))"
    and r: "decoded_part h f tbl = round_trip_acl h f tbl"
    by simp_all
  have "(case snd a of None \<Rightarrow> []
         | Some operation \<Rightarrow> [(operation, decode h (entry_method (host_entry f a))
                                          (entry_keyref (host_entry f a)))]) =
        (case snd a of None \<Rightarrow> []
         | Some operation \<Rightarrow>
             [(operation, round_trip_entry h (sc_file_get_acl_entry f operation))])"
    using decode_round_trip [OF l, of h]
    by (cases "snd a") (simp_all add: host_entry_def)
  with r show ?case by (simp add: decoded_part_def round_trip_acl_def)
qed

lemma parse_df_loop_nil: "parse_df_loop h g [] = Inr g"
  by (subst parse_df_loop.simps) simp

lemma parse_ef_arl_nil: "parse_ef_arl h g [] = Inr g"
  by (subst parse_ef_arl.simps) simp

lemma parse_df_post: "parse_df_loop h g (df_post h) = Inr g"
proof -
  have p: "predicate_bytes h SC_AC_NONE 0 = [ARL_ALWAYS_TAG, 0x00]"
    by (simp add: predicate_bytes_def)
  have "df_post h =
     ARL_COMMAND_TAG # 0x04 # CARDOS5_PHASE_CONTROL_CLA (cmd h) # CARDOS5_PHASE_CONTROL_INS (cmd h) #
      CARDOS5_PHASE_CONTROL_P1_TOGGLE (cmd h) # CARDOS5_PHASE_CONTROL_P2_TOGGLE (cmd h) #
      predicate_bytes h SC_AC_NONE 0 @
     (ARL_COMMAND_TAG # 0x04 # CARDOS5_ACCUMULATE_OBJECT_DATA_CLA (cmd h) #
      CARDOS5_ACCUMULATE_OBJECT_DATA_INS (cmd h) # CARDOS5_ACCUMULATE_OBJECT_DATA_P1_NEW (cmd h) #
      0x00 # predicate_bytes h SC_AC_NONE 0 @
     (ARL_COMMAND_TAG # 0x04 # CARDOS5_ACCUMULATE_OBJECT_DATA_CLA (cmd h) #
      CARDOS5_ACCUMULATE_OBJECT_DATA_INS (cmd h) # CARDOS5_ACCUMULATE_OBJECT_DATA_P1_APPEND (cmd h) #
      0x00 # predicate_bytes h SC_AC_NONE 0 @ []))"
    unfolding p by (simp add: df_post_def)
  then show ?thesis
    by (simp only: parse_df_loop_command parse_df_loop_nil)
qed

lemma parse_df_pre: "parse_df_loop h g (df_pre h df @ rest) = parse_df_loop h g rest"
  by (cases "sc_file_get_acl_entry df SC_AC_OP_UPDATE")
     (simp_all add: df_pre_def parse_df_loop_command)

lemma encodable_all_legal:
  "list_all (\<lambda>a. encodable (entry_method (host_entry f a)) (k a)) tbl \<Longrightarrow>
   list_all (\<lambda>a. legal_method (entry_method (host_entry f a))) tbl"
  by (induction tbl) (auto intro: encodable_legal)

lemma df_round_trip:
  assumes "construct_df_arl h df = Inr arl"
    "distinct (map fst (df_acl h))" "0xff \<notin> fst ` set (df_acl h)"
  shows "parse_df_arl h g (arl_bytes arl) = Inr (g\<lparr>acl := acl g @ round_trip_acl h df (df_acl h)\<rparr>)"
proof -
  from construct_df_arl_bytes [OF assms(1)] have ok: "buf_ok arl"
    and b: "prev arl = df_pre h df @ am_part h df (df_acl h) @ df_post h"
    and e: "list_all (\<lambda>a. encodable (entry_method (host_entry df a))
              (entry_keyref (host_entry df a))) (df_acl h)"
    by blast+
  from e have l: "list_all (\<lambda>a. legal_method (entry_method (host_entry df a))) (df_acl h)"
    by (rule encodable_all_legal)
  have "length (df_post h) = 24" by (simp add: df_post_def)
  then have n9: "length (arl_bytes arl) \<noteq> 9"
    by (simp add: arl_bytes_ok [OF ok] b)
  have "parse_df_arl h g (arl_bytes arl) =
        parse_df_loop h g (df_pre h df @ am_part h df (df_acl h) @ df_post h)"
    using n9 by (simp add: parse_df_arl_def) (simp add: arl_bytes_ok [OF ok] b)
  also have "\<dots> = parse_df_loop h (g\<lparr>acl := acl g @ decoded_part h df (df_acl h)\<rparr>) (df_post h)"
    by (simp only: parse_df_pre parse_df_am_part [OF assms(2,3) subset_refl l])
  also have "\<dots> = Inr (g\<lparr>acl := acl g @ round_trip_acl h df (df_acl h)\<rparr>)"
    by (simp only: parse_df_post decoded_part_round_trip [OF l])
  finally show ?thesis .
qed

lemma ef_round_trip:
  assumes "construct_ef_arl h ef = Inr arl"
    "distinct (map fst (ef_acl h))" "0xff \<notin> fst ` set (ef_acl h)"
  shows "parse_ef_arl h g (arl_bytes arl) = Inr (g\<lparr>acl := acl g @ round_trip_acl h ef (ef_acl h)\<rparr>)"
proof -
  from construct_ef_arl_bytes [OF assms(1)] have ok: "buf_ok arl"
    and b: "prev arl = am_part h ef (ef_acl h)"
    and e: "list_all (\<lambda>a. encodable (entry_method (host_entry ef a))
              (ucast (ucast (entry_keyref (host_entry ef a)) :: u8))) (ef_acl h)"
    by blast+
  from e have l: "list_all (\<lambda>a. legal_method (entry_method (host_entry ef a))) (ef_acl h)"
    by (rule encodable_all_legal)
  have "parse_ef_arl h g (arl_bytes arl) = parse_ef_arl h g (am_part h ef (ef_acl h) @ [])"
    by (simp add: arl_bytes_ok [OF ok] b)
  also have "\<dots> = Inr (g\<lparr>acl := acl g @ round_trip_acl h ef (ef_acl h)\<rparr>)"
    by (simp only: parse_ef_am_part [OF assms(2,3) subset_refl l] parse_ef_arl_nil
        decoded_part_round_trip [OF l])
  finally show ?thesis .
qed

lemma construct_fcp_arl:
  assumes "construct_fcp h f buf = Inr buf'"
  shows "\<exists>arl. fcp_arl h f = Inr arl"
  using assms
  by (cases "type_f f")
     (auto simp: construct_fcp_def fcp_arl_def construct_df_fcp_def construct_ef_fcp_def
        split: sum.splits if_splits option.splits)

lemma add_all_none_result:
  "add_all_none h g tbl =
     Inr (g\<lparr>acl := acl g @
            map (\<lambda>operation. (operation, \<lparr>method = SC_AC_NONE, key_ref = SC_AC_KEY_REF_NONE h\<rparr>))
              (List.map_filter snd tbl)\<rparr>)"
proof (induction tbl arbitrary: g)
  case Nil
  show ?case by (simp add: map_filter_simps)
next
  case (Cons a tbl)
  show ?case
    by (cases "snd a") (simp_all add: Cons.IH map_filter_simps sc_file_add_acl_entry_def)
qed

text \<open>
  C5. The claim gives the MF pattern as the seven bytes AM_TAG, 0x01, 0xFF, DUMMY_TAG,
  DUMMY_LEN, ALWAYS_TAG, ALWAYS_LEN. A payload of exactly these bytes does not take the
  special case of \<^verbatim>\<open>parse_df_arl\<close>, which asks for nine bytes: it is parsed as an ordinary
  list, and the AM byte 0xFF, absent from the DF table, makes the parse fail.
\<close>

theorem mf_pattern_counterexample:
  "parse_arl example_header example_df
     [ARL_ACCESS_MODE_BYTE_TAG, 0x01, 0xFF, ARL_DUMMY_TAG (tag example_header),
      ARL_DUMMY_LEN (tag example_header), ARL_ALWAYS_TAG, ARL_ALWAYS_LEN] =
   Inl SC_ERROR_NO_CARD_SUPPORT"
  by (simp add: parse_arl_def example_df_def parse_df_arl_def parse_df_loop.simps
      df_acl_def example_header_def arl_macros)

text \<open>
  C5, amended. For a DF and a payload of exactly nine bytes whose bytes 5 to 8 are
  DUMMY_TAG, DUMMY_LEN, ALWAYS_TAG, ALWAYS_LEN (bytes 0 to 4 are not inspected),
  \<^verbatim>\<open>parse_arl\<close> succeeds and adds, for every row of the DF AM-byte table that has an
  operation, in table order, that operation with method None and key reference
  \<^verbatim>\<open>SC_AC_KEY_REF_NONE\<close>.
\<close>

theorem mf_pattern_all_none:
  assumes "type_f g = SC_FILE_TYPE_DF" "length arl = 9"
    "arl ! 5 = ARL_DUMMY_TAG (tag h)" "arl ! 6 = ARL_DUMMY_LEN (tag h)"
    "arl ! 7 = ARL_ALWAYS_TAG" "arl ! 8 = ARL_ALWAYS_LEN"
  shows "parse_arl h g arl =
     Inr (g\<lparr>acl := acl g @
            map (\<lambda>operation. (operation, \<lparr>method = SC_AC_NONE, key_ref = SC_AC_KEY_REF_NONE h\<rparr>))
              (List.map_filter snd (df_acl h))\<rparr>)"
  using assms by (simp add: parse_arl_def parse_df_arl_def add_all_none_result)

theorem mf_pattern_all_none_witness:
  "parse_arl example_header example_df
     [0x80, 0x01, 0xFF, 0x00, 0x00, 0x81, 0x00, 0x90, 0x00] =
   Inr (example_df\<lparr>acl := acl example_df @
     [(SC_AC_OP_DELETE, \<lparr>method = SC_AC_NONE, key_ref = 0xFFFFFFFF\<rparr>),
      (SC_AC_OP_REHABILITATE, \<lparr>method = SC_AC_NONE, key_ref = 0xFFFFFFFF\<rparr>),
      (SC_AC_OP_INVALIDATE, \<lparr>method = SC_AC_NONE, key_ref = 0xFFFFFFFF\<rparr>),
      (SC_AC_OP_CREATE, \<lparr>method = SC_AC_NONE, key_ref = 0xFFFFFFFF\<rparr>),
      (SC_AC_OP_CREATE, \<lparr>method = SC_AC_NONE, key_ref = 0xFFFFFFFF\<rparr>),
      (SC_AC_OP_CREATE, \<lparr>method = SC_AC_NONE, key_ref = 0xFFFFFFFF\<rparr>),
      (SC_AC_OP_UPDATE, \<lparr>method = SC_AC_NONE, key_ref = 0xFFFFFFFF\<rparr>),
      (SC_AC_OP_CREATE, \<lparr>method = SC_AC_NONE, key_ref = 0xFFFFFFFF\<rparr>)]\<rparr>)"
  using mf_pattern_all_none [of example_df "[0x80, 0x01, 0xFF, 0x00, 0x00, 0x81, 0x00, 0x90, 0x00]"
      example_header]
  by (simp add: example_df_def example_header_def df_acl_def arl_macros map_filter_simps)

text \<open>
  C8. The claim counts two command entries at the end of a DF's list. For the example DF
  the bytes after the per-AM-entry predicates are three entries of eight bytes: PHASE
  CONTROL toggle, ACCUMULATE OBJECT DATA with P1 = new and ACCUMULATE OBJECT DATA with
  P1 = append.
\<close>

theorem df_arl_trailer_counterexample:
  "\<exists>arl. construct_df_arl example_header example_df = Inr arl \<and>
     drop (length (am_part example_header example_df (df_acl example_header))) (arl_bytes arl) =
       [0x84, 0x04, 0x80, 0x10, 0x00, 0x00, 0x90, 0x00] @
       [0x84, 0x04, 0x80, 0xE6, 0x01, 0x00, 0x90, 0x00] @
       [0x84, 0x04, 0x80, 0xE6, 0x00, 0x00, 0x90, 0x00]"
proof -
  have "\<exists>arl. construct_df_arl example_header example_df = Inr arl"
    by (simp add: construct_df_arl_def example_df_def sc_file_get_acl_entry_def
        add_acl_tag_def asn1_put_tag_def asn1_put_tag0_def asn1_put_tag1_def
        sc_asn1_put_tag_def put_command_always_def buf_init_def fresh_def
        df_acl_def example_header_def arl_macros UINT8_MAX_def Let_def)
  then obtain arl where a: "construct_df_arl example_header example_df = Inr arl" ..
  from construct_df_arl_bytes [OF a] have "buf_ok arl"
    and "prev arl = df_pre example_header example_df @
           am_part example_header example_df (df_acl example_header) @ df_post example_header"
    by blast+
  then have "drop (length (am_part example_header example_df (df_acl example_header)))
      (arl_bytes arl) = df_post example_header"
    by (simp add: arl_bytes_ok df_pre_def example_df_def sc_file_get_acl_entry_def)
  with a show ?thesis
    by (simp add: df_post_def example_header_def arl_macros)
qed

text \<open>
  C8, amended. Whenever the access rule list of a DF is built, it is the optional PUT DATA
  command entry, the per-AM-entry predicates, and then three command-scoped Always
  entries, each CMD_TAG 0x04 CLA INS P1 P2 ALWAYS_TAG 0x00: PHASE CONTROL toggle,
  ACCUMULATE OBJECT DATA with P1 = new, ACCUMULATE OBJECT DATA with P1 = append.
\<close>

theorem df_arl_trailer:
  assumes "construct_df_arl h df = Inr arl"
  shows "arl_bytes arl =
     df_pre h df @ am_part h df (df_acl h) @
     [ARL_COMMAND_TAG, 0x04, CARDOS5_PHASE_CONTROL_CLA (cmd h), CARDOS5_PHASE_CONTROL_INS (cmd h),
      CARDOS5_PHASE_CONTROL_P1_TOGGLE (cmd h), CARDOS5_PHASE_CONTROL_P2_TOGGLE (cmd h),
      ARL_ALWAYS_TAG, 0x00] @
     [ARL_COMMAND_TAG, 0x04, CARDOS5_ACCUMULATE_OBJECT_DATA_CLA (cmd h),
      CARDOS5_ACCUMULATE_OBJECT_DATA_INS (cmd h), CARDOS5_ACCUMULATE_OBJECT_DATA_P1_NEW (cmd h),
      0x00, ARL_ALWAYS_TAG, 0x00] @
     [ARL_COMMAND_TAG, 0x04, CARDOS5_ACCUMULATE_OBJECT_DATA_CLA (cmd h),
      CARDOS5_ACCUMULATE_OBJECT_DATA_INS (cmd h), CARDOS5_ACCUMULATE_OBJECT_DATA_P1_APPEND (cmd h),
      0x00, ARL_ALWAYS_TAG, 0x00]"
proof -
  from construct_df_arl_bytes [OF assms] have "buf_ok arl"
    and "prev arl = df_pre h df @ am_part h df (df_acl h) @ df_post h"
    by blast+
  then show ?thesis by (simp add: arl_bytes_ok df_post_def)
qed

lemmas eval_builder =
  construct_fcp_def construct_df_fcp_def construct_ef_fcp_def construct_df_arl_def
  construct_ef_arl_def sc_file_get_acl_entry_def add_acl_tag_def asn1_put_tag_def
  asn1_put_tag0_def asn1_put_tag1_def sc_asn1_put_tag_def put_command_always_def buf_init_def
  fresh_def array_def df_acl_def ef_acl_def example_header_def arl_macros UINT8_MAX_def
  UINT16_MAX_def Let_def

theorem df_arl_trailer_witness:
  "\<exists>arl. construct_df_arl example_header example_df = Inr arl \<and>
     arl_bytes arl =
       [0x80, 0x01, 0x40, 0x97, 0x00, 0x80, 0x01, 0x20, 0x97, 0x00, 0x80, 0x01, 0x10, 0x97, 0x00,
        0x80, 0x01, 0x08, 0x97, 0x00,
        0x80, 0x01, 0x04, 0xA4, 0x06, 0x83, 0x01, 0x01, 0x95, 0x01, 0x08,
        0x80, 0x01, 0x02, 0xA4, 0x06, 0x83, 0x01, 0x01, 0x95, 0x01, 0x08,
        0x80, 0x01, 0x01, 0x97, 0x00,
        0x80, 0x01, 0x81, 0xA4, 0x06, 0x83, 0x01, 0x01, 0x95, 0x01, 0x08,
        0x80, 0x01, 0x82, 0x97, 0x00, 0x80, 0x01, 0x84, 0x97, 0x00,
        0x80, 0x01, 0x88, 0xA4, 0x06, 0x83, 0x01, 0x01, 0x95, 0x01, 0x08,
        0x84, 0x04, 0x80, 0x10, 0x00, 0x00, 0x90, 0x00,
        0x84, 0x04, 0x80, 0xE6, 0x01, 0x00, 0x90, 0x00,
        0x84, 0x04, 0x80, 0xE6, 0x00, 0x00, 0x90, 0x00]"
proof -
  have "\<exists>arl. construct_df_arl example_header example_df = Inr arl"
    by (simp add: example_df_def eval_builder)
  then obtain arl where a: "construct_df_arl example_header example_df = Inr arl" ..
  from df_arl_trailer [OF a] a show ?thesis
    by (simp add: df_pre_def am_part_def scope_bytes_def predicate_bytes_def host_entry_def
        entry_method_def entry_keyref_def example_df_def sc_file_get_acl_entry_def
        df_acl_def example_header_def arl_macros)
qed

lemma chv_round_trip:
  assumes "encodable SC_AC_CHV kr \<or> encodable SC_AC_CHV (ucast (ucast kr :: u8)) \<and> kr \<le> 0xFF"
  shows "round_trip_entry h (Some \<lparr>method = SC_AC_CHV, key_ref = kr\<rparr>) =
         \<lparr>method = SC_AC_CHV, key_ref = kr\<rparr>"
proof -
  from assms have "kr \<le> 0xFF \<and> kr AND 0x80 = 0"
    by (auto simp: encodable_def BACKTRACK_PIN_def UINT8_MAX_def keyref_byte_trunc)
  then have "ucast ((ucast kr :: u8) AND 0x7F) = kr"
    by (simp add: keyref_byte)
  then show ?thesis by (simp add: round_trip_entry_def BACKTRACK_MASK_def)
qed

lemma fcp_arl_encodable:
  assumes "fcp_arl h f = Inr arl" "a \<in> set (am_table h f)"
  shows "encodable (entry_method (host_entry f a)) (entry_keyref (host_entry f a)) \<or>
         encodable (entry_method (host_entry f a))
           (ucast (ucast (entry_keyref (host_entry f a)) :: u8))"
proof (cases "type_f f")
  case SC_FILE_TYPE_DF
  with assms have "construct_df_arl h f = Inr arl" "a \<in> set (df_acl h)"
    by (simp_all add: fcp_arl_def am_table_def)
  with construct_df_arl_bytes [of h f arl] show ?thesis
    by (auto simp: list_all_iff)
next
  case SC_FILE_TYPE_WORKING_EF
  with assms have "construct_ef_arl h f = Inr arl" "a \<in> set (ef_acl h)"
    by (simp_all add: fcp_arl_def am_table_def)
  with construct_ef_arl_bytes [of h f arl] show ?thesis
    by (auto simp: list_all_iff)
next
  case (SC_FILE_TYPE_other x)
  with assms show ?thesis by (simp add: fcp_arl_def)
qed

lemma fcp_arl_parse:
  assumes "fcp_arl h f = Inr arl"
    "distinct (map fst (am_table h f))" "0xff \<notin> fst ` set (am_table h f)"
    "type_f g = type_f f"
  shows "parse_arl h g (arl_bytes arl) = Inr (g\<lparr>acl := acl g @ round_trip_acl h f (am_table h f)\<rparr>)"
proof (cases "type_f f")
  case SC_FILE_TYPE_DF
  with assms show ?thesis
    by (simp add: fcp_arl_def am_table_def parse_arl_def df_round_trip)
next
  case SC_FILE_TYPE_WORKING_EF
  with assms show ?thesis
    by (simp add: fcp_arl_def am_table_def parse_arl_def ef_round_trip)
next
  case (SC_FILE_TYPE_other x)
  with assms show ?thesis by (simp add: fcp_arl_def)
qed

text \<open>
  C1. The claim has every legal entry reproduced by the round trip. An EF whose Read entry
  has method TERM and key reference 1 is legal and \<^verbatim>\<open>construct_fcp\<close> succeeds on it, yet
  the parsed file has method CHV for Read: TERM, AUT and CHV share one encoding.
\<close>

theorem arl_round_trip_counterexample:
  "(\<exists>buf'. construct_fcp example_header term_file (buf_init (fresh 256) 256) = Inr buf') \<and>
   (\<exists>arl g'. fcp_arl example_header term_file = Inr arl \<and>
      parse_arl example_header example_file (arl_bytes arl) = Inr g' \<and>
      sc_file_get_acl_entry term_file SC_AC_OP_READ =
        Some \<lparr>method = SC_AC_TERM, key_ref = 0x01\<rparr> \<and>
      sc_file_get_acl_entry g' SC_AC_OP_READ = Some \<lparr>method = SC_AC_CHV, key_ref = 0x01\<rparr>)"
proof -
  have 1: "\<exists>buf'. construct_fcp example_header term_file (buf_init (fresh 256) 256) = Inr buf'"
    by (simp add: term_file_def example_file_def eval_builder)
  then obtain arl where a: "fcp_arl example_header term_file = Inr arl"
    using construct_fcp_arl by blast
  have t: "type_f example_file = type_f term_file"
    by (simp add: term_file_def)
  have d: "distinct (map fst (am_table example_header term_file))"
    "0xff \<notin> fst ` set (am_table example_header term_file)"
    by (simp_all add: am_table_def term_file_def example_file_def ef_acl_def example_header_def)
  have "sc_file_get_acl_entry
          (example_file\<lparr>acl := acl example_file @
             round_trip_acl example_header term_file (am_table example_header term_file)\<rparr>)
          SC_AC_OP_READ = Some \<lparr>method = SC_AC_CHV, key_ref = 0x01\<rparr>"
    by (simp add: round_trip_acl_def round_trip_entry_def am_table_def term_file_def
        example_file_def ef_acl_def example_header_def sc_file_get_acl_entry_def
        BACKTRACK_MASK_def)
  moreover have "sc_file_get_acl_entry term_file SC_AC_OP_READ =
        Some \<lparr>method = SC_AC_TERM, key_ref = 0x01\<rparr>"
    by (simp add: term_file_def sc_file_get_acl_entry_def)
  ultimately show ?thesis
    using 1 a fcp_arl_parse [OF a d t] by blast
qed

text \<open>
  C1, amended. Let the AM bytes of the table for the kind of \<open>f\<close> be distinct and none be
  0xFF. If \<^verbatim>\<open>construct_fcp\<close> succeeds on \<open>f\<close>, then the access rule list it built parses,
  into any file \<open>g\<close> of the same type, successfully, and the parse appends to the entries of
  \<open>g\<close>, for each row of the table that has an operation, in table order, the round-trip
  entry of the first entry \<open>f\<close> has for that operation: None and Never keep their method
  and carry \<^verbatim>\<open>SC_AC_KEY_REF_NONE\<close>, CHV, TERM and AUT come back as CHV with the low seven
  bits of the key reference, and an operation with no entry comes back as Never. In
  particular a CHV entry whose key reference is a byte comes back unchanged.
\<close>

theorem arl_round_trip:
  assumes "construct_fcp h f buf = Inr buf'"
    "distinct (map fst (am_table h f))" "0xff \<notin> fst ` set (am_table h f)"
    "type_f g = type_f f"
  shows "\<exists>arl. fcp_arl h f = Inr arl \<and>
     parse_arl h g (arl_bytes arl) =
       Inr (g\<lparr>acl := acl g @ round_trip_acl h f (am_table h f)\<rparr>) \<and>
     (\<forall>a\<in>set (am_table h f). \<forall>operation e.
        snd a = Some operation \<longrightarrow> sc_file_get_acl_entry f operation = Some e \<longrightarrow>
        method e = SC_AC_CHV \<longrightarrow> key_ref e \<le> 0xFF \<longrightarrow> round_trip_entry h (Some e) = e)"
proof -
  from construct_fcp_arl [OF assms(1)] obtain arl where a: "fcp_arl h f = Inr arl" ..
  have "round_trip_entry h (Some e) = e"
    if "x \<in> set (am_table h f)" "snd x = Some operation"
      "sc_file_get_acl_entry f operation = Some e" "method e = SC_AC_CHV" "key_ref e \<le> 0xFF"
    for x operation e
  proof -
    from that(2,3) have he: "host_entry f x = Some e" by (simp add: host_entry_def)
    from fcp_arl_encodable [OF a that(1)] that(4,5)
    have "encodable SC_AC_CHV (key_ref e) \<or>
          encodable SC_AC_CHV (ucast (ucast (key_ref e) :: u8)) \<and> key_ref e \<le> 0xFF"
      by (simp add: he entry_method_def entry_keyref_def)
    from chv_round_trip [OF this, of h] that(4) show ?thesis
      by (cases e) simp
  qed
  with a fcp_arl_parse [OF a assms(2,3,4)] show ?thesis by blast
qed

theorem arl_round_trip_witness:
  "(\<exists>buf'. construct_fcp example_header example_df (buf_init (fresh 256) 256) = Inr buf') \<and>
   (\<exists>arl. fcp_arl example_header example_df = Inr arl \<and>
      parse_arl example_header (example_df\<lparr>acl := []\<rparr>) (arl_bytes arl) =
        Inr (example_df\<lparr>acl :=
          [(SC_AC_OP_DELETE, \<lparr>method = SC_AC_NEVER, key_ref = 0xFFFFFFFF\<rparr>),
           (SC_AC_OP_REHABILITATE, \<lparr>method = SC_AC_NEVER, key_ref = 0xFFFFFFFF\<rparr>),
           (SC_AC_OP_INVALIDATE, \<lparr>method = SC_AC_NEVER, key_ref = 0xFFFFFFFF\<rparr>),
           (SC_AC_OP_CREATE, \<lparr>method = SC_AC_CHV, key_ref = 0x01\<rparr>),
           (SC_AC_OP_CREATE, \<lparr>method = SC_AC_CHV, key_ref = 0x01\<rparr>),
           (SC_AC_OP_CREATE, \<lparr>method = SC_AC_CHV, key_ref = 0x01\<rparr>),
           (SC_AC_OP_UPDATE, \<lparr>method = SC_AC_NEVER, key_ref = 0xFFFFFFFF\<rparr>),
           (SC_AC_OP_CREATE, \<lparr>method = SC_AC_CHV, key_ref = 0x01\<rparr>)]\<rparr>))"
proof -
  have 1: "\<exists>buf'. construct_fcp example_header example_df (buf_init (fresh 256) 256) = Inr buf'"
    by (simp add: example_df_def eval_builder)
  then obtain b where b: "construct_fcp example_header example_df (buf_init (fresh 256) 256) = Inr b"
    ..
  have d: "distinct (map fst (am_table example_header example_df))"
    "0xff \<notin> fst ` set (am_table example_header example_df)"
    "type_f (example_df\<lparr>acl := []\<rparr>) = type_f example_df"
    by (simp_all add: am_table_def example_df_def df_acl_def example_header_def)
  have r: "round_trip_acl example_header example_df (am_table example_header example_df) =
          [(SC_AC_OP_DELETE, \<lparr>method = SC_AC_NEVER, key_ref = 0xFFFFFFFF\<rparr>),
           (SC_AC_OP_REHABILITATE, \<lparr>method = SC_AC_NEVER, key_ref = 0xFFFFFFFF\<rparr>),
           (SC_AC_OP_INVALIDATE, \<lparr>method = SC_AC_NEVER, key_ref = 0xFFFFFFFF\<rparr>),
           (SC_AC_OP_CREATE, \<lparr>method = SC_AC_CHV, key_ref = 0x01\<rparr>),
           (SC_AC_OP_CREATE, \<lparr>method = SC_AC_CHV, key_ref = 0x01\<rparr>),
           (SC_AC_OP_CREATE, \<lparr>method = SC_AC_CHV, key_ref = 0x01\<rparr>),
           (SC_AC_OP_UPDATE, \<lparr>method = SC_AC_NEVER, key_ref = 0xFFFFFFFF\<rparr>),
           (SC_AC_OP_CREATE, \<lparr>method = SC_AC_CHV, key_ref = 0x01\<rparr>)]"
    by (simp add: round_trip_acl_def round_trip_entry_def am_table_def example_df_def
        df_acl_def example_header_def sc_file_get_acl_entry_def BACKTRACK_MASK_def)
  from arl_round_trip [OF b d] obtain arl where
    "fcp_arl example_header example_df = Inr arl"
    "parse_arl example_header (example_df\<lparr>acl := []\<rparr>) (arl_bytes arl) =
       Inr (example_df\<lparr>acl := []\<rparr>\<lparr>acl := acl (example_df\<lparr>acl := []\<rparr>) @
          round_trip_acl example_header example_df (am_table example_header example_df)\<rparr>)"
    by blast
  with 1 show ?thesis unfolding r by auto
qed


subsection \<open>The signature post-processor\<close>

lemma guard_wraps:
  fixes bu sz len :: size_t
  assumes "bu < sz" "sz \<le> SSIZE_MAX" "len \<le> UINT16_MAX"
  shows "\<not> bu - sz < len"
proof -
  have "unat (bu - sz) = unat bu + 2 ^ 64 - unat sz"
    using assms(1) by (simp add: unat_sub_if_size word_size word_less_nat_alt)
  moreover have "unat sz \<le> 9223372036854775807" "unat len \<le> 65535"
    using assms(2,3) by (simp_all add: word_le_nat_alt SSIZE_MAX_def UINT16_MAX_def)
  ultimately show ?thesis
    by (simp add: word_less_nat_alt)
qed

lemma room_1: fixes bu sz :: size_t
  shows "unat bu + 2 < unat sz \<Longrightarrow> bu \<noteq> sz \<and> bu + 1 \<noteq> sz \<and> bu + 1 + 1 < sz"
  by unat_arith

lemma room_2: fixes bu sz :: size_t
  shows "unat bu + 3 < unat sz \<Longrightarrow> bu \<noteq> sz \<and> \<not> sz - (bu + 1) < 2 \<and> bu + 1 + 2 < sz"
  by unat_arith

lemma room_3: fixes bu sz :: size_t
  shows "unat bu + 4 < unat sz \<Longrightarrow> bu \<noteq> sz \<and> \<not> sz - (bu + 1) < 3 \<and> bu + 1 + 3 < sz"
  by unat_arith

lemma bertlv_put_tag_ok:
  assumes "buf_ok buf" "len \<le> UINT16_MAX" "unat len \<le> length dat"
    "length (prev buf) + 1 + length (ber_length len) < unat (size_b buf)"
    "size_b buf \<le> SSIZE_MAX"
  shows "bertlv_put_tag t dat len buf =
           (0, append_bytes (t # ber_length len @ take (unat len) dat) buf)"
proof -
  have u: "unat (bytes_used buf) = length (prev buf)"
    using assms(1) by (rule buf_ok_unat)
  have n: "\<not> len > UINT16_MAX" using assms(2) by simp
  consider (short) "len < 0x80" | (mid) "\<not> len < 0x80" "len < 0xFF"
    | (long) "\<not> len < 0x80" "\<not> len < 0xFF"
    by blast
  then show ?thesis
  proof cases
    case short
    with assms(4) u have "unat (bytes_used buf) + 2 < unat (size_b buf)"
      by (simp add: ber_length_def)
    from room_1 [OF this] have r: "bytes_used buf \<noteq> size_b buf"
      "bytes_used buf + 1 \<noteq> size_b buf" "bytes_used buf + 1 + 1 < size_b buf"
      by blast+
    from guard_wraps [OF r(3) assms(5,2)] r(1,2) short n assms(3) show ?thesis
      by (simp add: bertlv_put_tag_def Let_def put_byte_def put_bytes_def append_bytes_def
          ber_length_def min_absorb2)
  next
    case mid
    with assms(4) u have "unat (bytes_used buf) + 3 < unat (size_b buf)"
      by (simp add: ber_length_def)
    from room_2 [OF this] have r: "bytes_used buf \<noteq> size_b buf"
      "\<not> size_b buf - (bytes_used buf + 1) < 2" "bytes_used buf + 1 + 2 < size_b buf"
      by blast+
    from guard_wraps [OF r(3) assms(5,2)] r(1,2) mid n assms(3) show ?thesis
      by (simp add: bertlv_put_tag_def Let_def put_byte_def put_bytes_def append_bytes_def
          ber_length_def min_absorb2)
  next
    case long
    with assms(4) u have "unat (bytes_used buf) + 4 < unat (size_b buf)"
      by (simp add: ber_length_def)
    from room_3 [OF this] have r: "bytes_used buf \<noteq> size_b buf"
      "\<not> size_b buf - (bytes_used buf + 1) < 3" "bytes_used buf + 1 + 3 < size_b buf"
      by blast+
    from guard_wraps [OF r(3) assms(5,2)] r(1,2) long n assms(3) show ?thesis
      by (simp add: bertlv_put_tag_def Let_def put_byte_def put_bytes_def append_bytes_def
          ber_length_def min_absorb2)
  qed
qed

lemma unat_of_nat_small: "n < 2 ^ 64 \<Longrightarrow> unat (of_nat n :: size_t) = n"
  by (simp add: unat_of_nat)

lemma raw_ok_bound: "raw_ok s \<Longrightarrow> length (prev s) + length (ptr s) < 2 ^ 64"
  using unsigned_less [of "size_b s", where 'a = nat] by (simp add: raw_ok_def)

lemma raw_room:
  assumes "raw_ok s" "k \<le> length (ptr s)"
  shows "unat (size_b s - (bytes_used s + of_nat k)) = length (ptr s) - k"
proof -
  from assms(1) have b: "bytes_used s = of_nat (length (prev s))"
    and t: "length (prev s) + length (ptr s) = unat (size_b s)"
    by (simp_all add: raw_ok_def buf_ok_def)
  from raw_ok_bound [OF assms(1)] assms(2) have "length (prev s) + k < 2 ^ 64" by simp
  then have u: "unat (bytes_used s + of_nat k) = length (prev s) + k"
    unfolding b by (metis of_nat_add unat_of_nat_small)
  then have "bytes_used s + of_nat k \<le> size_b s"
    using assms(2) t by (simp add: word_le_nat_alt)
  then show ?thesis using u t by (simp add: unat_sub)
qed

lemma raw_ok_skip:
  assumes "raw_ok s" "k \<le> length (ptr s)"
  shows "raw_ok (skip k s)"
  using assms by (simp add: raw_ok_def buf_ok_def skip_def)

lemma advance_skip: "n < 2 ^ 64 \<Longrightarrow> advance (of_nat n) s = skip n s"
  by (simp add: advance_def skip_def unat_of_nat_small)

lemma ucast_of_nat_u8: "(ucast (of_nat n :: size_t) :: u8) = of_nat n"
  by (rule bit_eqI) (auto simp: bit_simps)

lemma extract_coordinate_ok:
  assumes "raw_ok s" "raw_len c = of_nat n" "n < 127" "n \<le> length (ptr s)" "ptr s \<noteq> []"
    "calloc_ok v (of_nat n + 3)" "calloc_ok v (of_nat n + 2)"
    "type_c crd = SC_CARD_TYPE_CARDOS_V5_0 \<longrightarrow> n + 2 \<le> length (ptr s)"
  shows "extract_coordinate v crd c s =
     Inr (c\<lparr>encoded_len := of_nat (length (der_integer n (ptr s))),
             encoded_ptr := der_integer n (ptr s)\<rparr>,
          if type_c crd = SC_CARD_TYPE_CARDOS_V5_0 then skip 2 (skip n s) else skip n s)"
proof -
  have n64: "n < 2 ^ 64" using assms(3) by simp
  have un: "unat (of_nat n :: size_t) = n" using n64 by (rule unat_of_nat_small)
  from raw_room [OF assms(1), of 0] have "unat (size_b s - bytes_used s) = length (ptr s)"
    by simp
  then have g1: "\<not> size_b s - bytes_used s < raw_len c"
    using assms(2,4) un by (simp add: word_less_nat_alt)
  have g2: "\<not> raw_len c \<ge> INT8_MAX"
    using assms(2,3) un by (simp add: INT8_MAX_def word_le_nat_alt)
  have g3: "\<not> length (ptr s) < unat (raw_len c)"
    using assms(2,4) un by simp
  have h: "ptr s ! 0 = hd (ptr s)"
    using assms(5) by (simp add: hd_conv_nth)
  have a: "advance (of_nat n) s = skip n s"
    using n64 by (rule advance_skip)
  have a2: "advance 2 (skip n s) = skip 2 (skip n s)"
    using advance_skip [of 2 "skip n s"] by simp
  have okn: "raw_ok (skip n s)" using assms(1,4) by (rule raw_ok_skip)
  have g4: "\<not> size_b (skip n s) - bytes_used (skip n s) < 2"
    if "type_c crd = SC_CARD_TYPE_CARDOS_V5_0"
  proof -
    from that assms(8) have "2 \<le> length (ptr (skip n s))" by (simp add: skip_def)
    with raw_room [OF okn, of 0] show ?thesis by (simp add: word_less_nat_alt)
  qed
  show ?thesis
  proof (cases "hd (ptr s) AND 0x80 \<noteq> 0")
    case True
    then have d: "der_integer n (ptr s) = [0x02, ucast (raw_len c) + 1, 0x00] @ take n (ptr s)"
      by (simp add: der_integer_def sign_pad_def assms(2) ucast_of_nat_u8)
    have l: "raw_len c + 3 = of_nat (length (der_integer n (ptr s)))"
      unfolding d using assms(2,4) by (simp add: min_absorb2)
    show ?thesis
      using True g1 g2 g3 g4 assms(5,6) h
      by (simp add: extract_coordinate_def a a2 Let_def l [symmetric] d assms(2) un)
  next
    case False
    then have d: "der_integer n (ptr s) = [0x02, ucast (raw_len c)] @ take n (ptr s)"
      by (simp add: der_integer_def sign_pad_def assms(2) ucast_of_nat_u8)
    have l: "raw_len c + 2 = of_nat (length (der_integer n (ptr s)))"
      unfolding d using assms(2,4) by (simp add: min_absorb2)
    show ?thesis
      using False g1 g2 g3 g4 assms(5,7) h
      by (simp add: extract_coordinate_def a a2 Let_def l [symmetric] d assms(2) un)
  qed
qed

lemma get_point_ok:
  assumes "unat (encoded_len X) = length (encoded_ptr X)"
    "unat (encoded_len Y) = length (encoded_ptr Y)"
    "length (encoded_ptr X) + length (encoded_ptr Y) \<le> 0xFFFF"
    "calloc_ok v (encoded_len X + encoded_len Y)"
    "buf_ok out"
    "length (prev out) + 1 + length (ber_length (encoded_len X + encoded_len Y))
     < unat (size_b out)"
    "size_b out \<le> SSIZE_MAX"
  shows "get_point v X Y out =
     (None, append_bytes
        (0x30 # ber_length (encoded_len X + encoded_len Y) @ encoded_ptr X @ encoded_ptr Y) out)"
proof -
  define L where "L = encoded_len X + encoded_len Y"
  have uL: "unat L = length (encoded_ptr X) + length (encoded_ptr Y)"
    unfolding L_def using assms(1,2,3) by (simp add: unat_word_ariths)
  have g1: "\<not> L < encoded_len X" using uL assms(1) by (simp add: word_less_nat_alt)
  have g2: "L \<le> UINT16_MAX" using uL assms(3) by (simp add: word_le_nat_alt UINT16_MAX_def)
  have g3: "\<not> L > UINT16_MAX" using g2 by simp
  have "bertlv_put_tag 0x30 (encoded_ptr X @ encoded_ptr Y) L out =
        (0, append_bytes (0x30 # ber_length L @ take (unat L) (encoded_ptr X @ encoded_ptr Y)) out)"
    using assms(5) g2 _ assms(6) [folded L_def] assms(7)
    by (rule bertlv_put_tag_ok) (simp add: uL)
  then have "bertlv_put_tag 0x30 (encoded_ptr X @ encoded_ptr Y) L out =
        (0, append_bytes (0x30 # ber_length L @ encoded_ptr X @ encoded_ptr Y) out)"
    by (simp add: uL)
  then show ?thesis
    using g1 g3 assms(4) [folded L_def]
    by (simp add: get_point_def Let_def L_def [symmetric] assms(1,2))
qed

lemma int_of_size_small: "k < 2 ^ 31 \<Longrightarrow> int_of_size (of_nat k) = int k"
proof -
  assume k: "k < 2 ^ 31"
  have "(ucast (of_nat k :: size_t) :: 32 word) = of_nat k"
    by (rule bit_eqI) (auto simp: bit_simps)
  moreover have "sint (of_nat k :: 32 word) = int k"
    using k by (simp add: signed_of_nat signed_take_bit_int_eq_self)
  ultimately show ?thesis by (simp add: int_of_size_def)
qed

lemma der_integer_length: "n \<le> length bs \<Longrightarrow> length (der_integer n bs) = 2 + length (sign_pad bs) + n"
  by (simp add: der_integer_def)

lemma sign_pad_length: "length (sign_pad bs) \<le> 1"
  by (simp add: sign_pad_def)

lemma encode_ec_sig_ok:
  assumes t: "type_c crd = SC_CARD_TYPE_CARDOS_V5_0 \<or> type_c crd = SC_CARD_TYPE_CARDOS_V5_3"
    and m: "unat siglen = 2 * n + 2 * trailer_len (type_c crd)" "4 \<le> unat siglen"
    and le: "siglen \<le> sigbufsiz" "unat siglen \<le> length sig"
    and n: "n < 127"
    and c: "calloc_ok v siglen" "calloc_ok v (of_nat n + 3)" "calloc_ok v (of_nat n + 2)"
      "\<And>k. k \<le> 258 \<Longrightarrow> calloc_ok v (of_nat k)"
    and fit: "length (ec_der (type_c crd) n (take (unat siglen) sig)) \<le> unat sigbufsiz"
      "sigbufsiz \<le> SSIZE_MAX"
  shows "encode_ec_sig v crd sig siglen sigbufsiz =
     (Inr (int (length (ec_der (type_c crd) n (take (unat siglen) sig)))),
      ec_der (type_c crd) n (take (unat siglen) sig) @
      replicate (unat sigbufsiz - length (ec_der (type_c crd) n (take (unat siglen) sig))) 0)"
proof -
  let ?tl = "trailer_len (type_c crd)"
  let ?bs = "take (unat siglen) sig"
  let ?raw = "buf_init ?bs siglen"
  let ?X = "\<lparr>encoded_ptr = [], encoded_len = 0, raw_len = of_nat n :: size_t\<rparr>"
  have lb: "length ?bs = unat siglen" using le(2) by simp
  have g0: "\<not> (siglen < 4 \<or> siglen > sigbufsiz \<or> siglen mod 2 \<noteq> 0)"
  proof -
    have "\<not> siglen < 4" using m(2) by (simp add: word_less_nat_alt)
    moreover have "\<not> siglen > sigbufsiz" using le(1) by simp
    moreover have "unat (siglen mod 2) = 0" using m(1) by (simp add: unat_mod)
    then have "siglen mod 2 = 0" by (simp add: unat_eq_0)
    ultimately show ?thesis by simp
  qed
  have crl: "(if type_c crd = SC_CARD_TYPE_CARDOS_V5_0 then Some ((siglen - 4) div 2)
              else if type_c crd = SC_CARD_TYPE_CARDOS_V5_3 then Some (siglen div 2)
              else None) = Some (of_nat n)"
  proof (cases "type_c crd = SC_CARD_TYPE_CARDOS_V5_0")
    case True
    have "4 \<le> siglen" using m(2) by (simp add: word_le_nat_alt)
    then have "unat ((siglen - 4) div 2) = n"
      using m(1) True by (simp add: unat_div unat_sub trailer_len_def)
    then have "(siglen - 4) div 2 = of_nat n" by auto
    with True show ?thesis by simp
  next
    case False
    then have "unat (siglen div 2) = n"
      using m(1) by (simp add: unat_div trailer_len_def)
    then have "siglen div 2 = of_nat n" by auto
    with False t show ?thesis by simp
  qed
  have rok: "raw_ok ?raw"
    using lb by (simp add: raw_ok_def buf_ok_def buf_init_def)
  have p0: "ptr ?raw = ?bs" by (simp add: buf_init_def)
  have tl2: "?tl \<le> 2" by (simp add: trailer_len_def)
  define s1 where "s1 = (if type_c crd = SC_CARD_TYPE_CARDOS_V5_0 then skip 2 (skip n ?raw)
                         else skip n ?raw)"
  have "extract_coordinate v crd ?X ?raw =
     Inr (?X\<lparr>encoded_len := of_nat (length (der_integer n (ptr ?raw))),
              encoded_ptr := der_integer n (ptr ?raw)\<rparr>, s1)"
    unfolding s1_def using rok _ n _ _ c(2,3)
    by (rule extract_coordinate_ok) (insert lb m, auto simp: buf_init_def trailer_len_def)
  then have x: "extract_coordinate v crd ?X ?raw =
     Inr (?X\<lparr>encoded_len := of_nat (length (der_integer n ?bs)),
              encoded_ptr := der_integer n ?bs\<rparr>, s1)"
    unfolding p0 .
  have lr: "length (ptr ?raw) = 2 * n + 2 * ?tl" using lb m(1) by (simp add: buf_init_def)
  then have "n \<le> length (ptr ?raw)" by simp
  with rok have sk: "raw_ok (skip n ?raw)" by (rule raw_ok_skip)
  have "length (ptr (skip n ?raw)) = n + 2 * ?tl" using lr by (simp add: skip_def)
  then have "type_c crd = SC_CARD_TYPE_CARDOS_V5_0 \<Longrightarrow> 2 \<le> length (ptr (skip n ?raw))"
    by (simp add: trailer_len_def)
  with sk have "type_c crd = SC_CARD_TYPE_CARDOS_V5_0 \<Longrightarrow> raw_ok (skip 2 (skip n ?raw))"
    by (rule raw_ok_skip)
  with sk have s1ok: "raw_ok s1"
    unfolding s1_def by simp
  have p1: "ptr s1 = drop (n + ?tl) ?bs"
    by (simp add: s1_def skip_def buf_init_def trailer_len_def add.commute)
  have l1: "length (ptr s1) = n + ?tl" unfolding p1 using lb m by simp
  have ne1: "ptr s1 \<noteq> []"
  proof -
    from m t have "0 < n + ?tl" by (auto simp: trailer_len_def)
    with l1 show ?thesis by auto
  qed
  define s2 where "s2 = (if type_c crd = SC_CARD_TYPE_CARDOS_V5_0 then skip 2 (skip n s1)
                         else skip n s1)"
  have "extract_coordinate v crd ?X s1 =
     Inr (?X\<lparr>encoded_len := of_nat (length (der_integer n (ptr s1))),
              encoded_ptr := der_integer n (ptr s1)\<rparr>, s2)"
    unfolding s2_def using s1ok _ n _ ne1 c(2,3)
    by (rule extract_coordinate_ok) (insert l1, auto simp: trailer_len_def)
  then have y: "extract_coordinate v crd ?X s1 =
     Inr (?X\<lparr>encoded_len := of_nat (length (der_integer n (drop (n + ?tl) ?bs))),
              encoded_ptr := der_integer n (drop (n + ?tl) ?bs)\<rparr>, s2)"
    unfolding p1 .
  let ?I1 = "der_integer n ?bs" and ?I2 = "der_integer n (drop (n + ?tl) ?bs)"
  let ?X' = "?X\<lparr>encoded_len := of_nat (length ?I1), encoded_ptr := ?I1\<rparr>"
  let ?Y' = "?X\<lparr>encoded_len := of_nat (length ?I2), encoded_ptr := ?I2\<rparr>"
  let ?zeroed = "replicate (unat sigbufsiz) (0::u8)"
  let ?out = "buf_init ?zeroed sigbufsiz"
  have nb: "n \<le> length ?bs" "n \<le> length (drop (n + ?tl) ?bs)"
    using lb m by simp_all
  have li: "length ?I1 \<le> 129" "length ?I2 \<le> 129" "4 \<le> length ?I1 + length ?I2 \<or> True"
    using n sign_pad_length [of ?bs] sign_pad_length [of "drop (n + ?tl) ?bs"]
    by (simp_all add: der_integer_length [OF nb(1)] der_integer_length [OF nb(2)])
  have ul: "unat (of_nat (length ?I1) :: size_t) = length ?I1"
    "unat (of_nat (length ?I2) :: size_t) = length ?I2"
    using li by (simp_all add: unat_of_nat_small)
  have sum: "(of_nat (length ?I1) :: size_t) + of_nat (length ?I2) = of_nat (length ?I1 + length ?I2)"
    by simp
  have l2: "2 \<le> length ?I1" by (simp add: der_integer_def)
  have room: "length (prev ?out) + 1 +
       length (ber_length (encoded_len ?X' + encoded_len ?Y')) < unat (size_b ?out)"
    using fit(1) l2 unfolding ec_der_def
    by (simp add: buf_init_def)
  have g: "get_point v ?X' ?Y' ?out =
     (None, append_bytes (0x30 # ber_length (encoded_len ?X' + encoded_len ?Y') @
                          encoded_ptr ?X' @ encoded_ptr ?Y') ?out)"
  proof (rule get_point_ok)
    show "unat (encoded_len ?X') = length (encoded_ptr ?X')" using ul(1) by simp
    show "unat (encoded_len ?Y') = length (encoded_ptr ?Y')" using ul(2) by simp
    show "length (encoded_ptr ?X') + length (encoded_ptr ?Y') \<le> 0xFFFF" using li by simp
    show "calloc_ok v (encoded_len ?X' + encoded_len ?Y')"
      using c(4) [of "length ?I1 + length ?I2"] li by simp
    show "buf_ok ?out" by (simp add: buf_ok_def buf_init_def)
    show "length (prev ?out) + 1 +
       length (ber_length (encoded_len ?X' + encoded_len ?Y')) < unat (size_b ?out)"
      by (rule room)
    show "size_b ?out \<le> SSIZE_MAX" using fit(2) by (simp add: buf_init_def)
  qed
  have der: "0x30 # ber_length (encoded_len ?X' + encoded_len ?Y') @
               encoded_ptr ?X' @ encoded_ptr ?Y' = ec_der (type_c crd) n ?bs"
    by (simp add: ec_der_def)
  have small: "length (ec_der (type_c crd) n ?bs) < 2 ^ 31"
  proof -
    have "length (ber_length x) \<le> 3" for x by (simp add: ber_length_def)
    from this [of "of_nat (length ?I1) + of_nat (length ?I2)"] li show ?thesis
      by (simp add: ec_der_def)
  qed
  have res: "int_of_size (bytes_used (append_bytes (ec_der (type_c crd) n ?bs) ?out)) =
        int (length (ec_der (type_c crd) n ?bs))"
    using int_of_size_small [OF small] by (simp add: append_bytes_def buf_init_def)
  have arr: "array (append_bytes (ec_der (type_c crd) n ?bs) ?out) =
     ec_der (type_c crd) n ?bs @
       replicate (unat sigbufsiz - length (ec_der (type_c crd) n ?bs)) 0"
    by (simp add: array_def append_bytes_def buf_init_def)
  show ?thesis
    unfolding encode_ec_sig_def
    using g0 c(1) by (simp only: if_False crl option.case Let_def x y sum.case prod.case
        g [unfolded der] res arr not_not if_True simp_thms)
qed

lemma der_integer_tlv:
  assumes "bs = C @ rest" "C @ t \<noteq> []" "take (length t) rest = t"
  shows "der_integer (length C) bs = integer_tlv (sign_pad (C @ t)) C"
proof -
  have "hd bs = hd (C @ t)"
  proof (cases C)
    case Nil
    with assms show ?thesis by (cases t; cases rest) auto
  next
    case (Cons x xs)
    with assms(1) show ?thesis by simp
  qed
  then have "sign_pad bs = sign_pad (C @ t)" by (simp add: sign_pad_def)
  then show ?thesis by (simp add: der_integer_def integer_tlv_def assms(1))
qed

lemma ec_der_layout:
  assumes "bs = R @ t1 @ S @ t2" "length R = length S" "length t1 = trailer_len t"
    "length t2 = trailer_len t" "R @ t1 \<noteq> []"
  shows "ec_der t (length R) bs =
     sequence_tlv (integer_tlv (sign_pad (R @ t1)) R @ integer_tlv (sign_pad (S @ t2)) S)"
proof -
  have 1: "der_integer (length R) bs = integer_tlv (sign_pad (R @ t1)) R"
    using assms(1) assms(5) by (rule der_integer_tlv) simp
  have d: "drop (length R + trailer_len t) bs = S @ t2"
    using assms(1,3) by simp
  have "S @ t2 \<noteq> []" using assms(2,3,4,5) by auto
  with d have "der_integer (length S) (drop (length R + trailer_len t) bs) =
      integer_tlv (sign_pad (S @ t2)) S"
    by (rule der_integer_tlv) simp
  then have 2: "der_integer (length R) (drop (length R + trailer_len t) bs) =
      integer_tlv (sign_pad (S @ t2)) S"
    unfolding assms(2) .
  show ?thesis
    unfolding ec_der_def sequence_tlv_def 1 2 by simp
qed

text \<open>
  C4. \<^verbatim>\<open>encode_ec_sig\<close> returns INVALID_ARGUMENTS, leaving the buffer as it was, for every
  \<open>siglen\<close> below 4 or odd. Otherwise let the \<open>siglen\<close> raw bytes be \<open>R @ t1 @ S @ t2\<close> with
  \<open>R\<close> and \<open>S\<close> of equal length below 127, where on a v5.0 card \<open>t1\<close> and \<open>t2\<close> are the
  2-byte trailers (so each coordinate has (siglen - 4) / 2 bytes) and on a v5.3 card they
  are empty (the coordinates are the two halves). When allocation succeeds and the result
  fits the buffer, the buffer receives, followed by zeros, the SEQUENCE of two INTEGERs
  whose contents are \<open>R\<close> and \<open>S\<close>, each after an optional padding zero; the trailers
  appear nowhere; the length of the SEQUENCE is returned.
\<close>

theorem encode_ec_sig_layout:
  "(siglen < 4 \<or> siglen mod 2 \<noteq> 0 \<longrightarrow>
      encode_ec_sig v crd sig siglen sigbufsiz = (Inl SC_ERROR_INVALID_ARGUMENTS, sig)) \<and>
   (type_c crd = SC_CARD_TYPE_CARDOS_V5_0 \<and> length t1 = 2 \<and> length t2 = 2 \<or>
    type_c crd = SC_CARD_TYPE_CARDOS_V5_3 \<and> t1 = [] \<and> t2 = [] \<longrightarrow>
    take (unat siglen) sig = R @ t1 @ S @ t2 \<longrightarrow> length R = length S \<longrightarrow> length R < 127 \<longrightarrow>
    4 \<le> siglen \<longrightarrow> siglen \<le> sigbufsiz \<longrightarrow> length sig = unat sigbufsiz \<longrightarrow>
    sigbufsiz \<le> SSIZE_MAX \<longrightarrow> (\<forall>k. calloc_ok v k) \<longrightarrow>
    der = sequence_tlv (integer_tlv (sign_pad (R @ t1)) R @ integer_tlv (sign_pad (S @ t2)) S) \<longrightarrow>
    length der \<le> unat sigbufsiz \<longrightarrow>
      encode_ec_sig v crd sig siglen sigbufsiz =
        (Inr (int (length der)), der @ replicate (unat sigbufsiz - length der) 0))"
proof (intro conjI impI)
  assume "siglen < 4 \<or> siglen mod 2 \<noteq> 0"
  then have "siglen < 4 \<or> siglen > sigbufsiz \<or> siglen mod 2 \<noteq> 0" by auto
  then show "encode_ec_sig v crd sig siglen sigbufsiz = (Inl SC_ERROR_INVALID_ARGUMENTS, sig)"
    by (simp only: encode_ec_sig_def if_True)
next
  assume t: "type_c crd = SC_CARD_TYPE_CARDOS_V5_0 \<and> length t1 = 2 \<and> length t2 = 2 \<or>
    type_c crd = SC_CARD_TYPE_CARDOS_V5_3 \<and> t1 = [] \<and> t2 = []"
    and bs: "take (unat siglen) sig = R @ t1 @ S @ t2"
    and l: "length R = length S" "length R < 127"
    and s: "4 \<le> siglen" "siglen \<le> sigbufsiz" "length sig = unat sigbufsiz"
      "sigbufsiz \<le> SSIZE_MAX"
    and c: "\<forall>k. calloc_ok v k"
    and d: "der = sequence_tlv (integer_tlv (sign_pad (R @ t1)) R @
                                integer_tlv (sign_pad (S @ t2)) S)"
    and fit: "length der \<le> unat sigbufsiz"
  from t have tl: "length t1 = trailer_len (type_c crd)" "length t2 = trailer_len (type_c crd)"
    and ty: "type_c crd = SC_CARD_TYPE_CARDOS_V5_0 \<or> type_c crd = SC_CARD_TYPE_CARDOS_V5_3"
    by (auto simp: trailer_len_def)
  from s(2,3) have le: "unat siglen \<le> length sig" by (simp add: word_le_nat_alt)
  from arg_cong [OF bs, of length] le l(1) tl
  have m: "unat siglen = 2 * length R + 2 * trailer_len (type_c crd)" by simp
  from s(1) have m4: "4 \<le> unat siglen" by (simp add: word_le_nat_alt)
  from m m4 t have ne: "R @ t1 \<noteq> []" by (auto simp: trailer_len_def)
  have e: "ec_der (type_c crd) (length R) (take (unat siglen) sig) = der"
    unfolding d using bs l(1) tl ne by (rule ec_der_layout)
  from c have c': "calloc_ok v siglen" "calloc_ok v (of_nat (length R) + 3)"
    "calloc_ok v (of_nat (length R) + 2)" "\<And>k. k \<le> 258 \<Longrightarrow> calloc_ok v (of_nat k)"
    by simp_all
  from encode_ec_sig_ok [OF ty m m4 s(2) le l(2) c' fit [folded e] s(4)]
  show "encode_ec_sig v crd sig siglen sigbufsiz =
        (Inr (int (length der)), der @ replicate (unat sigbufsiz - length der) 0)"
    unfolding e .
qed

lemmas eval_sig =
  encode_ec_sig_def extract_coordinate_def get_point_def bertlv_put_tag_def put_byte_def
  put_bytes_def advance_def buf_init_def array_def int_of_size_def INT8_MAX_def UINT16_MAX_def
  Let_def example_env_def example_card_def

theorem encode_ec_sig_layout_witness:
  "encode_ec_sig example_env (example_card\<lparr>type_c := SC_CARD_TYPE_CARDOS_V5_0\<rparr>)
     ([0x81, 0x02, 0x90, 0x00, 0x03, 0x04, 0x90, 0x00] @ replicate 8 0) 3 16 =
     (Inl SC_ERROR_INVALID_ARGUMENTS, [0x81, 0x02, 0x90, 0x00, 0x03, 0x04, 0x90, 0x00] @ replicate 8 0) \<and>
   encode_ec_sig example_env (example_card\<lparr>type_c := SC_CARD_TYPE_CARDOS_V5_0\<rparr>)
     ([0x81, 0x02, 0x90, 0x00, 0x03, 0x04, 0x90, 0x00] @ replicate 8 0) 8 16 =
     (Inr 11, [0x30, 0x09, 0x02, 0x03, 0x00, 0x81, 0x02, 0x02, 0x02, 0x03, 0x04] @ replicate 5 0)"
proof -
  let ?crd = "example_card\<lparr>type_c := SC_CARD_TYPE_CARDOS_V5_0\<rparr>"
  let ?sig = "[0x81, 0x02, 0x90, 0x00, 0x03, 0x04, 0x90, 0x00] @ replicate 8 (0 :: u8)"
  let ?der = "[0x30, 0x09, 0x02, 0x03, 0x00, 0x81, 0x02, 0x02, 0x02, 0x03, 0x04] :: u8 list"
  have d: "?der = sequence_tlv (integer_tlv (sign_pad ([0x81, 0x02] @ [0x90, 0x00])) [0x81, 0x02] @
                                integer_tlv (sign_pad ([0x03, 0x04] @ [0x90, 0x00])) [0x03, 0x04])"
    by (simp add: sequence_tlv_def integer_tlv_def sign_pad_def ber_length_def)
  have a: "(3 :: size_t) < 4 \<or> (3 :: size_t) mod 2 \<noteq> 0" by simp
  have h: "type_c ?crd = SC_CARD_TYPE_CARDOS_V5_0 \<and> length [0x90 :: u8, 0x00] = 2 \<and>
           length [0x90 :: u8, 0x00] = 2 \<or>
           type_c ?crd = SC_CARD_TYPE_CARDOS_V5_3 \<and> [0x90 :: u8, 0x00] = [] \<and> [0x90 :: u8, 0x00] = []"
    "take (unat (8 :: size_t)) ?sig = [0x81, 0x02] @ [0x90, 0x00] @ [0x03, 0x04] @ [0x90, 0x00]"
    "length [0x81 :: u8, 0x02] = length [0x03 :: u8, 0x04]" "length [0x81 :: u8, 0x02] < 127"
    "(4 :: size_t) \<le> 8" "(8 :: size_t) \<le> 16" "length ?sig = unat (16 :: size_t)"
    "(16 :: size_t) \<le> SSIZE_MAX" "\<forall>k. calloc_ok example_env k"
    "length ?der \<le> unat (16 :: size_t)"
    by (simp_all add: SSIZE_MAX_def example_env_def)
  from encode_ec_sig_layout [of 3 example_env ?crd ?sig 16, THEN conjunct1, rule_format, OF a]
    encode_ec_sig_layout [of 8 example_env ?crd ?sig 16 "[0x90, 0x00]" "[0x90, 0x00]"
      "[0x81, 0x02]" "[0x03, 0x04]" ?der, THEN conjunct2, rule_format, OF h(1-8) h(9) [rule_format] d h(10)]
  show ?thesis by simp
qed

text \<open>
  C3. The claim has the SEQUENCE carry a long-form length. For the raw bytes 01 02 03 04
  on a v5.3 card the result is 30 08 02 02 01 02 02 02 03 04: the length octet 08 is the
  short form, its high bit clear.
\<close>

theorem coordinate_encoding_counterexample:
  "encode_ec_sig example_env example_card ([0x01, 0x02, 0x03, 0x04] @ replicate 12 0) 4 16 =
     (Inr 10, [0x30, 0x08, 0x02, 0x02, 0x01, 0x02, 0x02, 0x02, 0x03, 0x04] @ replicate 6 0) \<and>
   (0x08 :: u8) AND 0x80 = 0"
  by (simp add: eval_sig)

text \<open>
  C3, amended. For a coordinate \<open>C\<close> with \<open>0 < |C| < 127\<close> at the cursor,
  \<^verbatim>\<open>extract_coordinate\<close> encodes the INTEGER \<open>02 (|C|+1) 00 C\<close> when \<open>C[0]\<close> has the high bit
  set and \<open>02 |C| C\<close> otherwise, and moves the cursor past \<open>C\<close> (and the 2-byte trailer on a
  v5.0 card); a coordinate with raw length 127 or more is rejected with BUFFER_TOO_SMALL;
  \<^verbatim>\<open>get_point\<close> writes tag 0x30, the length of the two encoded INTEGERs in the form
  \<^verbatim>\<open>bertlv_put_tag\<close> chooses (one octet below 0x80, \<open>81 ll\<close> below 0xFF, \<open>82 hh ll\<close>
  otherwise), then the first and the second INTEGER.
\<close>

theorem coordinate_encoding:
  "(raw_ok s \<longrightarrow> ptr s = C @ rest \<longrightarrow> 0 < length C \<longrightarrow> length C < 127 \<longrightarrow>
    raw_len c = of_nat (length C) \<longrightarrow> (\<forall>k. calloc_ok v k) \<longrightarrow>
    (type_c crd = SC_CARD_TYPE_CARDOS_V5_0 \<longrightarrow> 2 \<le> length rest) \<longrightarrow>
    E = (if C ! 0 AND 0x80 \<noteq> 0 then [0x02, of_nat (length C + 1), 0x00] @ C
         else [0x02, of_nat (length C)] @ C) \<longrightarrow>
      extract_coordinate v crd c s =
        Inr (c\<lparr>encoded_len := of_nat (length E), encoded_ptr := E\<rparr>,
             if type_c crd = SC_CARD_TYPE_CARDOS_V5_0 then skip 2 (skip (length C) s)
             else skip (length C) s)) \<and>
   (INT8_MAX \<le> raw_len c \<longrightarrow> extract_coordinate v crd c s = Inl SC_ERROR_BUFFER_TOO_SMALL) \<and>
   (unat (encoded_len X) = length (encoded_ptr X) \<longrightarrow>
    unat (encoded_len Y) = length (encoded_ptr Y) \<longrightarrow>
    length (encoded_ptr X) + length (encoded_ptr Y) \<le> 0xFFFF \<longrightarrow>
    (\<forall>k. calloc_ok v k) \<longrightarrow> buf_ok out \<longrightarrow> size_b out \<le> SSIZE_MAX \<longrightarrow>
    length (prev out) + 1 + length (ber_length (encoded_len X + encoded_len Y))
      < unat (size_b out) \<longrightarrow>
      get_point v X Y out =
        (None, append_bytes
           (0x30 # ber_length (encoded_len X + encoded_len Y) @ encoded_ptr X @ encoded_ptr Y)
           out))"
proof (intro conjI impI)
  assume s: "raw_ok s" "ptr s = C @ rest" and l: "0 < length C" "length C < 127"
    and r: "raw_len c = of_nat (length C)" and c: "\<forall>k. calloc_ok v k"
    and t: "type_c crd = SC_CARD_TYPE_CARDOS_V5_0 \<longrightarrow> 2 \<le> length rest"
    and e: "E = (if C ! 0 AND 0x80 \<noteq> 0 then [0x02, of_nat (length C + 1), 0x00] @ C
                 else [0x02, of_nat (length C)] @ C)"
  from s(2) l(1) have ne: "ptr s \<noteq> []" and le: "length C \<le> length (ptr s)" by auto
  from s(2) t have t': "type_c crd = SC_CARD_TYPE_CARDOS_V5_0 \<longrightarrow> length C + 2 \<le> length (ptr s)"
    by simp
  from l(1) s(2) have "hd (ptr s) = C ! 0" by (cases C) simp_all
  then have "der_integer (length C) (ptr s) = E"
    unfolding e by (simp add: der_integer_def sign_pad_def s(2))
  with extract_coordinate_ok [OF s(1) r l(2) le ne _ _ t'] c
  show "extract_coordinate v crd c s =
        Inr (c\<lparr>encoded_len := of_nat (length E), encoded_ptr := E\<rparr>,
             if type_c crd = SC_CARD_TYPE_CARDOS_V5_0 then skip 2 (skip (length C) s)
             else skip (length C) s)"
    by simp
next
  assume "INT8_MAX \<le> raw_len c"
  then show "extract_coordinate v crd c s = Inl SC_ERROR_BUFFER_TOO_SMALL"
    by (simp add: extract_coordinate_def)
next
  assume "unat (encoded_len X) = length (encoded_ptr X)"
    "unat (encoded_len Y) = length (encoded_ptr Y)"
    "length (encoded_ptr X) + length (encoded_ptr Y) \<le> 0xFFFF"
    "\<forall>k. calloc_ok v k" "buf_ok out" "size_b out \<le> SSIZE_MAX"
    "length (prev out) + 1 + length (ber_length (encoded_len X + encoded_len Y))
      < unat (size_b out)"
  then show "get_point v X Y out =
        (None, append_bytes
           (0x30 # ber_length (encoded_len X + encoded_len Y) @ encoded_ptr X @ encoded_ptr Y)
           out)"
    by (intro get_point_ok) simp_all
qed

theorem coordinate_encoding_witness:
  "extract_coordinate example_env example_card
     \<lparr>encoded_ptr = [], encoded_len = 0, raw_len = 2\<rparr> (buf_init [0x81, 0x02, 0x03, 0x04] 4) =
     Inr (\<lparr>encoded_ptr = [0x02, 0x03, 0x00, 0x81, 0x02], encoded_len = 5, raw_len = 2\<rparr>,
          \<lparr>prev = [0x81, 0x02], ptr = [0x03, 0x04], size_b = 4, bytes_used = 2\<rparr>) \<and>
   extract_coordinate example_env example_card
     \<lparr>encoded_ptr = [], encoded_len = 0, raw_len = 127\<rparr> (buf_init (replicate 254 0x01) 254) =
     Inl SC_ERROR_BUFFER_TOO_SMALL \<and>
   get_point example_env
     \<lparr>encoded_ptr = [0x02, 0x03, 0x00, 0x81, 0x02], encoded_len = 5, raw_len = 2\<rparr>
     \<lparr>encoded_ptr = [0x02, 0x02, 0x03, 0x04], encoded_len = 4, raw_len = 2\<rparr>
     (buf_init (replicate 16 0) 16) =
     (None, \<lparr>prev = [0x30, 0x09, 0x02, 0x03, 0x00, 0x81, 0x02, 0x02, 0x02, 0x03, 0x04],
             ptr = replicate 5 0, size_b = 16, bytes_used = 11\<rparr>)"
proof -
  let ?c = "\<lparr>encoded_ptr = [], encoded_len = 0, raw_len = 2 :: size_t\<rparr>"
  let ?c' = "\<lparr>encoded_ptr = [], encoded_len = 0, raw_len = 127 :: size_t\<rparr>"
  let ?X = "\<lparr>encoded_ptr = [0x02, 0x03, 0x00, 0x81, 0x02], encoded_len = 5, raw_len = 2 :: size_t\<rparr>"
  let ?Y = "\<lparr>encoded_ptr = [0x02, 0x02, 0x03, 0x04], encoded_len = 4, raw_len = 2 :: size_t\<rparr>"
  let ?s = "buf_init [0x81, 0x02, 0x03, 0x04] 4"
  let ?out = "buf_init (replicate 16 0) 16"
  have c: "calloc_ok example_env k" for k by (simp add: example_env_def)
  have a: "raw_ok ?s" "ptr ?s = [0x81, 0x02] @ [0x03, 0x04]" "0 < length [0x81 :: u8, 0x02]"
    "length [0x81 :: u8, 0x02] < 127" "raw_len ?c = of_nat (length [0x81 :: u8, 0x02])"
    "type_c example_card = SC_CARD_TYPE_CARDOS_V5_0 \<Longrightarrow> 2 \<le> length [0x03 :: u8, 0x04]"
    by (simp_all add: raw_ok_def buf_ok_def buf_init_def)
  have b: "INT8_MAX \<le> raw_len ?c'" by (simp add: INT8_MAX_def)
  have g: "unat (encoded_len ?X) = length (encoded_ptr ?X)"
    "unat (encoded_len ?Y) = length (encoded_ptr ?Y)"
    "length (encoded_ptr ?X) + length (encoded_ptr ?Y) \<le> 0xFFFF"
    "buf_ok ?out" "size_b ?out \<le> SSIZE_MAX"
    "length (prev ?out) + 1 + length (ber_length (encoded_len ?X + encoded_len ?Y))
      < unat (size_b ?out)"
    by (simp_all add: buf_ok_def buf_init_def SSIZE_MAX_def ber_length_def)
  note t = coordinate_encoding [where v = example_env and crd = example_card]
  from t [where s = ?s and C = "[0x81, 0x02]" and rest = "[0x03, 0x04]" and c = ?c,
      THEN conjunct1, rule_format, OF a(1-5) c a(6) refl]
    t [where c = ?c' and s = "buf_init (replicate 254 0x01) 254", THEN conjunct2, THEN conjunct1,
      rule_format, OF b]
    t [where X = ?X and Y = ?Y and out = ?out, THEN conjunct2, THEN conjunct2, rule_format,
      OF g(1-3) c g(4-6)]
  show ?thesis
    by (simp add: example_card_def skip_def buf_init_def append_bytes_def ber_length_def)
qed

end
